theory Spec2Isabelle
  imports Main "HOL-Library.Word" "HOL-Library.AList" "HOL-Library.List_Lexorder"
    "HOL-Library.Char_ord"
begin

text \<open>
  A model of the core of \<^verbatim>\<open>veriglob-core\<close>, written from its Go sources:
  \<^item> the packages \<open>did\<close> and \<open>resolver\<close>: \<open>did:key\<close> identifiers, derived from an
    Ed25519 public key and resolved back to it;
  \<^item> the package \<open>revocation\<close>: the registry of credentials and their status;
  \<^item> the packages \<open>vc\<close> and \<open>presentation\<close>: credentials and presentations as
    signed tokens.
  The definitions come first, package by package, then the properties proved of them.
  What a function takes from its environment (the clock, the random source, the answer of
  the file system) is an argument of its model; an error return is a value of a sum type.
\<close>

section \<open>Bytes, strings and errors\<close>

text \<open>
  Go strings and byte slices are sequences of bytes. A \<open>string\<close> is a list of 8-bit
  characters, a byte slice a list of 8-bit words.
\<close>

type_synonym byte = "8 word"
type_synonym bytes = "byte list"

text \<open>
  The error values of the packages \<open>resolver\<close> (\<open>ErrInvalidDID\<close> ...
  \<open>ErrInvalidKeyLength\<close>), and the two failures of \<open>base58.Decode\<close>.
\<close>

datatype resolve_error =
    ErrInvalidDID
  | ErrUnsupportedMethod
  | ErrInvalidMulticodec
  | ErrInvalidKeyLength
  | ErrBase58ZeroLength
  | ErrBase58InvalidDigit

section \<open>strings.Split on a one-byte separator\<close>

text \<open>
  \<open>strings.Split(s, sep)\<close> for a separator of one byte: every occurrence of the
  separator ends a part, so the result has one part more than \<open>s\<close> has separators
  (one empty part for the empty string).
\<close>

fun Split :: "string \<Rightarrow> char \<Rightarrow> string list" where
  "Split [] sep = [[]]"
| "Split (c # cs) sep =
     (if c = sep then [] # Split cs sep
      else (case Split cs sep of
              [] \<Rightarrow> [[c]]
            | p # ps \<Rightarrow> (c # p) # ps))"

section \<open>Base58 (the Bitcoin alphabet)\<close>

text \<open>
  The package \<open>github.com/mr-tron/base58\<close> is a dependency of the repository and not
  part of its sources. \<open>Encode\<close> and \<open>Decode\<close> are modelled by what they compute,
  base58btc: the bytes are read as one big-endian number written in base 58 with the
  Bitcoin alphabet, every leading zero byte becoming one leading \<open>1\<close>. \<open>Decode\<close>
  refuses the empty string and every character outside the alphabet.
\<close>

definition b58_alphabet :: string where
  "b58_alphabet = ''123456789ABCDEFGHJKLMNPQRSTUVWXYZabcdefghijkmnopqrstuvwxyz''"

text \<open>Big-endian digits of a number in base \<open>b\<close>; no digit at all for 0.\<close>

function digits_of_nat :: "nat \<Rightarrow> nat \<Rightarrow> nat list" where
  "digits_of_nat b n =
     (if n = 0 \<or> b < 2 then [] else digits_of_nat b (n div b) @ [n mod b])"
  by pat_completeness auto
termination
  by (relation "measure (\<lambda>(b, n). n)") auto

declare digits_of_nat.simps [simp del]

definition nat_of_digits :: "nat \<Rightarrow> nat list \<Rightarrow> nat" where
  "nat_of_digits b ds = foldl (\<lambda>n d. n * b + d) 0 ds"

definition nat_of_bytes :: "bytes \<Rightarrow> nat" where
  "nat_of_bytes bs = nat_of_digits 256 (map unat bs)"

definition bytes_of_nat :: "nat \<Rightarrow> bytes" where
  "bytes_of_nat n = map of_nat (digits_of_nat 256 n)"

text \<open>The position of a character in the alphabet; 58 for a character outside it.\<close>

definition b58_index :: "char \<Rightarrow> nat" where
  "b58_index c = length (takeWhile (\<lambda>x. x \<noteq> c) b58_alphabet)"

definition b58_Encode :: "bytes \<Rightarrow> string" where
  "b58_Encode bin =
     replicate (length (takeWhile (\<lambda>b. b = 0) bin)) (CHR ''1'')
     @ map (\<lambda>d. b58_alphabet ! d) (digits_of_nat 58 (nat_of_bytes bin))"

definition b58_Decode :: "string \<Rightarrow> resolve_error + bytes" where
  "b58_Decode str =
     (if str = [] then Inl ErrBase58ZeroLength
      else if \<exists>c \<in> set str. c \<notin> set b58_alphabet then Inl ErrBase58InvalidDigit
      else Inr (replicate (length (takeWhile (\<lambda>c. c = CHR ''1'') str)) 0
                @ bytes_of_nat (nat_of_digits 58 (map b58_index str))))"

section \<open>Package did: deriving a did:key identifier\<close>

record VerificationMethod =
  vm_ID :: string
  vm_Type :: string
  vm_Controller :: string
  vm_PublicKeyBase58 :: string

record DIDDocument =
  doc_Context :: "string list"
  doc_ID :: string
  doc_VerificationMethod :: "VerificationMethod list"
  doc_Authentication :: "string list"
  doc_AssertionMethod :: "string list"

record DIDKey =
  DID :: string
  PublicKey :: bytes
  DIDDocument :: DIDDocument

text \<open>The multicodec prefix of an Ed25519 public key, \<open>0xed01\<close>.\<close>

definition ed25519Multicodec :: bytes where
  "ed25519Multicodec = [0xed, 0x01]"

text \<open>
  \<open>CreateDIDKey\<close> has no failing branch: it returns a \<open>nil\<close> error for every byte
  slice, so the model returns the \<open>DIDKey\<close> itself.
\<close>

definition CreateDIDKey :: "bytes \<Rightarrow> DIDKey" where
  "CreateDIDKey pub =
     (let prefixedKey = ed25519Multicodec @ pub;
          encoded = ''z'' @ b58_Encode prefixedKey;
          did = ''did:key:'' @ encoded;
          vmID = did @ ''#key-1'';
          doc = \<lparr> doc_Context = [''https://www.w3.org/ns/did/v1''],
                  doc_ID = did,
                  doc_VerificationMethod =
                    [\<lparr> vm_ID = vmID,
                       vm_Type = ''Ed25519VerificationKey2018'',
                       vm_Controller = did,
                       vm_PublicKeyBase58 = b58_Encode pub \<rparr>],
                  doc_Authentication = [vmID],
                  doc_AssertionMethod = [vmID] \<rparr>
      in \<lparr> DID = did, PublicKey = pub, DIDDocument = doc \<rparr>)"

section \<open>Package resolver: from a did:key identifier to the public key\<close>

text \<open>\<open>ed25519.PublicKeySize\<close>.\<close>

definition PublicKeySize :: nat where
  "PublicKeySize = 32"

definition resolveKey :: "string \<Rightarrow> resolve_error + bytes" where
  "resolveKey identifier =
     (if length identifier = 0 \<or> identifier ! 0 \<noteq> CHR ''z'' then Inl ErrInvalidDID
      else (case b58_Decode (drop 1 identifier) of
              Inl err \<Rightarrow> Inl err
            | Inr decoded \<Rightarrow>
                if length decoded < 2 then Inl ErrInvalidMulticodec
                else if decoded ! 0 \<noteq> ed25519Multicodec ! 0
                        \<or> decoded ! 1 \<noteq> ed25519Multicodec ! 1
                then Inl ErrInvalidMulticodec
                else (let pubKeyBytes = drop 2 decoded
                      in if length pubKeyBytes \<noteq> PublicKeySize then Inl ErrInvalidKeyLength
                         else Inr pubKeyBytes)))"

definition Resolve :: "string \<Rightarrow> resolve_error + bytes" where
  "Resolve did =
     (let parts = Split did (CHR '':'')
      in if length parts < 3 then Inl ErrInvalidDID
         else if parts ! 0 \<noteq> ''did'' then Inl ErrInvalidDID
         else (let method = parts ! 1
               in if method = ''key'' then resolveKey (parts ! 2)
                  else Inl ErrUnsupportedMethod))"

definition ResolveDID :: "string \<Rightarrow> resolve_error + bytes" where
  "ResolveDID did = Resolve did"

text \<open>A 32-byte key and its identifier, used to run the definitions on concrete input.\<close>

definition example_key :: bytes where
  "example_key = map of_nat [1..<33]"

definition example_did :: string where
  "example_did = ''did:key:z6MkeXCES4onVW4up9Qgz1KRnZsKmGufcaZxF6Zpv2w5QwUK''"


section \<open>The libraries under the packages: time and encoding/json\<close>

text \<open>
  The packages \<open>revocation\<close>, \<open>vc\<close> and \<open>presentation\<close> are written on top of
  libraries that are not part of the repository's sources: \<open>time\<close>,
  \<open>encoding/json\<close>, \<open>crypto/ed25519\<close> and \<open>aidanwoods.dev/go-paseto\<close>. This
  section and the section on tokens model the part of their documented behaviour that the
  packages use.
\<close>

subsection \<open>Time\<close>

text \<open>
  A \<open>time.Time\<close> is a count of nanoseconds since January 1 of the year 1, 00:00:00 UTC;
  0 stands for the zero \<open>time.Time\<close>, the value of a field that was never set.
  \<open>time.Now()\<close> is an argument of the functions that call it. All times are taken in
  UTC: the location of a \<open>time.Time\<close> is not modelled.

  \<open>time.Duration\<close> counts nanoseconds.
\<close>

type_synonym Time = int

definition Second :: int where
  "Second = 1000000000"

definition Minute :: int where
  "Minute = 60 * Second"

definition Hour :: int where
  "Hour = 60 * Minute"

definition After :: "Time \<Rightarrow> Time \<Rightarrow> bool" where
  "After t u \<longleftrightarrow> t > u"

text \<open>
  RFC 3339 text has a year of four digits. A time is in the years 0 to 9999 when it is not
  before January 1 of the year 0 (366 days before the zero time) and before January 1 of
  the year 10000 (3652059 days after it). \<open>Time.MarshalJSON\<close> returns an error for a
  time outside these years; \<open>Time.Format\<close> writes such a time as text that
  \<open>time.Parse\<close> does not read back.
\<close>

definition year_0_to_9999 :: "Time \<Rightarrow> bool" where
  "year_0_to_9999 t \<longleftrightarrow> - (366 * 24 * Hour) \<le> t \<and> t < 3652059 * 24 * Hour"

subsection \<open>Strings in JSON\<close>

text \<open>
  \<open>json.Marshal\<close> writes a string as UTF-8 and replaces every byte that is not part of
  a well-formed UTF-8 sequence by the replacement character \<open>U+FFFD\<close> (the bytes
  \<open>EF BF BD\<close>); decoding gives the bytes of the text back. So a string that goes
  through JSON comes out as \<open>coerce_utf8\<close> of it.

  \<open>utf8_rune_len\<close> is the length of the well-formed sequence at the head of a string
  (as \<open>utf8.DecodeRuneInString\<close> finds it), 0 when there is none.
\<close>

definition in_range :: "string \<Rightarrow> nat \<Rightarrow> nat \<Rightarrow> nat \<Rightarrow> bool" where
  "in_range s i lo hi \<longleftrightarrow> i < length s \<and> lo \<le> of_char (s ! i) \<and> of_char (s ! i) \<le> hi"

definition utf8_rune_len :: "string \<Rightarrow> nat" where
  "utf8_rune_len s =
     (if s = [] then 0
      else if in_range s 0 0x00 0x7F then 1
      else if in_range s 0 0xC2 0xDF \<and> in_range s 1 0x80 0xBF then 2
      else if in_range s 0 0xE0 0xE0 \<and> in_range s 1 0xA0 0xBF \<and> in_range s 2 0x80 0xBF
        then 3
      else if in_range s 0 0xE1 0xEC \<and> in_range s 1 0x80 0xBF \<and> in_range s 2 0x80 0xBF
        then 3
      else if in_range s 0 0xED 0xED \<and> in_range s 1 0x80 0x9F \<and> in_range s 2 0x80 0xBF
        then 3
      else if in_range s 0 0xEE 0xEF \<and> in_range s 1 0x80 0xBF \<and> in_range s 2 0x80 0xBF
        then 3
      else if in_range s 0 0xF0 0xF0 \<and> in_range s 1 0x90 0xBF \<and> in_range s 2 0x80 0xBF
              \<and> in_range s 3 0x80 0xBF then 4
      else if in_range s 0 0xF1 0xF3 \<and> in_range s 1 0x80 0xBF \<and> in_range s 2 0x80 0xBF
              \<and> in_range s 3 0x80 0xBF then 4
      else if in_range s 0 0xF4 0xF4 \<and> in_range s 1 0x80 0x8F \<and> in_range s 2 0x80 0xBF
              \<and> in_range s 3 0x80 0xBF then 4
      else 0)"

definition replacement_char :: string where
  "replacement_char = [CHR 0xEF, CHR 0xBF, CHR 0xBD]"

function coerce_utf8 :: "string \<Rightarrow> string" where
  "coerce_utf8 s =
     (if s = [] then []
      else if utf8_rune_len s = 0 then replacement_char @ coerce_utf8 (tl s)
      else take (utf8_rune_len s) s @ coerce_utf8 (drop (utf8_rune_len s) s))"
  by pat_completeness auto
termination
  by (relation "measure length") auto

declare coerce_utf8.simps [simp del]

function valid_utf8 :: "string \<Rightarrow> bool" where
  "valid_utf8 s =
     (if s = [] then True
      else if utf8_rune_len s = 0 then False
      else valid_utf8 (drop (utf8_rune_len s) s))"
  by pat_completeness auto
termination
  by (relation "measure length") auto

declare valid_utf8.simps [simp del]

subsection \<open>JSON values\<close>

text \<open>
  A JSON value, as far as the packages write one: the numbers are integers, and a string
  that holds a time as RFC 3339 text is the value \<open>JTime t\<close>, for the time \<open>t\<close> that
  the text denotes. The model keeps the time and not the text: no \<open>JString\<close> stands for
  RFC 3339 text. An object is the list of its members in the order of the text.
\<close>

datatype json =
    JNull
  | JBool bool
  | JNumber int
  | JString string
  | JTime Time
  | JArray "json list"
  | JObject "(string \<times> json) list"

text \<open>\<open>json.Marshal\<close> of a string, of a slice of strings and of a \<open>time.Time\<close>
  (\<open>None\<close> is the error of \<open>Time.MarshalJSON\<close>).\<close>

definition marshal_string :: "string \<Rightarrow> json" where
  "marshal_string s = JString (coerce_utf8 s)"

definition marshal_strings :: "string list \<Rightarrow> json" where
  "marshal_strings ss = JArray (map marshal_string ss)"

definition marshal_Time :: "Time \<Rightarrow> json option" where
  "marshal_Time t = (if year_0_to_9999 t then Some (JTime t) else None)"

text \<open>
  A struct field with its JSON name; with \<open>omitempty\<close> the field is left out when it
  holds the zero value of its type.
\<close>

definition json_field :: "string \<Rightarrow> string \<Rightarrow> (string \<times> json) list" where
  "json_field name v = [(name, marshal_string v)]"

definition json_field_omitempty :: "string \<Rightarrow> string \<Rightarrow> (string \<times> json) list" where
  "json_field_omitempty name v = (if v = [] then [] else [(name, marshal_string v)])"

text \<open>
  \<open>json.Unmarshal\<close> into a string, and into a slice of strings: \<open>null\<close> leaves the
  zero value, a value of another kind is an error (\<open>None\<close>). (A \<open>JTime\<close> is a string
  for the decoder; the model has no text for it, and the packages decode no time this
  way.)
\<close>

fun unmarshal_string :: "json \<Rightarrow> string option" where
  "unmarshal_string JNull = Some []"
| "unmarshal_string (JString s) = Some s"
| "unmarshal_string _ = None"

fun unmarshal_all :: "json list \<Rightarrow> string list option" where
  "unmarshal_all [] = Some []"
| "unmarshal_all (j # js) =
     (case unmarshal_string j of
        None \<Rightarrow> None
      | Some s \<Rightarrow> (case unmarshal_all js of None \<Rightarrow> None | Some ss \<Rightarrow> Some (s # ss)))"

fun unmarshal_strings :: "json \<Rightarrow> string list option" where
  "unmarshal_strings JNull = Some []"
| "unmarshal_strings (JArray js) = unmarshal_all js"
| "unmarshal_strings _ = None"

text \<open>
  The value of a key of a JSON object, for the decoding of a struct; a key that is absent
  reads as \<open>null\<close>, which leaves the field at its zero value. The model reads objects
  that name a field once and with the spelling of its tag, as \<open>json.Marshal\<close> writes
  them. (The decoder also takes a name that differs in case, and the last of several
  members with one name.)
\<close>

definition json_member :: "(string \<times> json) list \<Rightarrow> string \<Rightarrow> json" where
  "json_member kvs name = (case map_of kvs name of None \<Rightarrow> JNull | Some j \<Rightarrow> j)"

subsection \<open>Decoding into an empty interface\<close>

text \<open>
  \<open>json.Unmarshal\<close> into a value of type \<open>interface{}\<close> makes a \<open>nil\<close>, a
  \<open>bool\<close>, a \<open>float64\<close>, a \<open>string\<close>, a \<open>[]interface{}\<close> or a
  \<open>map[string]interface{}\<close>. The numbers of the model are integers, so a \<open>float64\<close>
  is given by the integer it equals, and \<open>GoTimeText t\<close> is the string that holds the
  RFC 3339 text of \<open>t\<close>.
\<close>

datatype go_value =
    GoNil
  | GoBool bool
  | GoFloat64 int
  | GoString string
  | GoTimeText Time
  | GoSlice "go_value list"
  | GoMap "(string \<times> go_value) list"

text \<open>
  The \<open>float64\<close> nearest to an integer, ties to the even mantissa of 53 bits; an integer
  that rounds to \<open>2 ^ 1024\<close> or more has none, and decoding it is an error.
\<close>

fun bit_length :: "nat \<Rightarrow> nat" where
  "bit_length n = (if n = 0 then 0 else Suc (bit_length (n div 2)))"

declare bit_length.simps [simp del]

definition float64_of_int :: "int \<Rightarrow> int option" where
  "float64_of_int n =
     (let m = nat \<bar>n\<bar>;
          e = bit_length m - 53;
          q = m div 2 ^ e;
          r = m mod 2 ^ e;
          q' = (if 2 * r > 2 ^ e \<or> (2 * r = 2 ^ e \<and> odd q) then q + 1 else q);
          v = q' * 2 ^ e
      in if v \<ge> 2 ^ 1024 then None else Some (sgn n * int v))"

text \<open>For a name that occurs twice in an object, the map keeps the later value.\<close>

fun unmarshal_interface :: "json \<Rightarrow> go_value option"
  and unmarshal_slice :: "json list \<Rightarrow> go_value list option"
  and unmarshal_map :: "(string \<times> json) list \<Rightarrow> (string \<times> go_value) list option"
where
  "unmarshal_interface JNull = Some GoNil"
| "unmarshal_interface (JBool b) = Some (GoBool b)"
| "unmarshal_interface (JNumber n) = map_option GoFloat64 (float64_of_int n)"
| "unmarshal_interface (JString s) = Some (GoString s)"
| "unmarshal_interface (JTime t) = Some (GoTimeText t)"
| "unmarshal_interface (JArray js) = map_option GoSlice (unmarshal_slice js)"
| "unmarshal_interface (JObject kvs) = map_option GoMap (unmarshal_map kvs)"
| "unmarshal_slice [] = Some []"
| "unmarshal_slice (j # js) =
     (case unmarshal_interface j of
        None \<Rightarrow> None
      | Some v \<Rightarrow> (case unmarshal_slice js of None \<Rightarrow> None | Some vs \<Rightarrow> Some (v # vs)))"
| "unmarshal_map [] = Some []"
| "unmarshal_map (kv # kvs) =
     (case unmarshal_interface (snd kv) of
        None \<Rightarrow> None
      | Some v \<Rightarrow>
          (case unmarshal_map kvs of
             None \<Rightarrow> None
           | Some m \<Rightarrow> Some (if fst kv \<in> fst ` set m then m else (fst kv, v) # m)))"

section \<open>Package revocation: the registry\<close>

text \<open>\<open>type Status string\<close>, with its two constants.\<close>

type_synonym Status = string

definition StatusActive :: Status where
  "StatusActive = ''active''"

definition StatusRevoked :: Status where
  "StatusRevoked = ''revoked''"

record Entry =
  CredentialID :: string
  IssuerDID :: string
  SubjectDID :: string
  Status :: Status
  IssuedAt :: Time
  RevokedAt :: Time
  Reason :: string

text \<open>
  \<open>ErrCredentialNotFound\<close> and \<open>ErrAlreadyRevoked\<close> are the package's own errors;
  the others are what \<open>os.ReadFile\<close>, \<open>json.Unmarshal\<close>, \<open>json.MarshalIndent\<close>
  and \<open>os.WriteFile\<close> return when they fail.
\<close>

datatype registry_error =
    ErrCredentialNotFound
  | ErrAlreadyRevoked
  | ErrReadFile
  | ErrUnmarshal
  | ErrMarshal
  | ErrWriteFile

text \<open>
  A call returns, or it panics: a nil pointer is dereferenced, or a nil map is assigned
  to.
\<close>

datatype 'a outcome =
    Returns 'a
  | Panics

text \<open>
  The registry's map holds pointers, \<open>map[string]*Entry\<close>, and \<open>CheckStatus\<close>,
  \<open>ListByIssuer\<close> and \<open>ListBySubject\<close> hand these pointers to the caller. So the
  entries live in a heap, a pointer is \<open>nil\<close> or an address of the heap, and the state
  of the program is the heap together with the registry's two fields:
  \<^item> \<open>heap\<close>: the \<open>Entry\<close> at every address, and \<open>next_addr\<close>, the first address
    that \<open>&Entry{...}\<close> has not handed out yet;
  \<^item> \<open>entries\<close>: the map, which is \<open>nil\<close> or an association list with one pair a
    key (a Go map has no order: the order of the list is one of the orders a \<open>range\<close>
    over it may take);
  \<^item> \<open>path\<close>: the backing file, empty for a registry in memory.
  The mutex is left out: the model runs one call at a time.
\<close>

type_synonym addr = nat

datatype ptr =
    NilPtr
  | Ptr addr

datatype entry_map =
    NilMap
  | Map "(string \<times> ptr) list"

record State =
  heap :: "addr \<Rightarrow> Entry"
  next_addr :: addr
  entries :: entry_map
  path :: string

text \<open>Reading a map, \<open>m[k]\<close> with its second result: a nil map has no key.\<close>

fun lookup :: "entry_map \<Rightarrow> string \<Rightarrow> ptr option" where
  "lookup NilMap k = None"
| "lookup (Map kvs) k = map_of kvs k"

text \<open>The pairs that a \<open>range\<close> over the map visits.\<close>

fun pairs :: "entry_map \<Rightarrow> (string \<times> ptr) list" where
  "pairs NilMap = []"
| "pairs (Map kvs) = AList.clearjunk kvs"

definition zero_Entry :: Entry where
  "zero_Entry = \<lparr> CredentialID = [], IssuerDID = [], SubjectDID = [], Status = [],
                   IssuedAt = 0, RevokedAt = 0, Reason = [] \<rparr>"

definition NewRegistry :: State where
  "NewRegistry = \<lparr> heap = (\<lambda>a. zero_Entry), next_addr = 0, entries = Map [], path = [] \<rparr>"

text \<open>
  What \<open>NewRegistryWithFile\<close> finds at the path: no file (\<open>os.Stat\<close> fails), a file
  it cannot read, content that \<open>json.Unmarshal\<close> refuses for the map, the JSON value
  \<open>null\<close>, or a JSON object (an empty file counts as the object without members). The
  value \<open>null\<close> makes the map \<open>nil\<close>. For an object, decoding allocates one
  \<open>Entry\<close> for each member that holds an object, \<open>Some e\<close> for the entry \<open>e\<close> it
  decodes to, and stores a nil pointer for a member that holds \<open>null\<close>, \<open>None\<close>;
  of two members with the same key the later one stays. (\<open>assign\<close> is the decoder's
  assignment to a key of the map.)
\<close>

datatype file_read =
    NoFile
  | Unreadable
  | Invalid
  | LoadedNull
  | Loaded "(string \<times> Entry option) list"

fun assign :: "string \<Rightarrow> ptr \<Rightarrow> entry_map \<Rightarrow> entry_map" where
  "assign k p NilMap = Map [(k, p)]"
| "assign k p (Map kvs) = Map (AList.update k p kvs)"

fun load_entries :: "(string \<times> Entry option) list \<Rightarrow> State \<Rightarrow> State" where
  "load_entries [] s = s"
| "load_entries ((k, None) # kvs) s =
     load_entries kvs (s\<lparr> entries := assign k NilPtr (entries s) \<rparr>)"
| "load_entries ((k, Some e) # kvs) s =
     load_entries kvs
       (s\<lparr> heap := (heap s)(next_addr s := e),
           next_addr := next_addr s + 1,
           entries := assign k (Ptr (next_addr s)) (entries s) \<rparr>)"

definition NewRegistryWithFile :: "string \<Rightarrow> file_read \<Rightarrow> registry_error + State" where
  "NewRegistryWithFile p f =
     (let r = NewRegistry\<lparr> path := p \<rparr>
      in case f of
           NoFile \<Rightarrow> Inr r
         | Unreadable \<Rightarrow> Inl ErrReadFile
         | Invalid \<Rightarrow> Inl ErrUnmarshal
         | LoadedNull \<Rightarrow> Inr (r\<lparr> entries := NilMap \<rparr>)
         | Loaded kvs \<Rightarrow> Inr (load_entries kvs r))"

text \<open>
  \<open>json.MarshalIndent\<close> of the map, as the JSON value that the bytes denote: \<open>null\<close>
  for a nil map and for a nil pointer, otherwise an object with the keys in ascending
  order of their bytes and, under each, the object of the entry's fields. The error of
  \<open>Time.MarshalJSON\<close>, for a time outside the years 0 to 9999, is the one error there
  is. \<open>omitempty\<close> has no effect on \<open>RevokedAt\<close>, a struct.
\<close>

definition marshal_Entry :: "Entry \<Rightarrow> json option" where
  "marshal_Entry e =
     (case marshal_Time (IssuedAt e) of
        None \<Rightarrow> None
      | Some issuedAt \<Rightarrow>
          (case marshal_Time (RevokedAt e) of
             None \<Rightarrow> None
           | Some revokedAt \<Rightarrow>
               Some (JObject
                 (json_field ''credentialId'' (CredentialID e)
                  @ json_field ''issuerDid'' (IssuerDID e)
                  @ json_field ''subjectDid'' (SubjectDID e)
                  @ json_field ''status'' (Status e)
                  @ [(''issuedAt'', issuedAt)]
                  @ [(''revokedAt'', revokedAt)]
                  @ json_field_omitempty ''reason'' (Reason e)))))"

fun marshal_ptr :: "(addr \<Rightarrow> Entry) \<Rightarrow> ptr \<Rightarrow> json option" where
  "marshal_ptr h NilPtr = Some JNull"
| "marshal_ptr h (Ptr a) = marshal_Entry (h a)"

fun marshal_members :: "(addr \<Rightarrow> Entry) \<Rightarrow> (string \<times> ptr) list \<Rightarrow> (string \<times> json) list option"
where
  "marshal_members h [] = Some []"
| "marshal_members h ((k, p) # kvs) =
     (case marshal_ptr h p of
        None \<Rightarrow> None
      | Some j \<Rightarrow>
          (case marshal_members h kvs of
             None \<Rightarrow> None
           | Some js \<Rightarrow> Some ((coerce_utf8 k, j) # js)))"

definition MarshalIndent :: "State \<Rightarrow> registry_error + json" where
  "MarshalIndent s =
     (case entries s of
        NilMap \<Rightarrow> Inr JNull
      | Map kvs \<Rightarrow>
          (case marshal_members (heap s) (sort_key fst (AList.clearjunk kvs)) of
             None \<Rightarrow> Inl ErrMarshal
           | Some ms \<Rightarrow> Inr (JObject ms)))"

text \<open>
  \<open>save\<close>: nothing to do without a path; otherwise the map is serialised, which may
  fail, and written to the file, and the error of \<open>os.WriteFile\<close> is the result. Whether
  the write succeeds is the environment's answer, the argument \<open>write_ok\<close>. The content
  of the file is not part of the state: no function reads it back once the registry is
  built.
\<close>

definition save :: "bool \<Rightarrow> State \<Rightarrow> registry_error option" where
  "save write_ok s =
     (if path s = [] then None
      else (case MarshalIndent s of
              Inl err \<Rightarrow> Some err
            | Inr data \<Rightarrow> if write_ok then None else Some ErrWriteFile))"

text \<open>
  The functions that change the registry take the time (\<open>time.Now()\<close>) and the answer
  of the file system. They give their result, the error returned (\<open>None\<close> for \<open>nil\<close>)
  or the panic, with the state after the call. A panic leaves the state as it was: the two
  that there are come before any assignment.

  \<open>Register\<close> assigns to the map, which panics when the map is \<open>nil\<close>.
\<close>

definition Register ::
  "Time \<Rightarrow> bool \<Rightarrow> string \<Rightarrow> string \<Rightarrow> string \<Rightarrow> State
   \<Rightarrow> registry_error option outcome \<times> State"
where
  "Register now write_ok credentialID issuerDID subjectDID s =
     (case entries s of
        NilMap \<Rightarrow> (Panics, s)
      | Map kvs \<Rightarrow>
          (let a = next_addr s;
               s' = s\<lparr> heap := (heap s)(a := \<lparr> CredentialID = credentialID,
                                               IssuerDID = issuerDID,
                                               SubjectDID = subjectDID,
                                               Status = StatusActive,
                                               IssuedAt = now,
                                               RevokedAt = 0,
                                               Reason = [] \<rparr>),
                      next_addr := a + 1,
                      entries := Map (AList.update credentialID (Ptr a) kvs) \<rparr>
           in (Returns (save write_ok s'), s')))"

text \<open>\<open>Revoke\<close> reads \<open>entry.Status\<close>, which panics when the map holds a nil pointer
  under the id.\<close>

definition Revoke ::
  "Time \<Rightarrow> bool \<Rightarrow> string \<Rightarrow> string \<Rightarrow> State \<Rightarrow> registry_error option outcome \<times> State"
where
  "Revoke now write_ok credentialID reason s =
     (case lookup (entries s) credentialID of
        None \<Rightarrow> (Returns (Some ErrCredentialNotFound), s)
      | Some NilPtr \<Rightarrow> (Panics, s)
      | Some (Ptr entry) \<Rightarrow>
          if Status (heap s entry) = StatusRevoked then (Returns (Some ErrAlreadyRevoked), s)
          else (let s' = s\<lparr> heap := (heap s)(entry := (heap s entry)
                                     \<lparr> Status := StatusRevoked,
                                       RevokedAt := now,
                                       Reason := reason \<rparr>) \<rparr>
                in (Returns (save write_ok s'), s')))"

text \<open>\<open>CheckStatus\<close> returns the pointer it finds in the map, be it \<open>nil\<close>.\<close>

definition CheckStatus :: "string \<Rightarrow> State \<Rightarrow> registry_error + ptr" where
  "CheckStatus credentialID s =
     (case lookup (entries s) credentialID of
        None \<Rightarrow> Inl ErrCredentialNotFound
      | Some entry \<Rightarrow> Inr entry)"

definition IsRevoked :: "string \<Rightarrow> State \<Rightarrow> (registry_error + bool) outcome" where
  "IsRevoked credentialID s =
     (case CheckStatus credentialID s of
        Inl err \<Rightarrow> Returns (Inl err)
      | Inr NilPtr \<Rightarrow> Panics
      | Inr (Ptr entry) \<Rightarrow> Returns (Inr (Status (heap s entry) = StatusRevoked)))"

text \<open>
  The two listings read a field of every entry of the map, so they panic when the map
  holds a nil pointer.
\<close>

definition ListByIssuer :: "string \<Rightarrow> State \<Rightarrow> ptr list outcome" where
  "ListByIssuer issuerDID s =
     (if NilPtr \<in> snd ` set (pairs (entries s)) then Panics
      else Returns (map snd (filter (\<lambda>(k, entry). case entry of
                                                       NilPtr \<Rightarrow> False
                                                     | Ptr a \<Rightarrow> IssuerDID (heap s a) = issuerDID)
                               (pairs (entries s)))))"

definition ListBySubject :: "string \<Rightarrow> State \<Rightarrow> ptr list outcome" where
  "ListBySubject subjectDID s =
     (if NilPtr \<in> snd ` set (pairs (entries s)) then Panics
      else Returns (map snd (filter (\<lambda>(k, entry). case entry of
                                                       NilPtr \<Rightarrow> False
                                                     | Ptr a \<Rightarrow> SubjectDID (heap s a) = subjectDID)
                               (pairs (entries s)))))"

text \<open>\<open>Export\<close> serialises the map with the entries the pointers lead to.\<close>

definition Export :: "State \<Rightarrow> registry_error + json" where
  "Export s = MarshalIndent s"

text \<open>
  A caller that holds a pointer to an entry can write through it: \<open>*p = e\<close>, of which
  an assignment to one field, \<open>p.Status = x\<close>, is the case
  \<open>e = (heap s a)\<lparr>Status := x\<rparr>\<close>.
\<close>

definition store :: "addr \<Rightarrow> Entry \<Rightarrow> State \<Rightarrow> State" where
  "store a e s = s\<lparr> heap := (heap s)(a := e) \<rparr>"

subsection \<open>Sequences of calls\<close>

datatype registry_op =
    OpRegister string string string
  | OpRevoke string string
  | OpCheckStatus string
  | OpIsRevoked string
  | OpListByIssuer string
  | OpListBySubject string

text \<open>
  One call, with the time and the file system's answer at that call. The four reading
  functions return a value and leave the state as it is.
\<close>

fun step :: "Time \<times> bool \<times> registry_op \<Rightarrow> State \<Rightarrow> State" where
  "step (now, write_ok, OpRegister credentialID issuerDID subjectDID) s =
     snd (Register now write_ok credentialID issuerDID subjectDID s)"
| "step (now, write_ok, OpRevoke credentialID reason) s =
     snd (Revoke now write_ok credentialID reason s)"
| "step (now, write_ok, OpCheckStatus credentialID) s = s"
| "step (now, write_ok, OpIsRevoked credentialID) s = s"
| "step (now, write_ok, OpListByIssuer issuerDID) s = s"
| "step (now, write_ok, OpListBySubject subjectDID) s = s"

fun run :: "(Time \<times> bool \<times> registry_op) list \<Rightarrow> State \<Rightarrow> State" where
  "run [] s = s"
| "run (c # cs) s = run cs (step c s)"

text \<open>Whether a call panics in a state.\<close>

fun panics :: "Time \<times> bool \<times> registry_op \<Rightarrow> State \<Rightarrow> bool" where
  "panics (now, write_ok, OpRegister credentialID issuerDID subjectDID) s =
     (fst (Register now write_ok credentialID issuerDID subjectDID s) = Panics)"
| "panics (now, write_ok, OpRevoke credentialID reason) s =
     (fst (Revoke now write_ok credentialID reason s) = Panics)"
| "panics (now, write_ok, OpCheckStatus credentialID) s = False"
| "panics (now, write_ok, OpIsRevoked credentialID) s = (IsRevoked credentialID s = Panics)"
| "panics (now, write_ok, OpListByIssuer issuerDID) s = (ListByIssuer issuerDID s = Panics)"
| "panics (now, write_ok, OpListBySubject subjectDID) s =
     (ListBySubject subjectDID s = Panics)"

text \<open>The entry stored under a credential id, if there is one.\<close>

definition entry_of :: "State \<Rightarrow> string \<Rightarrow> Entry option" where
  "entry_of s credentialID =
     (case lookup (entries s) credentialID of
        Some (Ptr a) \<Rightarrow> Some (heap s a)
      | _ \<Rightarrow> None)"

subsection \<open>Example states\<close>

text \<open>
  The scenario of the registry's tests: a credential is registered in a registry in
  memory, then revoked. A registry backed by a file in a directory that does not
  exist, where every write fails. And a registry built from a file that holds
  \<open>null\<close> for a credential id.
\<close>

definition example_id :: string where
  "example_id = ''urn:uuid:11111111-1111-1111-1111-111111111111''"

definition registered :: State where
  "registered =
     snd (Register 100 True example_id ''did:key:zIssuer'' ''did:key:zSubject'' NewRegistry)"

definition revoked :: State where
  "revoked = snd (Revoke 200 True example_id ''fraud detected'' registered)"

definition file_registry :: State where
  "file_registry = NewRegistry\<lparr> path := ''/no/such/dir/registry.json'' \<rparr>"

definition file_registered :: State where
  "file_registered =
     snd (Register 100 False example_id ''did:key:zIssuer'' ''did:key:zSubject'' file_registry)"

definition null_entry_registry :: State where
  "null_entry_registry =
     NewRegistry\<lparr> path := ''registry.json'', entries := Map [(example_id, NilPtr)] \<rparr>"

subsection \<open>What holds in every state reached from an empty registry\<close>

text \<open>
  The map is not \<open>nil\<close>, every pointer of the map was handed out by an allocation, the
  entry it leads to carries the key as its credential id, and no two keys share a pointer.
\<close>

definition registry_inv :: "State \<Rightarrow> bool" where
  "registry_inv s \<longleftrightarrow>
     entries s \<noteq> NilMap
   \<and> (\<forall>k p. lookup (entries s) k = Some p
        \<longrightarrow> (\<exists>a. p = Ptr a \<and> a < next_addr s \<and> CredentialID (heap s a) = k))
   \<and> (\<forall>k k' p. lookup (entries s) k = Some p \<and> lookup (entries s) k' = Some p \<longrightarrow> k = k')"

text \<open>Whether a call is a \<open>Register\<close> of the given credential id.\<close>

fun registers :: "string \<Rightarrow> registry_op \<Rightarrow> bool" where
  "registers cid (OpRegister credentialID issuerDID subjectDID) = (credentialID = cid)"
| "registers cid (OpRevoke credentialID reason) = False"
| "registers cid (OpCheckStatus credentialID) = False"
| "registers cid (OpIsRevoked credentialID) = False"
| "registers cid (OpListByIssuer issuerDID) = False"
| "registers cid (OpListBySubject subjectDID) = False"

text \<open>
  The two calls that lead to the state \<open>revoked\<close>, and a run of calls after them that
  holds every kind of call but a \<open>Register\<close> of the same id.
\<close>

definition example_calls :: "(Time \<times> bool \<times> registry_op) list" where
  "example_calls =
     [(100, True, OpRegister example_id ''did:key:zIssuer'' ''did:key:zSubject''),
      (200, True, OpRevoke example_id ''fraud detected'')]"

definition example_later_calls :: "(Time \<times> bool \<times> registry_op) list" where
  "example_later_calls =
     [(300, True, OpCheckStatus example_id),
      (310, True, OpIsRevoked example_id),
      (320, True, OpRevoke example_id ''again''),
      (330, True, OpRegister ''urn:uuid:2'' ''did:key:zIssuer'' ''did:key:zOther''),
      (340, True, OpRevoke ''urn:uuid:2'' ''issued in error''),
      (350, True, OpListByIssuer ''did:key:zIssuer''),
      (360, True, OpListBySubject ''did:key:zSubject'')]"

section \<open>The libraries under the token packages: crypto/ed25519 and go-paseto\<close>

subsection \<open>Ed25519 keys and signatures\<close>

text \<open>
  An \<open>ed25519.PrivateKey\<close> has 64 bytes: a seed of 32 bytes, followed by the public key
  that belongs to the seed. \<open>crypto/ed25519\<close> computes the public key of a seed with
  SHA-512 and a scalar multiplication on the curve. The model does not compute it: the
  functions that depend on it take the map from a seed to its public key as their first
  argument, \<open>public_of_seed\<close>, and what is proved of them holds for every such map.

  \<open>ed25519_Public\<close> is the method \<open>Public\<close> of a private key, which reads the last
  32 bytes.
\<close>

type_synonym key_derivation = "bytes \<Rightarrow> bytes"

definition ed25519_Public :: "bytes \<Rightarrow> bytes" where
  "ed25519_Public priv = drop 32 priv"

text \<open>
  The signature scheme itself is modelled as ideal: a signature is the record of the key
  that made it and of the message it was made for, and it verifies under a public key
  exactly when that key is the public half of the signing key and the message is the
  signed one. This is the assumption that Ed25519 signatures cannot be forged; it is not
  a property of the repository's code.
\<close>

datatype 'm signature = Signature bytes 'm

fun ed25519_Verify :: "bytes \<Rightarrow> 'm \<Rightarrow> 'm signature \<Rightarrow> bool" where
  "ed25519_Verify pub msg (Signature priv m) \<longleftrightarrow> pub = ed25519_Public priv \<and> msg = m"

text \<open>
  A key pair, as \<open>ed25519.GenerateKey\<close> and \<open>ed25519.NewKeyFromSeed\<close> make it: the
  private key is a seed followed by the public key of the seed, and the public key is
  that one.
\<close>

definition key_pair :: "key_derivation \<Rightarrow> bytes \<Rightarrow> bytes \<Rightarrow> bool" where
  "key_pair public_of_seed pub priv \<longleftrightarrow>
     length priv = 64 \<and> pub = drop 32 priv \<and> pub = public_of_seed (take 32 priv)"

subsection \<open>PASETO tokens (version 4, public)\<close>

datatype token_error =
    ErrNotEd25519Key
  | ErrKeyLength
  | ErrKeyInvalid
  | ErrBadSignature
  | ErrTokenExpired
  | ErrClaimMissing string
  | ErrClaimInvalid string
  | ErrNoCredentials
  | ErrRandom
  | ErrAudienceMismatch
  | ErrNonceMismatch
  | ErrPresentationExpired

text \<open>
  A \<open>paseto.Token\<close> is a map from claim names to JSON values. \<open>Set\<close> stores the JSON
  encoding of a value under a name; \<open>SetString\<close> and \<open>SetTime\<close> are \<open>Set\<close> for a
  string and for a time written as RFC 3339 text, which has whole seconds: writing a time
  into a token drops the fraction of the second.
\<close>

type_synonym Token = "(string \<times> json) list"

definition NewToken :: Token where
  "NewToken = []"

definition Set :: "string \<Rightarrow> json \<Rightarrow> Token \<Rightarrow> Token" where
  "Set name v t = AList.update name v t"

definition SetString :: "string \<Rightarrow> string \<Rightarrow> Token \<Rightarrow> Token" where
  "SetString name v t = Set name (marshal_string v) t"

definition SetTime :: "string \<Rightarrow> Time \<Rightarrow> Token \<Rightarrow> Token" where
  "SetTime name v t = Set name (JTime (v div Second * Second)) t"

definition SetIssuer :: "string \<Rightarrow> Token \<Rightarrow> Token" where
  "SetIssuer v t = SetString ''iss'' v t"

definition SetSubject :: "string \<Rightarrow> Token \<Rightarrow> Token" where
  "SetSubject v t = SetString ''sub'' v t"

definition SetAudience :: "string \<Rightarrow> Token \<Rightarrow> Token" where
  "SetAudience v t = SetString ''aud'' v t"

definition SetIssuedAt :: "Time \<Rightarrow> Token \<Rightarrow> Token" where
  "SetIssuedAt v t = SetTime ''iat'' v t"

definition SetExpiration :: "Time \<Rightarrow> Token \<Rightarrow> Token" where
  "SetExpiration v t = SetTime ''exp'' v t"

text \<open>
  \<open>Get\<close> fails for a claim that is absent. \<open>GetString\<close> decodes the claim into a
  string: \<open>null\<close> gives the empty string, a value of another kind is an error.
  \<open>GetTime\<close> is \<open>GetString\<close> followed by \<open>time.Parse\<close>, which fails for a
  string that is not RFC 3339 text, the empty string among them, and for the text that
  \<open>SetTime\<close> wrote for a time outside the years 0 to 9999. (The RFC 3339 text of a
  time claim is not modelled, so \<open>GetString\<close> has no text to return for one: the
  packages read time claims with \<open>GetTime\<close> only.)
\<close>

definition Get :: "string \<Rightarrow> Token \<Rightarrow> token_error + json" where
  "Get name t = (case map_of t name of None \<Rightarrow> Inl (ErrClaimMissing name) | Some j \<Rightarrow> Inr j)"

definition GetString :: "string \<Rightarrow> Token \<Rightarrow> token_error + string" where
  "GetString name t =
     (case Get name t of
        Inl err \<Rightarrow> Inl err
      | Inr JNull \<Rightarrow> Inr []
      | Inr (JString s) \<Rightarrow> Inr s
      | Inr _ \<Rightarrow> Inl (ErrClaimInvalid name))"

definition GetTime :: "string \<Rightarrow> Token \<Rightarrow> token_error + Time" where
  "GetTime name t =
     (case Get name t of
        Inl err \<Rightarrow> Inl err
      | Inr (JTime v) \<Rightarrow> if year_0_to_9999 v then Inr v else Inl (ErrClaimInvalid name)
      | Inr _ \<Rightarrow> Inl (ErrClaimInvalid name))"

definition GetIssuer :: "Token \<Rightarrow> token_error + string" where
  "GetIssuer t = GetString ''iss'' t"

definition GetSubject :: "Token \<Rightarrow> token_error + string" where
  "GetSubject t = GetString ''sub'' t"

definition GetAudience :: "Token \<Rightarrow> token_error + string" where
  "GetAudience t = GetString ''aud'' t"

definition GetIssuedAt :: "Token \<Rightarrow> token_error + Time" where
  "GetIssuedAt t = GetTime ''iat'' t"

definition GetExpiration :: "Token \<Rightarrow> token_error + Time" where
  "GetExpiration t = GetTime ''exp'' t"

text \<open>
  The constructor of a secret key checks the length of the key, and that its last 32 bytes
  are the public key of the seed in its first 32 bytes. The constructor of a public key
  checks the length and nothing else.
\<close>

definition NewV4AsymmetricSecretKeyFromBytes :: "key_derivation \<Rightarrow> bytes \<Rightarrow> token_error + bytes"
where
  "NewV4AsymmetricSecretKeyFromBytes public_of_seed privateKey =
     (if length privateKey \<noteq> 64 then Inl ErrKeyLength
      else if drop 32 privateKey \<noteq> public_of_seed (take 32 privateKey) then Inl ErrKeyInvalid
      else Inr privateKey)"

definition NewV4AsymmetricPublicKeyFromBytes :: "bytes \<Rightarrow> token_error + bytes" where
  "NewV4AsymmetricPublicKeyFromBytes publicKey =
     (if length publicKey \<noteq> 32 then Inl ErrKeyLength else Inr publicKey)"

text \<open>
  A signed token, the string \<open>v4.public.\<close> followed by the encoded payload and
  signature, is modelled by what it decodes to: the claims and the signature over them.
\<close>

record signed_token =
  payload :: Token
  sig :: "Token signature"

definition V4Sign :: "bytes \<Rightarrow> Token \<Rightarrow> signed_token" where
  "V4Sign secretKey t = \<lparr> payload = t, sig = Signature secretKey t \<rparr>"

text \<open>
  A parser holds rules that a token must pass after its signature was verified.
  \<open>paseto.NewParser()\<close> returns a parser with the rule \<open>NotExpired\<close> preloaded: the
  token must have an expiration claim, and the current time must not be after it.
  (\<open>paseto.NewParserWithoutExpiryCheck()\<close> is the parser without rules.)
\<close>

datatype rule = NotExpired

type_synonym Parser = "rule list"

definition NewParser :: Parser where
  "NewParser = [NotExpired]"

definition NewParserWithoutExpiryCheck :: Parser where
  "NewParserWithoutExpiryCheck = []"

fun check_rule :: "Time \<Rightarrow> Token \<Rightarrow> rule \<Rightarrow> token_error option" where
  "check_rule now t NotExpired =
     (case GetExpiration t of
        Inl err \<Rightarrow> Some err
      | Inr exp \<Rightarrow> if After now exp then Some ErrTokenExpired else None)"

fun check_rules :: "Time \<Rightarrow> Token \<Rightarrow> rule list \<Rightarrow> token_error option" where
  "check_rules now t [] = None"
| "check_rules now t (r # rs) =
     (case check_rule now t r of
        Some err \<Rightarrow> Some err
      | None \<Rightarrow> check_rules now t rs)"

definition ParseV4Public :: "Parser \<Rightarrow> bytes \<Rightarrow> signed_token \<Rightarrow> Time \<Rightarrow> token_error + Token" where
  "ParseV4Public parser publicKey tokenString now =
     (if \<not> ed25519_Verify publicKey (payload tokenString) (sig tokenString)
      then Inl ErrBadSignature
      else (case check_rules now (payload tokenString) parser of
              Some err \<Rightarrow> Inl err
            | None \<Rightarrow> Inr (payload tokenString)))"

section \<open>Package vc: credential subjects\<close>

definition CredentialTypeIdentity :: string where
  "CredentialTypeIdentity = ''IdentityCredential''"

definition CredentialTypeEducation :: string where
  "CredentialTypeEducation = ''EducationCredential''"

definition CredentialTypeEmployment :: string where
  "CredentialTypeEmployment = ''EmploymentCredential''"

definition CredentialTypeMembership :: string where
  "CredentialTypeMembership = ''MembershipCredential''"

record IdentitySubject =
  id_ID :: string
  id_GivenName :: string
  id_FamilyName :: string
  id_DateOfBirth :: string
  id_Nationality :: string
  id_DocumentType :: string
  id_DocumentID :: string
  id_PlaceOfBirth :: string
  id_Gender :: string
  id_Address :: string
  id_VerifiedAt :: string
  id_VerifiedLevel :: string

record EducationSubject =
  edu_ID :: string
  edu_InstitutionName :: string
  edu_InstitutionDID :: string
  edu_Degree :: string
  edu_FieldOfStudy :: string
  edu_GraduationDate :: string
  edu_CertificateName :: string
  edu_CourseName :: string
  edu_CompletionDate :: string
  edu_Grade :: string
  edu_CreditsEarned :: "64 word"

record EmploymentSubject =
  emp_ID :: string
  emp_EmployerName :: string
  emp_EmployerDID :: string
  emp_JobTitle :: string
  emp_Department :: string
  emp_StartDate :: string
  emp_EndDate :: string
  emp_EmploymentType :: string
  emp_WorkLocation :: string
  emp_CurrentEmployee :: bool

record MembershipSubject =
  mem_ID :: string
  mem_OrganizationName :: string
  mem_OrganizationDID :: string
  mem_MembershipID :: string
  mem_MembershipType :: string
  mem_Role :: string
  mem_Roles :: "string list"
  mem_AccessLevel :: string
  mem_StartDate :: string
  mem_ExpirationDate :: string
  mem_ActiveMember :: bool

text \<open>
  The interface \<open>CredentialSubject\<close> with its four implementations, and the two methods
  of the interface.
\<close>

datatype CredentialSubject =
    Identity IdentitySubject
  | Education EducationSubject
  | Employment EmploymentSubject
  | Membership MembershipSubject

fun GetID :: "CredentialSubject \<Rightarrow> string" where
  "GetID (Identity s) = id_ID s"
| "GetID (Education s) = edu_ID s"
| "GetID (Employment s) = emp_ID s"
| "GetID (Membership s) = mem_ID s"

fun CredentialType :: "CredentialSubject \<Rightarrow> string" where
  "CredentialType (Identity s) = CredentialTypeIdentity"
| "CredentialType (Education s) = CredentialTypeEducation"
| "CredentialType (Employment s) = CredentialTypeEmployment"
| "CredentialType (Membership s) = CredentialTypeMembership"

text \<open>
  \<open>json.Marshal\<close> of a subject, by the JSON tags of its struct. \<open>CreditsEarned\<close>
  is an \<open>int\<close> of 64 bits, written as the signed number it holds.
\<close>

fun marshal_subject :: "CredentialSubject \<Rightarrow> json" where
  "marshal_subject (Identity s) = JObject
     (json_field ''id'' (id_ID s)
      @ json_field ''givenName'' (id_GivenName s)
      @ json_field ''familyName'' (id_FamilyName s)
      @ json_field ''dateOfBirth'' (id_DateOfBirth s)
      @ json_field_omitempty ''nationality'' (id_Nationality s)
      @ json_field_omitempty ''documentType'' (id_DocumentType s)
      @ json_field_omitempty ''documentId'' (id_DocumentID s)
      @ json_field_omitempty ''placeOfBirth'' (id_PlaceOfBirth s)
      @ json_field_omitempty ''gender'' (id_Gender s)
      @ json_field_omitempty ''address'' (id_Address s)
      @ json_field_omitempty ''verifiedAt'' (id_VerifiedAt s)
      @ json_field_omitempty ''verifiedLevel'' (id_VerifiedLevel s))"
| "marshal_subject (Education s) = JObject
     (json_field ''id'' (edu_ID s)
      @ json_field ''institutionName'' (edu_InstitutionName s)
      @ json_field_omitempty ''institutionDid'' (edu_InstitutionDID s)
      @ json_field_omitempty ''degree'' (edu_Degree s)
      @ json_field_omitempty ''fieldOfStudy'' (edu_FieldOfStudy s)
      @ json_field_omitempty ''graduationDate'' (edu_GraduationDate s)
      @ json_field_omitempty ''certificateName'' (edu_CertificateName s)
      @ json_field_omitempty ''courseName'' (edu_CourseName s)
      @ json_field_omitempty ''completionDate'' (edu_CompletionDate s)
      @ json_field_omitempty ''grade'' (edu_Grade s)
      @ (if edu_CreditsEarned s = 0 then []
         else [(''creditsEarned'', JNumber (sint (edu_CreditsEarned s)))]))"
| "marshal_subject (Employment s) = JObject
     (json_field ''id'' (emp_ID s)
      @ json_field ''employerName'' (emp_EmployerName s)
      @ json_field_omitempty ''employerDid'' (emp_EmployerDID s)
      @ json_field ''jobTitle'' (emp_JobTitle s)
      @ json_field_omitempty ''department'' (emp_Department s)
      @ json_field ''startDate'' (emp_StartDate s)
      @ json_field_omitempty ''endDate'' (emp_EndDate s)
      @ json_field_omitempty ''employmentType'' (emp_EmploymentType s)
      @ json_field_omitempty ''workLocation'' (emp_WorkLocation s)
      @ [(''currentEmployee'', JBool (emp_CurrentEmployee s))])"
| "marshal_subject (Membership s) = JObject
     (json_field ''id'' (mem_ID s)
      @ json_field ''organizationName'' (mem_OrganizationName s)
      @ json_field_omitempty ''organizationDid'' (mem_OrganizationDID s)
      @ json_field_omitempty ''membershipId'' (mem_MembershipID s)
      @ json_field_omitempty ''membershipType'' (mem_MembershipType s)
      @ json_field_omitempty ''role'' (mem_Role s)
      @ (if mem_Roles s = [] then [] else [(''roles'', marshal_strings (mem_Roles s))])
      @ json_field_omitempty ''accessLevel'' (mem_AccessLevel s)
      @ json_field ''startDate'' (mem_StartDate s)
      @ json_field_omitempty ''expirationDate'' (mem_ExpirationDate s)
      @ [(''activeMember'', JBool (mem_ActiveMember s))])"

section \<open>Package vc: issuing and verifying a credential\<close>

record CredentialStatus =
  cs_ID :: string
  cs_Type :: string

text \<open>
  The field \<open>CredentialSubject\<close> has the type \<open>interface{}\<close>. The type of what it
  holds is the parameter \<open>'s\<close> of the record: a subject struct, \<open>CredentialSubject\<close>,
  where a credential is issued, and the value that \<open>json.Unmarshal\<close> makes for an
  empty interface, \<open>go_value\<close>, where a token was read.
\<close>

record 's VerifiableCredential =
  vc_ID :: string
  vc_Type :: "string list"
  vc_CredentialSubject :: 's
  vc_CredentialStatus :: "CredentialStatus option"

record 's VCClaims =
  vc_Issuer :: string
  vc_Subject :: string
  vc_JTI :: string
  vc_IssuedAt :: Time
  vc_ExpiresAt :: Time
  vc_VC :: "'s VerifiableCredential"

text \<open>
  \<open>json.Marshal\<close> of the \<open>VerifiableCredential\<close> that \<open>IssueVCWithID\<close> builds,
  and \<open>json.Unmarshal\<close> into a \<open>VerifiableCredential\<close>: \<open>null\<close> leaves the zero
  value, an object fills the fields, and a value of another kind, or a member of the wrong
  kind, is an error.
\<close>

definition marshal_status :: "CredentialStatus \<Rightarrow> json" where
  "marshal_status st = JObject (json_field ''id'' (cs_ID st) @ json_field ''type'' (cs_Type st))"

definition marshal_vc :: "CredentialSubject VerifiableCredential \<Rightarrow> json" where
  "marshal_vc vc = JObject
     (json_field_omitempty ''id'' (vc_ID vc)
      @ [(''type'', marshal_strings (vc_Type vc))]
      @ [(''credentialSubject'', marshal_subject (vc_CredentialSubject vc))]
      @ (case vc_CredentialStatus vc of
           None \<Rightarrow> []
         | Some st \<Rightarrow> [(''credentialStatus'', marshal_status st)]))"

fun unmarshal_status :: "json \<Rightarrow> CredentialStatus option option" where
  "unmarshal_status JNull = Some None"
| "unmarshal_status (JObject kvs) =
     (case (unmarshal_string (json_member kvs ''id''),
            unmarshal_string (json_member kvs ''type'')) of
        (Some i, Some t) \<Rightarrow> Some (Some \<lparr> cs_ID = i, cs_Type = t \<rparr>)
      | _ \<Rightarrow> None)"
| "unmarshal_status _ = None"

fun unmarshal_vc :: "json \<Rightarrow> go_value VerifiableCredential option" where
  "unmarshal_vc JNull =
     Some \<lparr> vc_ID = [], vc_Type = [], vc_CredentialSubject = GoNil,
            vc_CredentialStatus = None \<rparr>"
| "unmarshal_vc (JObject kvs) =
     (case (unmarshal_string (json_member kvs ''id''),
            unmarshal_strings (json_member kvs ''type''),
            unmarshal_interface (json_member kvs ''credentialSubject''),
            unmarshal_status (json_member kvs ''credentialStatus'')) of
        (Some i, Some ts, Some sv, Some st) \<Rightarrow>
          Some \<lparr> vc_ID = i, vc_Type = ts, vc_CredentialSubject = sv,
                 vc_CredentialStatus = st \<rparr>
      | _ \<Rightarrow> None)"
| "unmarshal_vc _ = None"

text \<open>
  What \<open>privateKey interface{}\<close> may hold: an \<open>ed25519.PrivateKey\<close>, or a value of
  another type.
\<close>

datatype any_key =
    Ed25519PrivateKey bytes
  | OtherValue

text \<open>
  \<open>IssueVCWithID\<close> takes the time, \<open>time.Now()\<close>. Its last two error returns, for
  \<open>json.Marshal\<close> of the credential and for \<open>token.Set\<close> of the result, have no
  case in which they are taken (the credential holds strings, numbers and booleans only),
  so they are not branches of the model.
\<close>

definition IssueVCWithID ::
  "key_derivation \<Rightarrow> string \<Rightarrow> string \<Rightarrow> any_key \<Rightarrow> CredentialSubject \<Rightarrow> string \<Rightarrow> Time
   \<Rightarrow> token_error + signed_token"
where
  "IssueVCWithID public_of_seed issuerDID subjectDID privateKey subject credentialID now =
     (case privateKey of
        OtherValue \<Rightarrow> Inl ErrNotEd25519Key
      | Ed25519PrivateKey edKey \<Rightarrow>
          (case NewV4AsymmetricSecretKeyFromBytes public_of_seed edKey of
             Inl err \<Rightarrow> Inl err
           | Inr secretKey \<Rightarrow>
               (let vc0 = \<lparr> vc_ID = [],
                            vc_Type = [''VerifiableCredential'', CredentialType subject],
                            vc_CredentialSubject = subject,
                            vc_CredentialStatus = None \<rparr>;
                    vc = (if credentialID \<noteq> []
                          then vc0\<lparr> vc_ID := credentialID,
                                    vc_CredentialStatus :=
                                      Some \<lparr> cs_ID = credentialID,
                                             cs_Type = ''RevocationRegistry2024'' \<rparr> \<rparr>
                          else vc0);
                    vcClaims = \<lparr> vc_Issuer = issuerDID,
                                 vc_Subject = subjectDID,
                                 vc_JTI = credentialID,
                                 vc_IssuedAt = now,
                                 vc_ExpiresAt = now + 365 * 24 * Hour,
                                 vc_VC = vc \<rparr>;
                    t1 = SetIssuer (vc_Issuer vcClaims) NewToken;
                    t2 = SetSubject (vc_Subject vcClaims) t1;
                    t3 = SetIssuedAt (vc_IssuedAt vcClaims) t2;
                    t4 = SetExpiration (vc_ExpiresAt vcClaims) t3;
                    t5 = (if credentialID \<noteq> [] then SetString ''jti'' credentialID t4
                          else t4);
                    vcJSON = marshal_vc (vc_VC vcClaims);
                    t6 = Set ''vc'' vcJSON t5
                in Inr (V4Sign secretKey t6))))"

definition IssueVC ::
  "key_derivation \<Rightarrow> string \<Rightarrow> string \<Rightarrow> any_key \<Rightarrow> CredentialSubject \<Rightarrow> Time
   \<Rightarrow> token_error + signed_token"
where
  "IssueVC public_of_seed issuerDID subjectDID privateKey subject now =
     IssueVCWithID public_of_seed issuerDID subjectDID privateKey subject [] now"

text \<open>
  \<open>VerifyVC\<close> takes the time at which it runs: the parser it makes with
  \<open>paseto.NewParser()\<close> compares it with the expiration claim. The function has no
  comparison of its own.
\<close>

definition VerifyVC :: "signed_token \<Rightarrow> bytes \<Rightarrow> Time \<Rightarrow> token_error + go_value VCClaims"
where
  "VerifyVC tokenString publicKey now =
     (case NewV4AsymmetricPublicKeyFromBytes publicKey of
        Inl err \<Rightarrow> Inl err
      | Inr pasetoPublicKey \<Rightarrow>
     (case ParseV4Public NewParser pasetoPublicKey tokenString now of
        Inl err \<Rightarrow> Inl err
      | Inr t \<Rightarrow>
     (case GetIssuer t of
        Inl err \<Rightarrow> Inl err
      | Inr issuer \<Rightarrow>
     (case GetSubject t of
        Inl err \<Rightarrow> Inl err
      | Inr subject \<Rightarrow>
     (case GetIssuedAt t of
        Inl err \<Rightarrow> Inl err
      | Inr issuedAt \<Rightarrow>
     (case GetExpiration t of
        Inl err \<Rightarrow> Inl err
      | Inr expiresAt \<Rightarrow>
     (let jti = (case GetString ''jti'' t of Inl err \<Rightarrow> [] | Inr s \<Rightarrow> s)
      in case Get ''vc'' t of
           Inl err \<Rightarrow> Inl err
         | Inr raw \<Rightarrow>
             (case unmarshal_vc raw of
                None \<Rightarrow> Inl (ErrClaimInvalid ''vc'')
              | Some vc \<Rightarrow>
                  Inr \<lparr> vc_Issuer = issuer,
                        vc_Subject = subject,
                        vc_JTI = jti,
                        vc_IssuedAt = issuedAt,
                        vc_ExpiresAt = expiresAt,
                        vc_VC = vc \<rparr>))))))))"

definition GetCredentialID :: "'s VCClaims \<Rightarrow> string" where
  "GetCredentialID c =
     (if vc_JTI c \<noteq> [] then vc_JTI c
      else if vc_ID (vc_VC c) \<noteq> [] then vc_ID (vc_VC c)
      else [])"

section \<open>Package presentation\<close>

record VerifiablePresentation =
  vp_Context :: "string list"
  vp_Type :: "string list"
  vp_ID :: string
  vp_Holder :: string
  vp_VerifiableCredential :: "string list"

record VPClaims =
  vp_Issuer :: string
  vp_Subject :: string
  vp_Audience :: string
  vp_Nonce :: string
  vp_IssuedAt :: Time
  vp_ExpiresAt :: Time
  vp_VP :: VerifiablePresentation

definition marshal_vp :: "VerifiablePresentation \<Rightarrow> json" where
  "marshal_vp vp = JObject
     ([(''@context'', marshal_strings (vp_Context vp))]
      @ [(''type'', marshal_strings (vp_Type vp))]
      @ json_field_omitempty ''id'' (vp_ID vp)
      @ json_field ''holder'' (vp_Holder vp)
      @ [(''verifiableCredential'', marshal_strings (vp_VerifiableCredential vp))])"

fun unmarshal_vp :: "json \<Rightarrow> VerifiablePresentation option" where
  "unmarshal_vp JNull =
     Some \<lparr> vp_Context = [], vp_Type = [], vp_ID = [], vp_Holder = [],
            vp_VerifiableCredential = [] \<rparr>"
| "unmarshal_vp (JObject kvs) =
     (case (unmarshal_strings (json_member kvs ''@context''),
            unmarshal_strings (json_member kvs ''type''),
            unmarshal_string (json_member kvs ''id''),
            unmarshal_string (json_member kvs ''holder''),
            unmarshal_strings (json_member kvs ''verifiableCredential'')) of
        (Some c, Some t, Some i, Some h, Some vcs) \<Rightarrow>
          Some \<lparr> vp_Context = c, vp_Type = t, vp_ID = i, vp_Holder = h,
                 vp_VerifiableCredential = vcs \<rparr>
      | _ \<Rightarrow> None)"
| "unmarshal_vp _ = None"

text \<open>\<open>hex.EncodeToString\<close>.\<close>

definition hex_digit :: "nat \<Rightarrow> char" where
  "hex_digit n = ''0123456789abcdef'' ! n"

definition hex_EncodeToString :: "bytes \<Rightarrow> string" where
  "hex_EncodeToString bs =
     concat (map (\<lambda>b. [hex_digit (unat b div 16), hex_digit (unat b mod 16)]) bs)"

text \<open>
  \<open>CreatePresentation\<close> takes what \<open>rand.Read\<close> delivers, the 16 random bytes or
  \<open>None\<close> for its error, and the time. As in \<open>IssueVCWithID\<close>, the error returns
  for \<open>json.Marshal\<close> and \<open>token.Set\<close> are never taken.
\<close>

definition CreatePresentation ::
  "key_derivation \<Rightarrow> string \<Rightarrow> bytes \<Rightarrow> string list \<Rightarrow> string \<Rightarrow> string \<Rightarrow> bytes option
   \<Rightarrow> Time \<Rightarrow> token_error + signed_token"
where
  "CreatePresentation public_of_seed holderDID holderPrivateKey credentials audience nonce
     rand now =
     (if length credentials = 0 then Inl ErrNoCredentials
      else (case NewV4AsymmetricSecretKeyFromBytes public_of_seed holderPrivateKey of
              Inl err \<Rightarrow> Inl err
            | Inr secretKey \<Rightarrow>
      (case rand of
         None \<Rightarrow> Inl ErrRandom
       | Some idBytes \<Rightarrow>
           (let presentationID = ''urn:uuid:'' @ hex_EncodeToString (take 4 idBytes) @ ''-''
                  @ hex_EncodeToString (take 2 (drop 4 idBytes)) @ ''-''
                  @ hex_EncodeToString (take 2 (drop 6 idBytes)) @ ''-''
                  @ hex_EncodeToString (take 2 (drop 8 idBytes)) @ ''-''
                  @ hex_EncodeToString (drop 10 idBytes);
                vp = \<lparr> vp_Context = [''https://www.w3.org/2018/credentials/v1''],
                       vp_Type = [''VerifiablePresentation''],
                       vp_ID = presentationID,
                       vp_Holder = holderDID,
                       vp_VerifiableCredential = credentials \<rparr>;
                vpClaims = \<lparr> vp_Issuer = holderDID,
                             vp_Subject = holderDID,
                             vp_Audience = audience,
                             vp_Nonce = nonce,
                             vp_IssuedAt = now,
                             vp_ExpiresAt = now + 15 * Minute,
                             vp_VP = vp \<rparr>;
                t1 = SetIssuer (vp_Issuer vpClaims) NewToken;
                t2 = SetSubject (vp_Subject vpClaims) t1;
                t3 = SetAudience (vp_Audience vpClaims) t2;
                t4 = SetIssuedAt (vp_IssuedAt vpClaims) t3;
                t5 = SetExpiration (vp_ExpiresAt vpClaims) t4;
                t6 = SetString ''nonce'' (vp_Nonce vpClaims) t5;
                vpJSON = marshal_vp (vp_VP vpClaims);
                t7 = Set ''vp'' vpJSON t6
            in Inr (V4Sign secretKey t7)))))"

text \<open>
  \<open>VerifyPresentation\<close> reads the clock twice: inside the parser (\<open>now\<close>), and
  later in its own check of the expiration (\<open>now'\<close>).
\<close>

definition VerifyPresentation ::
  "signed_token \<Rightarrow> bytes \<Rightarrow> string \<Rightarrow> string \<Rightarrow> Time \<Rightarrow> Time \<Rightarrow> token_error + VPClaims"
where
  "VerifyPresentation tokenString holderPublicKey expectedAudience expectedNonce now now' =
     (case NewV4AsymmetricPublicKeyFromBytes holderPublicKey of
        Inl err \<Rightarrow> Inl err
      | Inr pasetoPublicKey \<Rightarrow>
     (case ParseV4Public NewParser pasetoPublicKey tokenString now of
        Inl err \<Rightarrow> Inl err
      | Inr t \<Rightarrow>
     (case GetIssuer t of
        Inl err \<Rightarrow> Inl err
      | Inr issuer \<Rightarrow>
     (case GetSubject t of
        Inl err \<Rightarrow> Inl err
      | Inr subject \<Rightarrow>
     (case GetAudience t of
        Inl err \<Rightarrow> Inl err
      | Inr audience \<Rightarrow>
     (case GetIssuedAt t of
        Inl err \<Rightarrow> Inl err
      | Inr issuedAt \<Rightarrow>
     (case GetExpiration t of
        Inl err \<Rightarrow> Inl err
      | Inr expiresAt \<Rightarrow>
     (case GetString ''nonce'' t of
        Inl err \<Rightarrow> Inl err
      | Inr nonce \<Rightarrow>
          if expectedAudience \<noteq> [] \<and> audience \<noteq> expectedAudience
          then Inl ErrAudienceMismatch
          else if expectedNonce \<noteq> [] \<and> nonce \<noteq> expectedNonce
          then Inl ErrNonceMismatch
          else if After now' expiresAt
          then Inl ErrPresentationExpired
          else (case Get ''vp'' t of
                  Inl err \<Rightarrow> Inl err
                | Inr raw \<Rightarrow>
                    (case unmarshal_vp raw of
                       None \<Rightarrow> Inl (ErrClaimInvalid ''vp'')
                     | Some vp \<Rightarrow>
                         Inr \<lparr> vp_Issuer = issuer,
                               vp_Subject = subject,
                               vp_Audience = audience,
                               vp_Nonce = nonce,
                               vp_IssuedAt = issuedAt,
                               vp_ExpiresAt = expiresAt,
                               vp_VP = vp \<rparr>))))))))))"

section \<open>Example credentials and presentations\<close>

text \<open>
  Two key pairs of Ed25519, the first two test vectors of RFC 8032 (section 7.1): the seed
  and the public key that belongs to it. \<open>rfc8032_public_of_seed\<close> is the key
  derivation at these two seeds, which is all of it that the examples use.
\<close>

definition rfc8032_seed_1 :: bytes where
  "rfc8032_seed_1 = [
      0x9d, 0x61, 0xb1, 0x9d, 0xef, 0xfd, 0x5a, 0x60,
      0xba, 0x84, 0x4a, 0xf4, 0x92, 0xec, 0x2c, 0xc4,
      0x44, 0x49, 0xc5, 0x69, 0x7b, 0x32, 0x69, 0x19,
      0x70, 0x3b, 0xac, 0x03, 0x1c, 0xae, 0x7f, 0x60]"

definition rfc8032_public_1 :: bytes where
  "rfc8032_public_1 = [
      0xd7, 0x5a, 0x98, 0x01, 0x82, 0xb1, 0x0a, 0xb7,
      0xd5, 0x4b, 0xfe, 0xd3, 0xc9, 0x64, 0x07, 0x3a,
      0x0e, 0xe1, 0x72, 0xf3, 0xda, 0xa6, 0x23, 0x25,
      0xaf, 0x02, 0x1a, 0x68, 0xf7, 0x07, 0x51, 0x1a]"

definition rfc8032_seed_2 :: bytes where
  "rfc8032_seed_2 = [
      0x4c, 0xcd, 0x08, 0x9b, 0x28, 0xff, 0x96, 0xda,
      0x9d, 0xb6, 0xc3, 0x46, 0xec, 0x11, 0x4e, 0x0f,
      0x5b, 0x8a, 0x31, 0x9f, 0x35, 0xab, 0xa6, 0x24,
      0xda, 0x8c, 0xf6, 0xed, 0x4f, 0xb8, 0xa6, 0xfb]"

definition rfc8032_public_2 :: bytes where
  "rfc8032_public_2 = [
      0x3d, 0x40, 0x17, 0xc3, 0xe8, 0x43, 0x89, 0x5a,
      0x92, 0xb7, 0x0a, 0xa7, 0x4d, 0x1b, 0x7e, 0xbc,
      0x9c, 0x98, 0x2c, 0xcf, 0x2e, 0xc4, 0x96, 0x8c,
      0xc0, 0xcd, 0x55, 0xf1, 0x2a, 0xf4, 0x66, 0x0c]"

definition rfc8032_public_of_seed :: key_derivation where
  "rfc8032_public_of_seed seed =
     (if seed = rfc8032_seed_1 then rfc8032_public_1
      else if seed = rfc8032_seed_2 then rfc8032_public_2
      else [])"

text \<open>
  The private key of the first pair, with its public key, and the public key of the
  second pair. A subject as in the tests of the package, and the credential issued for it
  at \<open>example_now\<close>, in the year 2025, for the issuer \<open>example_did\<close> and with the
  credential id \<open>example_id\<close>.
\<close>

definition example_private_key :: bytes where
  "example_private_key = rfc8032_seed_1 @ rfc8032_public_1"

definition example_public_key :: bytes where
  "example_public_key = rfc8032_public_1"

definition other_public_key :: bytes where
  "other_public_key = rfc8032_public_2"

definition example_subject :: CredentialSubject where
  "example_subject = Identity
     \<lparr> id_ID = ''did:key:zSubject'', id_GivenName = ''Alice'', id_FamilyName = ''Doe'',
       id_DateOfBirth = ''1990-01-01'', id_Nationality = [], id_DocumentType = [],
       id_DocumentID = [], id_PlaceOfBirth = [], id_Gender = [], id_Address = [],
       id_VerifiedAt = [], id_VerifiedLevel = [] \<rparr>"

definition example_now :: Time where
  "example_now = 63900000000 * Second + 250000000"

definition example_token :: signed_token where
  "example_token =
     projr (IssueVCWithID rfc8032_public_of_seed example_did ''did:key:zSubject''
              (Ed25519PrivateKey example_private_key) example_subject example_id example_now)"

text \<open>
  A credential issued with an issuer, a subject and a credential id that are not
  well-formed UTF-8: each is the Go string \<^verbatim>\<open>"\xff"\<close>.
\<close>

definition example_token_bad_strings :: signed_token where
  "example_token_bad_strings =
     projr (IssueVCWithID rfc8032_public_of_seed [CHR 0xFF] [CHR 0xFF]
              (Ed25519PrivateKey example_private_key) example_subject [CHR 0xFF] example_now)"

text \<open>
  A presentation of two credential tokens by the holder \<open>example_did\<close>, and one whose
  audience, nonce and credential token are not well-formed UTF-8: each is the Go string
  \<^verbatim>\<open>"\xff"\<close>.
\<close>

definition example_random :: bytes where
  "example_random = map of_nat [1..<17]"

definition example_presentation :: signed_token where
  "example_presentation =
     projr (CreatePresentation rfc8032_public_of_seed example_did example_private_key
              [''v4.public.credential-1'', ''v4.public.credential-2'']
              ''did:key:z6MkVerifier'' ''test-nonce-12345'' (Some example_random) example_now)"

definition example_presentation_bad_strings :: signed_token where
  "example_presentation_bad_strings =
     projr (CreatePresentation rfc8032_public_of_seed example_did example_private_key
              [[CHR 0xFF]] [CHR 0xFF] [CHR 0xFF] (Some example_random) example_now)"

section \<open>Properties of Split\<close>

lemma Split_not_Nil: "Split s sep \<noteq> []"
  by (induction s) (auto split: list.splits)

lemma Split_no_sep: "sep \<notin> set s \<Longrightarrow> Split s sep = [s]"
  by (induction s) auto

lemma Split_append_sep: "sep \<notin> set a \<Longrightarrow> Split (a @ sep # b) sep = a # Split b sep"
  by (induction a) auto

section \<open>Digits and numbers\<close>

lemma nat_of_digits_snoc: "nat_of_digits b (ds @ [d]) = nat_of_digits b ds * b + d"
  by (simp add: nat_of_digits_def)

lemma nat_of_digits_Nil: "nat_of_digits b [] = 0"
  by (simp add: nat_of_digits_def)

lemma nat_of_digits_of_nat: "2 \<le> b \<Longrightarrow> nat_of_digits b (digits_of_nat b n) = n"
proof (induction b n rule: digits_of_nat.induct)
  case (1 b n)
  show ?case
  proof (cases "n = 0")
    case True
    then show ?thesis by (simp add: digits_of_nat.simps nat_of_digits_Nil)
  next
    case False
    with 1 have "nat_of_digits b (digits_of_nat b (n div b)) = n div b" by simp
    with False 1(2) show ?thesis
      by (subst digits_of_nat.simps) (simp add: nat_of_digits_snoc)
  qed
qed

lemma digits_of_nat_lt: "d \<in> set (digits_of_nat b n) \<Longrightarrow> d < b"
proof (induction b n rule: digits_of_nat.induct)
  case (1 b n)
  from 1(2) show ?case
    by (subst (asm) digits_of_nat.simps) (use 1(1) in \<open>auto split: if_splits\<close>)
qed

lemma digits_of_nat_0: "digits_of_nat b 0 = []"
  by (simp add: digits_of_nat.simps)

lemma digits_of_nat_eq_Nil: "2 \<le> b \<Longrightarrow> digits_of_nat b n = [] \<longleftrightarrow> n = 0"
  by (subst digits_of_nat.simps) simp

lemma digits_of_nat_hd: "2 \<le> b \<Longrightarrow> n \<noteq> 0 \<Longrightarrow> hd (digits_of_nat b n) \<noteq> 0"
proof (induction b n rule: digits_of_nat.induct)
  case (1 b n)
  show ?case
  proof (cases "n div b = 0")
    case True
    then have "n < b" using 1(2)
      by (metis div_greater_zero_iff not_less zero_less_iff_neq_zero not_numeral_le_zero le_zero_eq)
    with True 1(2,3) show ?thesis
      by (subst digits_of_nat.simps) (simp add: digits_of_nat_0)
  next
    case False
    with 1 have "hd (digits_of_nat b (n div b)) \<noteq> 0" by simp
    moreover have "digits_of_nat b (n div b) \<noteq> []"
      using False 1(2) by (simp add: digits_of_nat_eq_Nil)
    ultimately show ?thesis using 1(2,3)
      by (subst digits_of_nat.simps) simp
  qed
qed

lemma digits_of_nat_step:
  "2 \<le> b \<Longrightarrow> d < b \<Longrightarrow> m \<noteq> 0 \<Longrightarrow> digits_of_nat b (m * b + d) = digits_of_nat b m @ [d]"
  by (subst digits_of_nat.simps) auto

lemma digits_of_nat_of_digits:
  "2 \<le> b \<Longrightarrow> \<forall>d \<in> set ds. d < b \<Longrightarrow> ds = [] \<or> hd ds \<noteq> 0
   \<Longrightarrow> digits_of_nat b (nat_of_digits b ds) = ds"
proof (induction ds rule: rev_induct)
  case Nil
  then show ?case by (simp add: nat_of_digits_Nil digits_of_nat_0)
next
  case (snoc d ds)
  show ?case
  proof (cases "ds = []")
    case True
    with snoc(2,3,4) show ?thesis
      by (subst digits_of_nat.simps) (simp add: nat_of_digits_def digits_of_nat_0)
  next
    case False
    with snoc have ih: "digits_of_nat b (nat_of_digits b ds) = ds" by simp
    have "nat_of_digits b ds \<noteq> 0"
      using ih False digits_of_nat_0 by metis
    with snoc(2,3) ih show ?thesis
      by (simp add: nat_of_digits_snoc digits_of_nat_step)
  qed
qed

lemma nat_of_digits_Cons0: "nat_of_digits b (0 # ds) = nat_of_digits b ds"
  by (simp add: nat_of_digits_def)

lemma nat_of_digits_replicate0: "nat_of_digits b (replicate z 0 @ ds) = nat_of_digits b ds"
  by (induction z) (simp_all add: nat_of_digits_Cons0)

subsection \<open>Parts hold no separator\<close>

lemma Split_parts_no_sep: "p \<in> set (Split s sep) \<Longrightarrow> sep \<notin> set p"
proof (induction s arbitrary: p)
  case Nil
  then show ?case by simp
next
  case (Cons c cs)
  then show ?case
    by (cases "Split cs sep") (auto split: if_splits)
qed

lemma Split_did_key: "CHR '':'' \<notin> set p \<Longrightarrow> Split (''did:key:'' @ p) (CHR '':'') = [''did'', ''key'', p]"
  by (simp add: Split_no_sep)

section \<open>Base58: decoding an encoding gives the bytes back\<close>

lemma b58_alphabet_length: "length b58_alphabet = 58"
  by (simp add: b58_alphabet_def)

lemma b58_alphabet_distinct: "distinct b58_alphabet"
  by (simp add: b58_alphabet_def)

lemma takeWhile_neq_nth:
  "distinct xs \<Longrightarrow> i < length xs \<Longrightarrow> length (takeWhile (\<lambda>x. x \<noteq> xs ! i) xs) = i"
proof (induction xs arbitrary: i)
  case Nil
  then show ?case by simp
next
  case (Cons a xs)
  then show ?case by (cases i) auto
qed

lemma b58_index_nth: "d < 58 \<Longrightarrow> b58_index (b58_alphabet ! d) = d"
  unfolding b58_index_def
  by (rule takeWhile_neq_nth) (simp_all add: b58_alphabet_distinct b58_alphabet_length)

lemma b58_nth_mem: "d < 58 \<Longrightarrow> b58_alphabet ! d \<in> set b58_alphabet"
  by (simp add: b58_alphabet_length)

lemma b58_nth_0: "b58_alphabet ! 0 = CHR ''1''"
  by (simp add: b58_alphabet_def)

lemma b58_nth_eq_one: "d < 58 \<Longrightarrow> b58_alphabet ! d = CHR ''1'' \<longleftrightarrow> d = 0"
  using b58_alphabet_distinct b58_nth_0
  by (metis b58_alphabet_length nth_eq_iff_index_eq zero_less_numeral)

lemma b58_one_mem: "CHR ''1'' \<in> set b58_alphabet"
  by (simp add: b58_alphabet_def)

lemma b58_colon_not_mem: "CHR '':'' \<notin> set b58_alphabet"
  by (simp add: b58_alphabet_def)

lemma b58_index_one: "b58_index (CHR ''1'') = 0"
  by (simp add: b58_index_def b58_alphabet_def)

lemma nat_of_bytes_dropWhile:
  "nat_of_bytes (dropWhile (\<lambda>b. b = 0) bs) = nat_of_bytes bs"
proof -
  have "map unat bs = replicate (length (takeWhile (\<lambda>b. b = 0) bs)) 0
                      @ map unat (dropWhile (\<lambda>b. b = 0) bs)"
  proof (induction bs)
    case Nil
    then show ?case by simp
  next
    case (Cons a bs)
    then show ?case by auto
  qed
  then show ?thesis
    by (simp add: nat_of_bytes_def nat_of_digits_replicate0)
qed

lemma bytes_of_nat_of_bytes:
  assumes "bs = [] \<or> hd bs \<noteq> 0"
  shows "bytes_of_nat (nat_of_bytes bs) = bs"
proof -
  have lt: "\<forall>d \<in> set (map unat bs). d < 256"
  proof
    fix d assume "d \<in> set (map unat bs)"
    then obtain w :: byte where "d = unat w" by auto
    moreover have "unat w < 2 ^ LENGTH(8)" by (rule unsigned_less)
    ultimately show "d < 256" by simp
  qed
  have hd0: "map unat bs = [] \<or> hd (map unat bs) \<noteq> 0"
    using assms by (cases bs) (auto simp: unat_eq_0)
  have "digits_of_nat 256 (nat_of_digits 256 (map unat bs)) = map unat bs"
    by (rule digits_of_nat_of_digits) (use lt hd0 in simp_all)
  then show ?thesis
    by (simp add: bytes_of_nat_def nat_of_bytes_def comp_def)
qed

lemma replicate_takeWhile_dropWhile:
  "replicate (length (takeWhile (\<lambda>b. b = z) bs)) z @ dropWhile (\<lambda>b. b = z) bs = bs"
  by (induction bs) auto

lemma takeWhile_replicate_append:
  "ys = [] \<or> hd ys \<noteq> c \<Longrightarrow> takeWhile (\<lambda>x. x = c) (replicate z c @ ys) = replicate z c"
  by (induction z) (auto simp: takeWhile_eq_Nil_iff)

lemma b58_Encode_set: "set (b58_Encode bin) \<subseteq> set b58_alphabet"
  using digits_of_nat_lt [of _ 58] b58_nth_mem b58_one_mem
  by (auto simp: b58_Encode_def)

lemma b58_Encode_no_colon: "CHR '':'' \<notin> set (b58_Encode bin)"
  using b58_Encode_set b58_colon_not_mem by blast

lemma nat_of_bytes_pos: "bs \<noteq> [] \<Longrightarrow> hd bs \<noteq> 0 \<Longrightarrow> nat_of_bytes bs \<noteq> 0"
proof -
  assume a: "bs \<noteq> []" "hd bs \<noteq> 0"
  then have "bytes_of_nat (nat_of_bytes bs) = bs" by (simp add: bytes_of_nat_of_bytes)
  show ?thesis
  proof
    assume "nat_of_bytes bs = 0"
    with \<open>bytes_of_nat (nat_of_bytes bs) = bs\<close> have "bs = []"
      by (simp add: bytes_of_nat_def digits_of_nat_0)
    with a(1) show False by simp
  qed
qed

lemma b58_Decode_Encode:
  assumes "bin \<noteq> []"
  shows "b58_Decode (b58_Encode bin) = Inr bin"
proof -
  define z where "z = length (takeWhile (\<lambda>b. b = 0) bin)"
  define rest where "rest = dropWhile (\<lambda>b. b = 0) bin"
  define n where "n = nat_of_bytes bin"
  define ds where "ds = digits_of_nat 58 n"
  define cs where "cs = map (\<lambda>d. b58_alphabet ! d) ds"
  have enc: "b58_Encode bin = replicate z (CHR ''1'') @ cs"
    by (simp add: b58_Encode_def z_def cs_def ds_def n_def)
  have bin: "bin = replicate z 0 @ rest"
    unfolding z_def rest_def by (rule replicate_takeWhile_dropWhile [symmetric])
  have rest_hd: "rest = [] \<or> hd rest \<noteq> 0"
    unfolding rest_def by (metis (mono_tags, lifting) hd_dropWhile)
  have n_rest: "n = nat_of_bytes rest"
    by (simp add: n_def rest_def nat_of_bytes_dropWhile)
  have ds_lt: "\<forall>d \<in> set ds. d < 58"
    using digits_of_nat_lt [of _ 58 n] by (auto simp: ds_def)
  have ds_hd: "ds = [] \<or> hd ds \<noteq> 0"
    using digits_of_nat_hd [of 58 n] digits_of_nat_0 [of 58]
    by (cases "n = 0") (auto simp: ds_def)
  have cs_hd: "cs = [] \<or> hd cs \<noteq> CHR ''1''"
  proof (cases ds)
    case Nil
    then show ?thesis by (simp add: cs_def)
  next
    case (Cons d ds')
    with ds_hd ds_lt have "d \<noteq> 0" "d < 58" by auto
    then have "b58_alphabet ! d \<noteq> CHR ''1''" by (simp add: b58_nth_eq_one)
    with Cons show ?thesis by (simp add: cs_def)
  qed
  have nonempty: "replicate z (CHR ''1'') @ cs \<noteq> []"
  proof (cases "z = 0")
    case True
    with bin assms have "rest \<noteq> []" by simp
    with rest_hd have "n \<noteq> 0" using n_rest nat_of_bytes_pos by auto
    then have "ds \<noteq> []" by (simp add: ds_def digits_of_nat_eq_Nil)
    then show ?thesis by (simp add: cs_def)
  next
    case False
    then show ?thesis by simp
  qed
  have valid: "\<not> (\<exists>c \<in> set (replicate z (CHR ''1'') @ cs). c \<notin> set b58_alphabet)"
    using b58_Encode_set [of bin] enc by auto
  have tw: "length (takeWhile (\<lambda>c. c = CHR ''1'') (replicate z (CHR ''1'') @ cs)) = z"
    using cs_hd by (simp add: takeWhile_replicate_append)
  have idx: "map b58_index (replicate z (CHR ''1'') @ cs) = replicate z 0 @ ds"
    using ds_lt by (simp add: cs_def b58_index_one b58_index_nth map_idI comp_def)
  have "nat_of_digits 58 (replicate z 0 @ ds) = n"
    by (simp add: nat_of_digits_replicate0 ds_def nat_of_digits_of_nat)
  moreover have "bytes_of_nat n = rest"
    using rest_hd n_rest by (simp add: bytes_of_nat_of_bytes)
  ultimately have "replicate z 0 @ bytes_of_nat
      (nat_of_digits 58 (map b58_index (replicate z (CHR ''1'') @ cs))) = bin"
    unfolding idx using bin by simp
  then show ?thesis
    unfolding enc b58_Decode_def using nonempty valid tw by (simp only: if_False)
qed

subsection \<open>The example key\<close>

lemma example_key_length: "length example_key = 32"
  by (simp add: example_key_def)

lemma example_key_digits:
  "nat_of_digits 58 (map b58_index ''6MkeXCES4onVW4up9Qgz1KRnZsKmGufcaZxF6Zpv2w5QwUK'')
   = nat_of_bytes (0xed # 0x01 # example_key)"
  by (simp add: nat_of_digits_def b58_alphabet_def b58_index_def nat_of_bytes_def
      example_key_def upt_rec)

lemma example_key_Decode:
  "b58_Decode ''6MkeXCES4onVW4up9Qgz1KRnZsKmGufcaZxF6Zpv2w5QwUK'' = Inr (0xed # 0x01 # example_key)"
proof -
  have valid: "\<not> (\<exists>c \<in> set ''6MkeXCES4onVW4up9Qgz1KRnZsKmGufcaZxF6Zpv2w5QwUK''.
                    c \<notin> set b58_alphabet)"
    by (simp add: b58_alphabet_def)
  have "bytes_of_nat (nat_of_bytes (0xed # 0x01 # example_key)) = 0xed # 0x01 # example_key"
    by (rule bytes_of_nat_of_bytes) simp
  then show ?thesis
    unfolding b58_Decode_def example_key_digits using valid by simp
qed

lemma example_key_Encode:
  "b58_Encode (0xed # 0x01 # example_key) = ''6MkeXCES4onVW4up9Qgz1KRnZsKmGufcaZxF6Zpv2w5QwUK''"
proof -
  let ?s = "''6MkeXCES4onVW4up9Qgz1KRnZsKmGufcaZxF6Zpv2w5QwUK''"
  have idx: "map b58_index ?s = [5, 20, 43, 37, 30, 11, 13, 25, 3, 46, 45, 28, 29, 3, 52, 47,
      8, 23, 39, 57, 0, 18, 24, 45, 32, 50, 18, 44, 15, 52, 38, 35, 33, 32, 55, 14, 5, 32,
      47, 53, 1, 54, 4, 23, 54, 27, 18]"
    by (simp add: b58_index_def b58_alphabet_def)
  have "digits_of_nat 58 (nat_of_digits 58 (map b58_index ?s)) = map b58_index ?s"
    unfolding idx by (rule digits_of_nat_of_digits) simp_all
  then have "digits_of_nat 58 (nat_of_bytes (0xed # 0x01 # example_key)) = map b58_index ?s"
    unfolding example_key_digits .
  then show ?thesis
    unfolding b58_Encode_def idx by (simp add: b58_alphabet_def)
qed

section \<open>Resolving identifiers\<close>

lemma resolveKey_z:
  "resolveKey (CHR ''z'' # enc) =
     (case b58_Decode enc of
        Inl err \<Rightarrow> Inl err
      | Inr decoded \<Rightarrow>
          if take 2 decoded \<noteq> [0xed, 0x01] then Inl ErrInvalidMulticodec
          else if length (drop 2 decoded) \<noteq> 32 then Inl ErrInvalidKeyLength
          else Inr (drop 2 decoded))"
proof (cases "b58_Decode enc")
  case (Inl e)
  then show ?thesis by (simp add: resolveKey_def)
next
  case (Inr decoded)
  show ?thesis
  proof (cases decoded)
    case Nil
    with Inr show ?thesis by (simp add: resolveKey_def)
  next
    case (Cons a as)
    with Inr show ?thesis
      by (cases as) (auto simp: resolveKey_def ed25519Multicodec_def PublicKeySize_def Let_def)
  qed
qed

lemma resolveKey_not_z:
  "\<not> (\<exists>enc. s = CHR ''z'' # enc) \<Longrightarrow> resolveKey s = Inl ErrInvalidDID"
  by (cases s) (auto simp: resolveKey_def)

text \<open>
  Claim C7. \<open>Resolve\<close> on any string, by the parts \<open>strings.Split\<close> gives:
  fewer than three parts, or a first part other than \<open>did\<close>, is \<open>ErrInvalidDID\<close>
  (the spec's InvalidFormat); a method other than \<open>key\<close> is
  \<open>ErrUnsupportedMethod\<close>; for the method \<open>key\<close>, a method-id that does not start
  with \<open>z\<close> is \<open>ErrInvalidDID\<close>, a failure of the base58 decoder is returned as it
  is, decoded bytes that do not start with \<open>0xed 0x01\<close> are \<open>ErrInvalidMulticodec\<close>
  (InvalidTypeTag), a remainder that is not 32 bytes long is \<open>ErrInvalidKeyLength\<close>, and
  in the one case left the 32 bytes after the tag are returned.
\<close>

theorem Resolve_cases:
  assumes "parts = Split did (CHR '':'')"
  shows
    "(length parts < 3 \<or> parts ! 0 \<noteq> ''did'' \<longrightarrow> Resolve did = Inl ErrInvalidDID)
   \<and> (3 \<le> length parts \<and> parts ! 0 = ''did'' \<and> parts ! 1 \<noteq> ''key''
        \<longrightarrow> Resolve did = Inl ErrUnsupportedMethod)
   \<and> (3 \<le> length parts \<and> parts ! 0 = ''did'' \<and> parts ! 1 = ''key''
        \<and> \<not> (\<exists>enc. parts ! 2 = CHR ''z'' # enc)
        \<longrightarrow> Resolve did = Inl ErrInvalidDID)
   \<and> (3 \<le> length parts \<and> parts ! 0 = ''did'' \<and> parts ! 1 = ''key''
        \<and> parts ! 2 = CHR ''z'' # enc \<and> b58_Decode enc = Inl err
        \<longrightarrow> Resolve did = Inl err)
   \<and> (3 \<le> length parts \<and> parts ! 0 = ''did'' \<and> parts ! 1 = ''key''
        \<and> parts ! 2 = CHR ''z'' # enc \<and> b58_Decode enc = Inr decoded
        \<and> take 2 decoded \<noteq> [0xed, 0x01]
        \<longrightarrow> Resolve did = Inl ErrInvalidMulticodec)
   \<and> (3 \<le> length parts \<and> parts ! 0 = ''did'' \<and> parts ! 1 = ''key''
        \<and> parts ! 2 = CHR ''z'' # enc \<and> b58_Decode enc = Inr decoded
        \<and> take 2 decoded = [0xed, 0x01] \<and> length (drop 2 decoded) \<noteq> 32
        \<longrightarrow> Resolve did = Inl ErrInvalidKeyLength)
   \<and> (3 \<le> length parts \<and> parts ! 0 = ''did'' \<and> parts ! 1 = ''key''
        \<and> parts ! 2 = CHR ''z'' # enc \<and> b58_Decode enc = Inr decoded
        \<and> take 2 decoded = [0xed, 0x01] \<and> length (drop 2 decoded) = 32
        \<longrightarrow> Resolve did = Inr (drop 2 decoded))"
  using assms by (auto simp: Resolve_def Let_def resolveKey_z resolveKey_not_z)

text \<open>The cases of C7 on concrete identifiers, those of the resolver's tests among them.\<close>

theorem Resolve_cases_witness:
  "Resolve [] = Inl ErrInvalidDID
 \<and> Resolve ''did:key'' = Inl ErrInvalidDID
 \<and> Resolve ''key:z6MkTest:x'' = Inl ErrInvalidDID
 \<and> Resolve ''did:web:example.com'' = Inl ErrUnsupportedMethod
 \<and> Resolve ''did:key:6MkTest'' = Inl ErrInvalidDID
 \<and> Resolve ''did:key:z'' = Inl ErrBase58ZeroLength
 \<and> Resolve ''did:key:z0OIl'' = Inl ErrBase58InvalidDigit
 \<and> Resolve ''did:key:z6Mk'' = Inl ErrInvalidMulticodec
 \<and> Resolve ''did:key:zK36'' = Inl ErrInvalidKeyLength
 \<and> Resolve example_did = Inr example_key"
proof -
  have d1: "b58_Decode [] = Inl ErrBase58ZeroLength"
    by (simp add: b58_Decode_def)
  have d2: "b58_Decode ''0OIl'' = Inl ErrBase58InvalidDigit"
    by (simp add: b58_Decode_def b58_alphabet_def)
  have d3: "b58_Decode ''6Mk'' = Inr [0x46, 0x67]"
    by (simp add: b58_Decode_def bytes_of_nat_def nat_of_digits_def digits_of_nat.simps
        b58_alphabet_def b58_index_def)
  have d4: "b58_Decode ''K36'' = Inr [0xed, 0x01]"
    by (simp add: b58_Decode_def bytes_of_nat_def nat_of_digits_def digits_of_nat.simps
        b58_alphabet_def b58_index_def)
  have "Resolve [] = Inl ErrInvalidDID"
    using Resolve_cases [OF refl, of "[]"] by simp
  moreover have "Resolve ''did:key'' = Inl ErrInvalidDID"
    using Resolve_cases [OF refl, of "''did:key''"] by simp
  moreover have "Resolve ''key:z6MkTest:x'' = Inl ErrInvalidDID"
    using Resolve_cases [OF refl, of "''key:z6MkTest:x''"] by simp
  moreover have "Resolve ''did:web:example.com'' = Inl ErrUnsupportedMethod"
    using Resolve_cases [OF refl, of "''did:web:example.com''"] by simp
  moreover have "Resolve ''did:key:6MkTest'' = Inl ErrInvalidDID"
    using Resolve_cases [OF refl, of "''did:key:6MkTest''"] by simp
  moreover have "Resolve ''did:key:z'' = Inl ErrBase58ZeroLength"
    using Resolve_cases [OF refl, of "''did:key:z''" "[]" ErrBase58ZeroLength] d1 by simp
  moreover have "Resolve ''did:key:z0OIl'' = Inl ErrBase58InvalidDigit"
    using Resolve_cases [OF refl, of "''did:key:z0OIl''" "''0OIl''" ErrBase58InvalidDigit] d2
    by simp
  moreover have "Resolve ''did:key:z6Mk'' = Inl ErrInvalidMulticodec"
    using Resolve_cases [OF refl, of "''did:key:z6Mk''" "''6Mk''" _ "[0x46, 0x67]"] d3 by simp
  moreover have "Resolve ''did:key:zK36'' = Inl ErrInvalidKeyLength"
    using Resolve_cases [OF refl, of "''did:key:zK36''" "''K36''" _ "[0xed, 0x01]"] d4 by simp
  moreover have "Resolve example_did = Inr example_key"
    using Resolve_cases [OF refl, of example_did
        "''6MkeXCES4onVW4up9Qgz1KRnZsKmGufcaZxF6Zpv2w5QwUK''" _ "0xed # 0x01 # example_key"]
      example_key_Decode example_key_length
    by (simp add: example_did_def)
  ultimately show ?thesis by (simp only: simp_thms)
qed

text \<open>
  Claim C4. For every 32-byte public key \<open>k\<close>, \<open>CreateDIDKey\<close> (which has no
  failing branch) gives the identifier \<open>did:key:z\<close> followed by the base58 encoding of
  \<open>0xed 0x01\<close> and \<open>k\<close>, and \<open>Resolve\<close> on that identifier returns exactly
  \<open>k\<close>.
\<close>

theorem CreateDIDKey_Resolve_round_trip:
  assumes "length k = 32"
  shows "DID (CreateDIDKey k) = ''did:key:z'' @ b58_Encode ([0xed, 0x01] @ k)
       \<and> Resolve (DID (CreateDIDKey k)) = Inr k"
proof -
  define enc where "enc = b58_Encode ([0xed, 0x01] @ k)"
  have did: "DID (CreateDIDKey k) = ''did:key:'' @ (CHR ''z'' # enc)"
    by (simp add: CreateDIDKey_def Let_def ed25519Multicodec_def enc_def)
  have "CHR '':'' \<notin> set (CHR ''z'' # enc)"
    using b58_Encode_no_colon [of "[0xed, 0x01] @ k"] by (simp add: enc_def)
  then have parts: "Split (''did:key:'' @ (CHR ''z'' # enc)) (CHR '':'')
                    = [''did'', ''key'', CHR ''z'' # enc]"
    by (rule Split_did_key)
  have dec: "b58_Decode enc = Inr ([0xed, 0x01] @ k)"
    unfolding enc_def by (rule b58_Decode_Encode) simp
  have "Resolve (''did:key:'' @ (CHR ''z'' # enc)) = resolveKey (CHR ''z'' # enc)"
    unfolding Resolve_def parts by simp
  also have "\<dots> = Inr k"
    using dec assms by (simp add: resolveKey_z)
  finally show ?thesis
    using did by (simp add: enc_def)
qed

text \<open>C4 on the example key, with the identifier written out.\<close>

theorem CreateDIDKey_Resolve_round_trip_witness:
  "length example_key = 32
 \<and> DID (CreateDIDKey example_key) = example_did
 \<and> Resolve example_did = Inr example_key"
proof -
  have enc: "''did:key:z'' @ b58_Encode ([0xed, 0x01] @ example_key) = example_did"
    using example_key_Encode by (simp add: example_did_def)
  have a: "DID (CreateDIDKey example_key) = example_did"
    and b: "Resolve (DID (CreateDIDKey example_key)) = Inr example_key"
    using CreateDIDKey_Resolve_round_trip [OF example_key_length] unfolding enc by blast+
  from b have "Resolve example_did = Inr example_key"
    unfolding a .
  with a show ?thesis
    by (simp add: example_key_length)
qed

text \<open>
  Claim C9. An identifier with more than three colon-delimited parts, the first
  \<open>did\<close>, the second \<open>key\<close>, the third a \<open>z\<close> followed by a base58 encoding
  of the tag and a 32-byte key: \<open>Resolve\<close> returns that key. The parts after the third
  are never read: the result is the one of the identifier made of the first three parts
  alone.
\<close>

theorem Resolve_ignores_extra_parts:
  assumes "parts = Split did (CHR '':'')"
    and "3 < length parts"
    and "parts ! 0 = ''did''"
    and "parts ! 1 = ''key''"
    and "parts ! 2 = CHR ''z'' # enc"
    and "b58_Decode enc = Inr (0xed # 0x01 # k)"
    and "length k = 32"
  shows "Resolve did = Inr k \<and> Resolve (''did:key:'' @ parts ! 2) = Inr k"
proof -
  have key: "resolveKey (parts ! 2) = Inr k"
    using assms(5,6,7) by (simp add: resolveKey_z)
  have first: "Resolve did = Inr k"
    using assms(1-4) key by (simp add: Resolve_def Let_def)
  have "parts ! 2 \<in> set parts"
    using assms(2) by simp
  then have "CHR '':'' \<notin> set (parts ! 2)"
    unfolding assms(1) by (rule Split_parts_no_sep)
  then have "Split (''did:key:'' @ parts ! 2) (CHR '':'') = [''did'', ''key'', parts ! 2]"
    by (rule Split_did_key)
  then have "Resolve (''did:key:'' @ parts ! 2) = resolveKey (parts ! 2)"
    unfolding Resolve_def by simp
  with first key show ?thesis by simp
qed

text \<open>C9 on the example identifier followed by two more parts.\<close>

theorem Resolve_ignores_extra_parts_witness:
  "Split (example_did @ '':extra:parts'') (CHR '':'') ! 2
     = ''z6MkeXCES4onVW4up9Qgz1KRnZsKmGufcaZxF6Zpv2w5QwUK''
 \<and> length (Split (example_did @ '':extra:parts'') (CHR '':'')) = 5
 \<and> Resolve (example_did @ '':extra:parts'') = Inr example_key
 \<and> Resolve example_did = Inr example_key"
  using Resolve_ignores_extra_parts [OF refl, of "example_did @ '':extra:parts''"
      "''6MkeXCES4onVW4up9Qgz1KRnZsKmGufcaZxF6Zpv2w5QwUK''" example_key]
    example_key_Decode example_key_length
  by (simp add: example_did_def)

section \<open>Strings through JSON\<close>

lemma coerce_utf8_Nil: "coerce_utf8 [] = []"
  by (simp add: coerce_utf8.simps)

lemma coerce_utf8_eq_Nil: "coerce_utf8 s = [] \<longleftrightarrow> s = []"
proof
  assume h: "coerce_utf8 s = []"
  show "s = []"
  proof (rule ccontr)
    assume ne: "s \<noteq> []"
    show False
    proof (cases "utf8_rune_len s = 0")
      case True
      with ne h show False
        by (subst (asm) coerce_utf8.simps) (simp add: replacement_char_def)
    next
      case False
      with ne h show False
        by (subst (asm) coerce_utf8.simps) simp
    qed
  qed
next
  assume "s = []"
  then show "coerce_utf8 s = []" by (simp add: coerce_utf8_Nil)
qed

lemma coerce_utf8_valid: "valid_utf8 s \<Longrightarrow> coerce_utf8 s = s"
proof (induction s rule: valid_utf8.induct)
  case (1 s)
  show ?case
  proof (cases "s = []")
    case True
    then show ?thesis by (simp add: coerce_utf8_Nil)
  next
    case ne: False
    from "1.prems" ne have len: "utf8_rune_len s \<noteq> 0"
      by (subst (asm) valid_utf8.simps) (simp split: if_splits)
    from "1.prems" ne len have "valid_utf8 (drop (utf8_rune_len s) s)"
      by (subst (asm) valid_utf8.simps) simp
    with "1.IH" ne len have "coerce_utf8 (drop (utf8_rune_len s) s) = drop (utf8_rune_len s) s"
      by simp
    with ne len show ?thesis
      by (subst coerce_utf8.simps) simp
  qed
qed

lemma valid_utf8_ascii: "\<forall>c \<in> set s. (of_char c :: nat) < 128 \<Longrightarrow> valid_utf8 s"
proof (induction s)
  case Nil
  then show ?case by (simp add: valid_utf8.simps)
next
  case (Cons c s)
  then have "utf8_rune_len (c # s) = 1"
    by (simp add: utf8_rune_len_def in_range_def)
  with Cons show ?case
    by (subst valid_utf8.simps) simp
qed

lemma coerce_utf8_ascii: "\<forall>c \<in> set s. (of_char c :: nat) < 128 \<Longrightarrow> coerce_utf8 s = s"
  by (simp add: valid_utf8_ascii coerce_utf8_valid)

lemma unmarshal_all_marshal:
  "unmarshal_all (map marshal_string ss) = Some (map coerce_utf8 ss)"
  by (induction ss) (simp_all add: marshal_string_def)

lemma unmarshal_strings_marshal:
  "unmarshal_strings (marshal_strings ss) = Some (map coerce_utf8 ss)"
  by (simp add: marshal_strings_def unmarshal_all_marshal)

lemma coerce_utf8_invalid_example: "coerce_utf8 [CHR 0xFF] = [CHR 0xEF, CHR 0xBF, CHR 0xBD]"
  by (simp add: coerce_utf8.simps utf8_rune_len_def in_range_def replacement_char_def)

section \<open>The registry: serialising the map\<close>

lemma marshal_Entry_None_iff:
  "marshal_Entry e = None
   \<longleftrightarrow> \<not> (year_0_to_9999 (IssuedAt e) \<and> year_0_to_9999 (RevokedAt e))"
  by (simp add: marshal_Entry_def marshal_Time_def)

lemma marshal_members_None_iff:
  "marshal_members h kvs = None \<longleftrightarrow> (\<exists>kp \<in> set kvs. marshal_ptr h (snd kp) = None)"
  by (induction kvs) (auto split: option.splits)

lemma marshal_members_member:
  "marshal_members h kvs = Some ms \<Longrightarrow> (k, p) \<in> set kvs
   \<Longrightarrow> \<exists>j. marshal_ptr h p = Some j \<and> (coerce_utf8 k, j) \<in> set ms"
  by (induction kvs arbitrary: ms) (auto split: option.splits)

lemma in_clearjunk_iff: "(k, p) \<in> set (AList.clearjunk kvs) \<longleftrightarrow> map_of kvs k = Some p"
proof -
  have "map_of (AList.clearjunk kvs) k = Some p \<longleftrightarrow> (k, p) \<in> set (AList.clearjunk kvs)"
    by (rule map_of_eq_Some_iff) (rule distinct_clearjunk)
  then show ?thesis
    by (simp add: map_of_clearjunk)
qed

lemma in_pairs_iff: "(k, p) \<in> set (pairs m) \<longleftrightarrow> lookup m k = Some p"
  by (cases m) (simp_all add: in_clearjunk_iff)

lemma MarshalIndent_error: "MarshalIndent s = Inl err \<Longrightarrow> err = ErrMarshal"
  by (auto simp: MarshalIndent_def split: entry_map.splits option.splits)

lemma Export_error_iff:
  "Export s = Inl ErrMarshal
   \<longleftrightarrow> (\<exists>k a. lookup (entries s) k = Some (Ptr a)
          \<and> \<not> (year_0_to_9999 (IssuedAt (heap s a)) \<and> year_0_to_9999 (RevokedAt (heap s a))))"
proof (cases "entries s")
  case NilMap
  then show ?thesis
    by (simp add: Export_def MarshalIndent_def)
next
  case (Map kvs)
  have "Export s = Inl ErrMarshal
        \<longleftrightarrow> marshal_members (heap s) (sort_key fst (AList.clearjunk kvs)) = None"
    by (simp add: Export_def MarshalIndent_def Map split: option.splits)
  also have "\<dots> \<longleftrightarrow> (\<exists>kp \<in> set (AList.clearjunk kvs). marshal_ptr (heap s) (snd kp) = None)"
    by (simp add: marshal_members_None_iff)
  also have "\<dots> \<longleftrightarrow> (\<exists>k p. map_of kvs k = Some p \<and> marshal_ptr (heap s) p = None)"
    using in_clearjunk_iff [of _ _ kvs] by (metis prod.collapse snd_conv)
  also have "\<dots> \<longleftrightarrow> (\<exists>k a. map_of kvs k = Some (Ptr a) \<and> marshal_Entry (heap s a) = None)"
  proof
    assume "\<exists>k p. map_of kvs k = Some p \<and> marshal_ptr (heap s) p = None"
    then obtain k p where kp: "map_of kvs k = Some p" "marshal_ptr (heap s) p = None"
      by blast
    then show "\<exists>k a. map_of kvs k = Some (Ptr a) \<and> marshal_Entry (heap s a) = None"
      by (cases p) auto
  next
    assume "\<exists>k a. map_of kvs k = Some (Ptr a) \<and> marshal_Entry (heap s a) = None"
    then obtain k a where "map_of kvs k = Some (Ptr a)" "marshal_Entry (heap s a) = None"
      by blast
    then have "map_of kvs k = Some (Ptr a) \<and> marshal_ptr (heap s) (Ptr a) = None"
      by simp
    then show "\<exists>k p. map_of kvs k = Some p \<and> marshal_ptr (heap s) p = None"
      by blast
  qed
  finally show ?thesis
    by (simp add: Map marshal_Entry_None_iff)
qed

lemma Export_member:
  assumes "Export s = Inr j" and "lookup (entries s) k = Some (Ptr a)"
  shows "\<exists>je ms. marshal_Entry (heap s a) = Some je \<and> j = JObject ms
               \<and> (coerce_utf8 k, je) \<in> set ms"
proof (cases "entries s")
  case NilMap
  with assms(2) show ?thesis by simp
next
  case (Map kvs)
  from assms(1) obtain ms where
    ms: "marshal_members (heap s) (sort_key fst (AList.clearjunk kvs)) = Some ms"
    and j: "j = JObject ms"
    by (auto simp: Export_def MarshalIndent_def Map split: option.splits)
  have "(k, Ptr a) \<in> set (sort_key fst (AList.clearjunk kvs))"
    using assms(2) by (simp add: Map in_clearjunk_iff)
  with ms obtain je where "marshal_ptr (heap s) (Ptr a) = Some je" "(coerce_utf8 k, je) \<in> set ms"
    using marshal_members_member by blast
  with j show ?thesis by simp
qed

lemma save_cases:
  "save w s = None \<or> save w s = Some ErrMarshal \<or> save w s = Some ErrWriteFile"
  by (auto simp: save_def dest: MarshalIndent_error split: sum.splits)

lemma save_Export:
  "save w s = (if path s = [] then None
               else if Export s = Inl ErrMarshal then Some ErrMarshal
               else if w then None else Some ErrWriteFile)"
  by (auto simp: save_def Export_def dest: MarshalIndent_error split: sum.splits)

lemma save_not_package_error:
  "save w s \<noteq> Some ErrCredentialNotFound"
  "save w s \<noteq> Some ErrAlreadyRevoked"
  using save_cases [of w s] by auto

section \<open>The registry: revoking\<close>

lemma Revoke_update:
  assumes "lookup (entries s) cid = Some (Ptr a)" and "Status (heap s a) \<noteq> StatusRevoked"
  shows "Revoke now w cid reason s =
           (Returns (save w (s\<lparr> heap := (heap s)(a := (heap s a)
                  \<lparr> Status := StatusRevoked, RevokedAt := now, Reason := reason \<rparr>) \<rparr>)),
            s\<lparr> heap := (heap s)(a := (heap s a)
                  \<lparr> Status := StatusRevoked, RevokedAt := now, Reason := reason \<rparr>) \<rparr>)"
  using assms by (simp add: Revoke_def Let_def)

lemma Revoke_result:
  "fst (Revoke now w cid reason s) =
     (case lookup (entries s) cid of
        None \<Rightarrow> Returns (Some ErrCredentialNotFound)
      | Some NilPtr \<Rightarrow> Panics
      | Some (Ptr a) \<Rightarrow>
          if Status (heap s a) = StatusRevoked then Returns (Some ErrAlreadyRevoked)
          else Returns (save w (s\<lparr> heap := (heap s)(a := (heap s a)
                  \<lparr> Status := StatusRevoked, RevokedAt := now, Reason := reason \<rparr>) \<rparr>)))"
  by (simp add: Revoke_def Let_def split: option.splits ptr.splits)

lemma Revoke_state:
  "snd (Revoke now w cid reason s) =
     (case lookup (entries s) cid of
        None \<Rightarrow> s
      | Some NilPtr \<Rightarrow> s
      | Some (Ptr a) \<Rightarrow>
          if Status (heap s a) = StatusRevoked then s
          else s\<lparr> heap := (heap s)(a := (heap s a)
                  \<lparr> Status := StatusRevoked, RevokedAt := now, Reason := reason \<rparr>) \<rparr>)"
  by (simp add: Revoke_def Let_def split: option.splits ptr.splits)

lemma Revoke_NotFound_iff:
  "fst (Revoke now w cid reason s) = Returns (Some ErrCredentialNotFound)
   \<longleftrightarrow> lookup (entries s) cid = None"
  unfolding Revoke_result
  by (simp add: save_not_package_error split: option.splits ptr.splits)

lemma Revoke_Panics_iff:
  "fst (Revoke now w cid reason s) = Panics \<longleftrightarrow> lookup (entries s) cid = Some NilPtr"
  unfolding Revoke_result by (auto split: option.splits ptr.splits)

lemma Revoke_AlreadyRevoked_iff:
  "fst (Revoke now w cid reason s) = Returns (Some ErrAlreadyRevoked)
   \<longleftrightarrow> (\<exists>a. lookup (entries s) cid = Some (Ptr a) \<and> Status (heap s a) = StatusRevoked)"
  unfolding Revoke_result
  by (simp add: save_not_package_error split: option.splits ptr.splits)

subsection \<open>The example states, evaluated\<close>

lemma registered_simps:
  "entries registered = Map [(example_id, Ptr 0)]"
  "path registered = []"
  "next_addr registered = 1"
  "heap registered 0 = \<lparr> CredentialID = example_id, IssuerDID = ''did:key:zIssuer'',
      SubjectDID = ''did:key:zSubject'', Status = StatusActive, IssuedAt = 100,
      RevokedAt = 0, Reason = [] \<rparr>"
  by (simp_all add: registered_def Register_def NewRegistry_def Let_def)

lemma revoked_simps:
  "entries revoked = Map [(example_id, Ptr 0)]"
  "path revoked = []"
  "heap revoked 0 = \<lparr> CredentialID = example_id, IssuerDID = ''did:key:zIssuer'',
      SubjectDID = ''did:key:zSubject'', Status = StatusRevoked, IssuedAt = 100,
      RevokedAt = 200, Reason = ''fraud detected'' \<rparr>"
  by (simp_all add: revoked_def Revoke_def registered_simps Let_def StatusActive_def
      StatusRevoked_def)

lemma file_registered_simps:
  "entries file_registered = Map [(example_id, Ptr 0)]"
  "path file_registered = ''/no/such/dir/registry.json''"
  "heap file_registered 0 = \<lparr> CredentialID = example_id, IssuerDID = ''did:key:zIssuer'',
      SubjectDID = ''did:key:zSubject'', Status = StatusActive, IssuedAt = 100,
      RevokedAt = 0, Reason = [] \<rparr>"
  by (simp_all add: file_registered_def file_registry_def Register_def NewRegistry_def Let_def)

lemma null_entry_registry_simps:
  "entries null_entry_registry = Map [(example_id, NilPtr)]"
  "path null_entry_registry = ''registry.json''"
  by (simp_all add: null_entry_registry_def)

lemma NewRegistryWithFile_NoFile:
  "NewRegistryWithFile ''/no/such/dir/registry.json'' NoFile = Inr file_registry"
  by (simp add: NewRegistryWithFile_def file_registry_def)

lemma NewRegistryWithFile_null_entry:
  "NewRegistryWithFile ''registry.json'' (Loaded [(example_id, None)]) = Inr null_entry_registry"
  by (simp add: NewRegistryWithFile_def null_entry_registry_def NewRegistry_def)

lemma year_0_to_9999_examples:
  "year_0_to_9999 0" "year_0_to_9999 100" "year_0_to_9999 200"
  "\<not> year_0_to_9999 (3652059 * 24 * Hour)"
  by (simp_all add: year_0_to_9999_def Hour_def Minute_def Second_def)

text \<open>
  Claim C10. Whenever \<open>Revoke\<close> returns \<open>ErrCredentialNotFound\<close> or
  \<open>ErrAlreadyRevoked\<close>, the state after the call is the state before it: the map, the
  entries its pointers lead to, and everything else.
\<close>

theorem Revoke_error_leaves_state:
  assumes "fst (Revoke now write_ok credentialID reason s) = Returns (Some ErrCredentialNotFound)
         \<or> fst (Revoke now write_ok credentialID reason s) = Returns (Some ErrAlreadyRevoked)"
  shows "snd (Revoke now write_ok credentialID reason s) = s"
proof -
  from assms have "lookup (entries s) credentialID = None
      \<or> (\<exists>a. lookup (entries s) credentialID = Some (Ptr a)
              \<and> Status (heap s a) = StatusRevoked)"
    by (simp add: Revoke_NotFound_iff Revoke_AlreadyRevoked_iff)
  then show ?thesis
    by (auto simp: Revoke_state)
qed

text \<open>C10 on a registry without the credential, and on one where it is revoked already.\<close>

theorem Revoke_error_leaves_state_witness:
  "fst (Revoke 200 True example_id ''r'' NewRegistry) = Returns (Some ErrCredentialNotFound)
 \<and> snd (Revoke 200 True example_id ''r'' NewRegistry) = NewRegistry
 \<and> fst (Revoke 300 True example_id ''r2'' revoked) = Returns (Some ErrAlreadyRevoked)
 \<and> snd (Revoke 300 True example_id ''r2'' revoked) = revoked"
proof -
  have a: "fst (Revoke 200 True example_id ''r'' NewRegistry)
             = Returns (Some ErrCredentialNotFound)"
    by (simp add: Revoke_def NewRegistry_def)
  have b: "fst (Revoke 300 True example_id ''r2'' revoked) = Returns (Some ErrAlreadyRevoked)"
    by (simp add: Revoke_def revoked_simps)
  show ?thesis
    using a b
      Revoke_error_leaves_state [of 200 True example_id "''r''" NewRegistry]
      Revoke_error_leaves_state [of 300 True example_id "''r2''" revoked]
    by simp
qed

text \<open>
  Claim C8, as the code has it. \<open>Revoke\<close> returns \<open>ErrCredentialNotFound\<close> exactly
  when the map has no entry for the id. It panics exactly when the map holds a nil pointer
  under the id, which is what a registry file with \<open>null\<close> for the id leaves there. It
  returns \<open>ErrAlreadyRevoked\<close> exactly when the entry's status is \<open>revoked\<close>.
  Otherwise it sets the status to \<open>revoked\<close>, the revocation time to the current time
  and the reason to the one given, and returns what \<open>save\<close> returns: \<open>nil\<close> when the
  registry has no file; with a file, the error of the serialisation when an entry of the map
  has a time outside the years 0 to 9999, else \<open>nil\<close> when the write succeeds and the
  error of the write when it fails. Whatever \<open>save\<close> returns, the entry is revoked from
  then on: \<open>IsRevoked\<close> returns true, and a second \<open>Revoke\<close> of the id returns
  \<open>ErrAlreadyRevoked\<close>.
\<close>

theorem Revoke_cases:
  "(fst (Revoke now write_ok credentialID reason s) = Returns (Some ErrCredentialNotFound)
      \<longleftrightarrow> lookup (entries s) credentialID = None)
 \<and> (fst (Revoke now write_ok credentialID reason s) = Panics
      \<longleftrightarrow> lookup (entries s) credentialID = Some NilPtr)
 \<and> (fst (Revoke now write_ok credentialID reason s) = Returns (Some ErrAlreadyRevoked)
      \<longleftrightarrow> (\<exists>a. lookup (entries s) credentialID = Some (Ptr a)
              \<and> Status (heap s a) = StatusRevoked))
 \<and> (\<forall>a. lookup (entries s) credentialID = Some (Ptr a) \<and> Status (heap s a) \<noteq> StatusRevoked
      \<longrightarrow> snd (Revoke now write_ok credentialID reason s)
            = s\<lparr> heap := (heap s)(a := (heap s a)
                  \<lparr> Status := StatusRevoked, RevokedAt := now, Reason := reason \<rparr>) \<rparr>
        \<and> fst (Revoke now write_ok credentialID reason s)
            = Returns
                (if path s = [] then None
                 else if Export (snd (Revoke now write_ok credentialID reason s))
                           = Inl ErrMarshal
                      then Some ErrMarshal
                 else if write_ok then None
                 else Some ErrWriteFile)
        \<and> (Export (snd (Revoke now write_ok credentialID reason s)) = Inl ErrMarshal
             \<longleftrightarrow> \<not> year_0_to_9999 now
                 \<or> (\<exists>k b. lookup (entries s) k = Some (Ptr b)
                      \<and> \<not> (year_0_to_9999 (IssuedAt (heap s b))
                            \<and> (b = a \<or> year_0_to_9999 (RevokedAt (heap s b))))))
        \<and> IsRevoked credentialID (snd (Revoke now write_ok credentialID reason s))
            = Returns (Inr True)
        \<and> fst (Revoke now' write_ok' credentialID reason'
                  (snd (Revoke now write_ok credentialID reason s)))
            = Returns (Some ErrAlreadyRevoked))"
proof (intro conjI allI impI)
  show "fst (Revoke now write_ok credentialID reason s) = Returns (Some ErrCredentialNotFound)
      \<longleftrightarrow> lookup (entries s) credentialID = None"
    by (rule Revoke_NotFound_iff)
  show "fst (Revoke now write_ok credentialID reason s) = Panics
      \<longleftrightarrow> lookup (entries s) credentialID = Some NilPtr"
    by (rule Revoke_Panics_iff)
  show "fst (Revoke now write_ok credentialID reason s) = Returns (Some ErrAlreadyRevoked)
      \<longleftrightarrow> (\<exists>a. lookup (entries s) credentialID = Some (Ptr a)
              \<and> Status (heap s a) = StatusRevoked)"
    by (rule Revoke_AlreadyRevoked_iff)
next
  fix a
  assume h: "lookup (entries s) credentialID = Some (Ptr a)
           \<and> Status (heap s a) \<noteq> StatusRevoked"
  define s' where "s' = s\<lparr> heap := (heap s)(a := (heap s a)
                  \<lparr> Status := StatusRevoked, RevokedAt := now, Reason := reason \<rparr>) \<rparr>"
  have r: "Revoke now write_ok credentialID reason s = (Returns (save write_ok s'), s')"
    using h unfolding s'_def by (simp add: Revoke_update)
  have s'_simps: "entries s' = entries s" "path s' = path s"
    "\<And>b. heap s' b = (if b = a then (heap s a)
                  \<lparr> Status := StatusRevoked, RevokedAt := now, Reason := reason \<rparr>
                        else heap s b)"
    by (simp_all add: s'_def)
  show "snd (Revoke now write_ok credentialID reason s)
            = s\<lparr> heap := (heap s)(a := (heap s a)
                  \<lparr> Status := StatusRevoked, RevokedAt := now, Reason := reason \<rparr>) \<rparr>"
    by (simp add: r s'_def)
  show "fst (Revoke now write_ok credentialID reason s)
            = Returns
                (if path s = [] then None
                 else if Export (snd (Revoke now write_ok credentialID reason s))
                           = Inl ErrMarshal
                      then Some ErrMarshal
                 else if write_ok then None
                 else Some ErrWriteFile)"
    by (simp add: r save_Export s'_simps)
  show "Export (snd (Revoke now write_ok credentialID reason s)) = Inl ErrMarshal
             \<longleftrightarrow> \<not> year_0_to_9999 now
                 \<or> (\<exists>k b. lookup (entries s) k = Some (Ptr b)
                      \<and> \<not> (year_0_to_9999 (IssuedAt (heap s b))
                            \<and> (b = a \<or> year_0_to_9999 (RevokedAt (heap s b)))))"
  proof
    assume "Export (snd (Revoke now write_ok credentialID reason s)) = Inl ErrMarshal"
    then obtain k b where kb: "lookup (entries s) k = Some (Ptr b)"
      "\<not> (year_0_to_9999 (IssuedAt (heap s' b)) \<and> year_0_to_9999 (RevokedAt (heap s' b)))"
      unfolding r snd_conv Export_error_iff s'_simps(1) by blast
    show "\<not> year_0_to_9999 now
                 \<or> (\<exists>k b. lookup (entries s) k = Some (Ptr b)
                      \<and> \<not> (year_0_to_9999 (IssuedAt (heap s b))
                            \<and> (b = a \<or> year_0_to_9999 (RevokedAt (heap s b)))))"
    proof (cases "b = a")
      case True
      with kb show ?thesis by (auto simp: s'_simps)
    next
      case False
      with kb show ?thesis by (auto simp: s'_simps)
    qed
  next
    assume d: "\<not> year_0_to_9999 now
                 \<or> (\<exists>k b. lookup (entries s) k = Some (Ptr b)
                      \<and> \<not> (year_0_to_9999 (IssuedAt (heap s b))
                            \<and> (b = a \<or> year_0_to_9999 (RevokedAt (heap s b)))))"
    have "\<exists>k b. lookup (entries s') k = Some (Ptr b)
          \<and> \<not> (year_0_to_9999 (IssuedAt (heap s' b)) \<and> year_0_to_9999 (RevokedAt (heap s' b)))"
    proof (cases "year_0_to_9999 now")
      case False
      with h have "lookup (entries s') credentialID = Some (Ptr a)
          \<and> \<not> (year_0_to_9999 (IssuedAt (heap s' a)) \<and> year_0_to_9999 (RevokedAt (heap s' a)))"
        by (simp add: s'_simps)
      then show ?thesis by blast
    next
      case True
      with d obtain k b where kb: "lookup (entries s) k = Some (Ptr b)"
        "\<not> (year_0_to_9999 (IssuedAt (heap s b))
                            \<and> (b = a \<or> year_0_to_9999 (RevokedAt (heap s b))))"
        by blast
      then have "lookup (entries s') k = Some (Ptr b)
          \<and> \<not> (year_0_to_9999 (IssuedAt (heap s' b)) \<and> year_0_to_9999 (RevokedAt (heap s' b)))"
        by (cases "b = a") (auto simp: s'_simps)
      then show ?thesis by blast
    qed
    then show "Export (snd (Revoke now write_ok credentialID reason s)) = Inl ErrMarshal"
      unfolding r snd_conv Export_error_iff .
  qed
  show "IsRevoked credentialID (snd (Revoke now write_ok credentialID reason s))
            = Returns (Inr True)"
    using h by (simp add: r IsRevoked_def CheckStatus_def s'_simps)
  show "fst (Revoke now' write_ok' credentialID reason'
                  (snd (Revoke now write_ok credentialID reason s)))
            = Returns (Some ErrAlreadyRevoked)"
    using h by (simp add: r Revoke_AlreadyRevoked_iff s'_simps)
qed

text \<open>
  The cases of C8 on the example states: the scenario of the specification (register,
  revoke with the reason \<open>fraud detected\<close>, revoke again), a revocation whose write
  fails, one at a time that cannot be serialised, and one of an id for which the registry
  file holds \<open>null\<close>.
\<close>

theorem Revoke_cases_witness:
  "fst (Revoke 200 True example_id ''fraud detected'' NewRegistry)
     = Returns (Some ErrCredentialNotFound)
 \<and> fst (Revoke 200 True example_id ''fraud detected'' registered) = Returns None
 \<and> snd (Revoke 200 True example_id ''fraud detected'' registered) = revoked
 \<and> Status (heap revoked 0) = ''revoked''
 \<and> RevokedAt (heap revoked 0) = 200
 \<and> Reason (heap revoked 0) = ''fraud detected''
 \<and> IsRevoked example_id revoked = Returns (Inr True)
 \<and> fst (Revoke 300 True example_id ''again'' revoked) = Returns (Some ErrAlreadyRevoked)
 \<and> fst (Revoke 200 False example_id ''fraud detected'' file_registered)
     = Returns (Some ErrWriteFile)
 \<and> IsRevoked example_id (snd (Revoke 200 False example_id ''fraud detected'' file_registered))
     = Returns (Inr True)
 \<and> fst (Revoke (3652059 * 24 * Hour) True example_id ''fraud detected'' file_registered)
     = Returns (Some ErrMarshal)
 \<and> fst (Revoke 200 True example_id ''fraud detected'' null_entry_registry) = Panics"
proof -
  have active: "lookup (entries registered) example_id = Some (Ptr 0)
              \<and> Status (heap registered 0) \<noteq> StatusRevoked"
    by (simp add: registered_simps StatusActive_def StatusRevoked_def)
  have factive: "lookup (entries file_registered) example_id = Some (Ptr 0)
              \<and> Status (heap file_registered 0) \<noteq> StatusRevoked"
    by (simp add: file_registered_simps StatusActive_def StatusRevoked_def)
  have none: "lookup (entries NewRegistry) example_id = None"
    by (simp add: NewRegistry_def)
  have nil: "lookup (entries null_entry_registry) example_id = Some NilPtr"
    by (simp add: null_entry_registry_simps)
  have in_years: "\<not> (\<not> year_0_to_9999 200
                 \<or> (\<exists>k b. lookup (entries file_registered) k = Some (Ptr b)
                      \<and> \<not> (year_0_to_9999 (IssuedAt (heap file_registered b))
                            \<and> (b = 0 \<or> year_0_to_9999 (RevokedAt (heap file_registered b))))))"
    by (auto simp: file_registered_simps year_0_to_9999_examples split: if_splits)
  note c1 = Revoke_cases [of 200 True example_id "''fraud detected''" NewRegistry]
  note c2 = Revoke_cases [of 200 True example_id "''fraud detected''" registered 300 True
      "''again''"]
  note c3 = Revoke_cases [of 200 False example_id "''fraud detected''" file_registered]
  note c4 = Revoke_cases [of "3652059 * 24 * Hour" True example_id "''fraud detected''"
      file_registered]
  note c5 = Revoke_cases [of 200 True example_id "''fraud detected''" null_entry_registry]
  have "fst (Revoke 200 True example_id ''fraud detected'' NewRegistry)
          = Returns (Some ErrCredentialNotFound)"
    using c1 none by blast
  moreover have "fst (Revoke 200 True example_id ''fraud detected'' registered) = Returns None"
    using c2 active by (simp add: registered_simps)
  moreover have "IsRevoked example_id revoked = Returns (Inr True)"
    using c2 active unfolding revoked_def by blast
  moreover have "fst (Revoke 300 True example_id ''again'' revoked)
                   = Returns (Some ErrAlreadyRevoked)"
    using c2 active unfolding revoked_def by blast
  moreover have "fst (Revoke 200 False example_id ''fraud detected'' file_registered)
                   = Returns (Some ErrWriteFile)"
  proof -
    from c3 factive have
      e: "(Export (snd (Revoke 200 False example_id ''fraud detected'' file_registered))
             = Inl ErrMarshal)
          = (\<not> year_0_to_9999 200
                 \<or> (\<exists>k b. lookup (entries file_registered) k = Some (Ptr b)
                      \<and> \<not> (year_0_to_9999 (IssuedAt (heap file_registered b))
                            \<and> (b = 0 \<or> year_0_to_9999 (RevokedAt (heap file_registered b))))))"
      and f: "fst (Revoke 200 False example_id ''fraud detected'' file_registered)
            = Returns
                (if path file_registered = [] then None
                 else if Export (snd (Revoke 200 False example_id ''fraud detected''
                                        file_registered))
                           = Inl ErrMarshal
                      then Some ErrMarshal
                 else if False then None
                 else Some ErrWriteFile)"
      by blast+
    from e in_years
    have "Export (snd (Revoke 200 False example_id ''fraud detected'' file_registered))
             \<noteq> Inl ErrMarshal"
      by simp
    with f show ?thesis
      by (simp add: file_registered_simps)
  qed
  moreover have "IsRevoked example_id
       (snd (Revoke 200 False example_id ''fraud detected'' file_registered))
       = Returns (Inr True)"
    using c3 factive by blast
  moreover have "fst (Revoke (3652059 * 24 * Hour) True example_id ''fraud detected''
                        file_registered)
                   = Returns (Some ErrMarshal)"
  proof -
    from c4 factive have
      e: "(Export (snd (Revoke (3652059 * 24 * Hour) True example_id ''fraud detected''
                          file_registered))
             = Inl ErrMarshal)
          = (\<not> year_0_to_9999 (3652059 * 24 * Hour)
                 \<or> (\<exists>k b. lookup (entries file_registered) k = Some (Ptr b)
                      \<and> \<not> (year_0_to_9999 (IssuedAt (heap file_registered b))
                            \<and> (b = 0 \<or> year_0_to_9999 (RevokedAt (heap file_registered b))))))"
      and f: "fst (Revoke (3652059 * 24 * Hour) True example_id ''fraud detected''
                     file_registered)
            = Returns
                (if path file_registered = [] then None
                 else if Export (snd (Revoke (3652059 * 24 * Hour) True example_id
                                        ''fraud detected'' file_registered))
                           = Inl ErrMarshal
                      then Some ErrMarshal
                 else if True then None
                 else Some ErrWriteFile)"
      by blast+
    from e year_0_to_9999_examples(4)
    have "Export (snd (Revoke (3652059 * 24 * Hour) True example_id ''fraud detected''
                          file_registered)) = Inl ErrMarshal"
      by blast
    with f show ?thesis
      by (simp add: file_registered_simps)
  qed
  moreover have "fst (Revoke 200 True example_id ''fraud detected'' null_entry_registry)
                   = Panics"
    using c5 nil by blast
  ultimately show ?thesis
    by (simp add: revoked_simps StatusRevoked_def) (simp add: revoked_def)
qed

text \<open>
  C8 as the specification states it fails in two ways. \<open>And otherwise succeeds\<close> fails
  on a registry with a file that cannot be written: the entry exists and is active, and
  \<open>Revoke\<close> returns the error of the write. And the three outcomes are not all there
  are: \<open>NewRegistryWithFile\<close> loads a file that holds \<open>null\<close> for a credential id
  without an error, and \<open>Revoke\<close> of that id panics.
\<close>

theorem Revoke_not_success_counterexample:
  "NewRegistryWithFile ''/no/such/dir/registry.json'' NoFile = Inr file_registry
 \<and> file_registered
     = snd (Register 100 False example_id ''did:key:zIssuer'' ''did:key:zSubject''
              file_registry)
 \<and> lookup (entries file_registered) example_id = Some (Ptr 0)
 \<and> Status (heap file_registered 0) = StatusActive
 \<and> fst (Revoke 200 False example_id ''fraud detected'' file_registered)
     = Returns (Some ErrWriteFile)
 \<and> NewRegistryWithFile ''registry.json'' (Loaded [(example_id, None)])
     = Inr null_entry_registry
 \<and> lookup (entries null_entry_registry) example_id = Some NilPtr
 \<and> fst (Revoke 200 True example_id ''fraud detected'' null_entry_registry) = Panics"
proof -
  have m: "Export (file_registered
             \<lparr> heap := (heap file_registered)(0 := (heap file_registered 0)
                  \<lparr> Status := StatusRevoked, RevokedAt := 200,
                    Reason := ''fraud detected'' \<rparr>) \<rparr>) \<noteq> Inl ErrMarshal"
    unfolding Export_error_iff
    by (auto simp: file_registered_simps year_0_to_9999_examples split: if_splits)
  have "fst (Revoke 200 False example_id ''fraud detected'' file_registered)
     = Returns (Some ErrWriteFile)"
    using m
    by (simp add: Revoke_result save_Export file_registered_simps StatusActive_def
        StatusRevoked_def)
  moreover have "fst (Revoke 200 True example_id ''fraud detected'' null_entry_registry)
     = Panics"
    by (simp add: Revoke_result null_entry_registry_simps)
  ultimately show ?thesis
    by (simp add: NewRegistryWithFile_NoFile NewRegistryWithFile_null_entry
        file_registered_simps null_entry_registry_simps)
      (simp add: file_registered_def)
qed

section \<open>The registry: CheckStatus returns the stored entry\<close>

text \<open>
  Claim C3, as the code has it. \<open>CheckStatus\<close> fails, with \<open>ErrCredentialNotFound\<close>
  and no other error, exactly when the map has no entry for the id. Otherwise it returns
  the pointer the map holds, not a copy: whatever the caller writes through that pointer is
  the entry that a later \<open>CheckStatus\<close>, \<open>IsRevoked\<close> or \<open>Export\<close> finds under the
  id. \<open>Export\<close> shows it as JSON: it fails when the entry written has a time outside the
  years 0 to 9999, and a successful export holds the serialised entry, under the id with
  its bytes that are not well-formed UTF-8 replaced.
\<close>

theorem CheckStatus_returns_stored_entry:
  "(CheckStatus credentialID s = Inl ErrCredentialNotFound
      \<longleftrightarrow> lookup (entries s) credentialID = None)
 \<and> (\<forall>err. CheckStatus credentialID s = Inl err \<longrightarrow> err = ErrCredentialNotFound)
 \<and> (\<forall>p. CheckStatus credentialID s = Inr p \<longrightarrow>
        lookup (entries s) credentialID = Some p
      \<and> (\<forall>a e. p = Ptr a \<longrightarrow>
               CheckStatus credentialID (store a e s) = Inr p
             \<and> heap (store a e s) a = e
             \<and> IsRevoked credentialID (store a e s) = Returns (Inr (Status e = StatusRevoked))
             \<and> (marshal_Entry e = None \<longrightarrow> Export (store a e s) = Inl ErrMarshal)
             \<and> (\<forall>j. Export (store a e s) = Inr j \<longrightarrow>
                   (\<exists>je ms. marshal_Entry e = Some je \<and> j = JObject ms
                          \<and> (coerce_utf8 credentialID, je) \<in> set ms))))"
proof (intro conjI allI impI)
  show "CheckStatus credentialID s = Inl ErrCredentialNotFound
      \<longleftrightarrow> lookup (entries s) credentialID = None"
    by (simp add: CheckStatus_def split: option.splits)
next
  fix err assume "CheckStatus credentialID s = Inl err"
  then show "err = ErrCredentialNotFound"
    by (simp add: CheckStatus_def split: option.splits)
next
  fix p assume "CheckStatus credentialID s = Inr p"
  then show "lookup (entries s) credentialID = Some p"
    by (simp add: CheckStatus_def split: option.splits)
next
  fix p a e
  assume c: "CheckStatus credentialID s = Inr p" and p: "p = Ptr a"
  from c p have l: "lookup (entries s) credentialID = Some (Ptr a)"
    by (simp add: CheckStatus_def split: option.splits)
  have st: "entries (store a e s) = entries s" "heap (store a e s) a = e"
    by (simp_all add: store_def)
  show "CheckStatus credentialID (store a e s) = Inr p"
    using l p by (simp add: CheckStatus_def st)
  show "heap (store a e s) a = e"
    by (rule st)
  show "IsRevoked credentialID (store a e s) = Returns (Inr (Status e = StatusRevoked))"
    using l by (simp add: IsRevoked_def CheckStatus_def st)
  show "Export (store a e s) = Inl ErrMarshal" if "marshal_Entry e = None"
  proof -
    from that l have "lookup (entries (store a e s)) credentialID = Some (Ptr a)
        \<and> \<not> (year_0_to_9999 (IssuedAt (heap (store a e s) a))
             \<and> year_0_to_9999 (RevokedAt (heap (store a e s) a)))"
      by (simp add: st marshal_Entry_None_iff)
    then show ?thesis
      unfolding Export_error_iff by blast
  qed
  show "\<exists>je ms. marshal_Entry e = Some je \<and> j = JObject ms
                          \<and> (coerce_utf8 credentialID, je) \<in> set ms"
    if "Export (store a e s) = Inr j" for j
    using Export_member [OF that, of credentialID a] l by (simp add: st)
qed

lemma Export_single:
  "entries s = Map [(k, Ptr a)] \<Longrightarrow>
   Export s = (case marshal_Entry (heap s a) of
                 None \<Rightarrow> Inl ErrMarshal
               | Some j \<Rightarrow> Inr (JObject [(coerce_utf8 k, j)]))"
  by (simp add: Export_def MarshalIndent_def split: option.splits)

lemma marshal_Entry_example:
  "marshal_Entry \<lparr> CredentialID = example_id, IssuerDID = ''did:key:zIssuer'',
      SubjectDID = ''did:key:zSubject'', Status = st, IssuedAt = 100,
      RevokedAt = 0, Reason = r \<rparr>
   = Some (JObject
       ([(''credentialId'', JString example_id),
         (''issuerDid'', JString ''did:key:zIssuer''),
         (''subjectDid'', JString ''did:key:zSubject''),
         (''status'', JString (coerce_utf8 st)),
         (''issuedAt'', JTime 100),
         (''revokedAt'', JTime 0)]
        @ (if r = [] then [] else [(''reason'', JString (coerce_utf8 r))])))"
proof -
  have "coerce_utf8 example_id = example_id"
    unfolding example_id_def by (rule coerce_utf8_ascii) simp
  moreover have "coerce_utf8 ''did:key:zIssuer'' = ''did:key:zIssuer''"
    by (rule coerce_utf8_ascii) simp
  moreover have "coerce_utf8 ''did:key:zSubject'' = ''did:key:zSubject''"
    by (rule coerce_utf8_ascii) simp
  ultimately show ?thesis
    by (simp add: marshal_Entry_def marshal_Time_def year_0_to_9999_examples json_field_def
        json_field_omitempty_def marshal_string_def)
qed

lemma coerce_utf8_status:
  "coerce_utf8 StatusActive = ''active''"
  "coerce_utf8 StatusRevoked = ''revoked''"
  "coerce_utf8 ''changed by the caller'' = ''changed by the caller''"
  unfolding StatusActive_def StatusRevoked_def
  by (rule coerce_utf8_ascii, simp)+

text \<open>
  C3 on the registered example: an id that is absent, a write through the pointer, which
  the next export shows, and the write of a time that cannot be serialised, with which the
  next export fails.
\<close>

theorem CheckStatus_returns_stored_entry_witness:
  "CheckStatus ''urn:uuid:nonexistent'' registered = Inl ErrCredentialNotFound
 \<and> CheckStatus example_id registered = Inr (Ptr 0)
 \<and> lookup (entries registered) example_id = Some (Ptr 0)
 \<and> heap (store 0 ((heap registered 0)\<lparr>Reason := ''changed by the caller''\<rparr>) registered) 0
     = (heap registered 0)\<lparr>Reason := ''changed by the caller''\<rparr>
 \<and> IsRevoked example_id
      (store 0 ((heap registered 0)\<lparr>Reason := ''changed by the caller''\<rparr>) registered)
     = Returns (Inr False)
 \<and> Export (store 0 ((heap registered 0)\<lparr>Reason := ''changed by the caller''\<rparr>) registered)
     = Inr (JObject [(example_id, JObject
         [(''credentialId'', JString example_id),
          (''issuerDid'', JString ''did:key:zIssuer''),
          (''subjectDid'', JString ''did:key:zSubject''),
          (''status'', JString ''active''),
          (''issuedAt'', JTime 100),
          (''revokedAt'', JTime 0),
          (''reason'', JString ''changed by the caller'')])])
 \<and> Export (store 0 ((heap registered 0)\<lparr>IssuedAt := 3652059 * 24 * Hour\<rparr>) registered)
     = Inl ErrMarshal"
proof -
  let ?e = "(heap registered 0)\<lparr>Reason := ''changed by the caller''\<rparr>"
  let ?bad = "(heap registered 0)\<lparr>IssuedAt := 3652059 * 24 * Hour\<rparr>"
  have none: "lookup (entries registered) ''urn:uuid:nonexistent'' = None"
    by (simp add: registered_simps example_id_def)
  have some: "CheckStatus example_id registered = Inr (Ptr 0)"
    by (simp add: CheckStatus_def registered_simps)
  have id: "coerce_utf8 example_id = example_id"
    unfolding example_id_def by (rule coerce_utf8_ascii) simp
  have ex: "Export (store 0 ?e registered)
     = Inr (JObject [(example_id, JObject
         [(''credentialId'', JString example_id),
          (''issuerDid'', JString ''did:key:zIssuer''),
          (''subjectDid'', JString ''did:key:zSubject''),
          (''status'', JString ''active''),
          (''issuedAt'', JTime 100),
          (''revokedAt'', JTime 0),
          (''reason'', JString ''changed by the caller'')])])"
    by (subst Export_single [of _ example_id 0])
      (simp_all add: store_def registered_simps marshal_Entry_example coerce_utf8_status id)
  have bad: "marshal_Entry ?bad = None"
    using year_0_to_9999_examples(4) by (simp add: marshal_Entry_None_iff)
  note absent = CheckStatus_returns_stored_entry [of "''urn:uuid:nonexistent''" registered]
  note present = CheckStatus_returns_stored_entry [of example_id registered]
  have a: "CheckStatus ''urn:uuid:nonexistent'' registered = Inl ErrCredentialNotFound"
    using absent none by blast
  have b: "lookup (entries registered) example_id = Some (Ptr 0)"
    using present some by blast
  have c: "heap (store 0 ?e registered) 0 = ?e"
    using present some by blast
  have d: "IsRevoked example_id (store 0 ?e registered)
             = Returns (Inr (Status ?e = StatusRevoked))"
    using present some by blast
  have f: "Export (store 0 ?bad registered) = Inl ErrMarshal"
    using present some bad by blast
  from d have d': "IsRevoked example_id (store 0 ?e registered) = Returns (Inr False)"
    by (simp add: registered_simps StatusActive_def StatusRevoked_def)
  from a some b c d' ex f show ?thesis
    by (intro conjI)
qed

text \<open>
  C3 as the specification states it, that the caller gets a copy, fails: a caller that sets
  the status of the entry it was given revokes the credential in the registry, without any
  call of \<open>Revoke\<close>, and the next export has the entry as revoked.
\<close>

theorem CheckStatus_copy_counterexample:
  "CheckStatus example_id registered = Inr (Ptr 0)
 \<and> IsRevoked example_id registered = Returns (Inr False)
 \<and> IsRevoked example_id
      (store 0 ((heap registered 0)\<lparr>Status := StatusRevoked\<rparr>) registered)
     = Returns (Inr True)
 \<and> Export registered = Inr (JObject [(example_id, JObject
         [(''credentialId'', JString example_id),
          (''issuerDid'', JString ''did:key:zIssuer''),
          (''subjectDid'', JString ''did:key:zSubject''),
          (''status'', JString ''active''),
          (''issuedAt'', JTime 100),
          (''revokedAt'', JTime 0)])])
 \<and> Export (store 0 ((heap registered 0)\<lparr>Status := StatusRevoked\<rparr>) registered)
     = Inr (JObject [(example_id, JObject
         [(''credentialId'', JString example_id),
          (''issuerDid'', JString ''did:key:zIssuer''),
          (''subjectDid'', JString ''did:key:zSubject''),
          (''status'', JString ''revoked''),
          (''issuedAt'', JTime 100),
          (''revokedAt'', JTime 0)])])"
proof -
  have id: "coerce_utf8 example_id = example_id"
    unfolding example_id_def by (rule coerce_utf8_ascii) simp
  have a: "Export registered = Inr (JObject [(example_id, JObject
         [(''credentialId'', JString example_id),
          (''issuerDid'', JString ''did:key:zIssuer''),
          (''subjectDid'', JString ''did:key:zSubject''),
          (''status'', JString ''active''),
          (''issuedAt'', JTime 100),
          (''revokedAt'', JTime 0)])])"
    by (subst Export_single [of _ example_id 0])
      (simp_all add: registered_simps marshal_Entry_example coerce_utf8_status id)
  have b: "Export (store 0 ((heap registered 0)\<lparr>Status := StatusRevoked\<rparr>) registered)
     = Inr (JObject [(example_id, JObject
         [(''credentialId'', JString example_id),
          (''issuerDid'', JString ''did:key:zIssuer''),
          (''subjectDid'', JString ''did:key:zSubject''),
          (''status'', JString ''revoked''),
          (''issuedAt'', JTime 100),
          (''revokedAt'', JTime 0)])])"
    by (subst Export_single [of _ example_id 0])
      (simp_all add: store_def registered_simps marshal_Entry_example coerce_utf8_status id)
  have c: "CheckStatus example_id registered = Inr (Ptr 0)
 \<and> IsRevoked example_id registered = Returns (Inr False)
 \<and> IsRevoked example_id
      (store 0 ((heap registered 0)\<lparr>Status := StatusRevoked\<rparr>) registered)
     = Returns (Inr True)"
    by (simp add: CheckStatus_def IsRevoked_def store_def registered_simps
        StatusActive_def StatusRevoked_def)
  from a b c show ?thesis
    by (intro conjI) blast+
qed

section \<open>The registry: sequences of calls\<close>

lemma Register_fields:
  assumes "entries s \<noteq> NilMap"
  shows "lookup (entries (snd (Register now w cid iss sub s)))
           = (lookup (entries s))(cid \<mapsto> Ptr (next_addr s))"
    and "entries (snd (Register now w cid iss sub s)) \<noteq> NilMap"
    and "next_addr (snd (Register now w cid iss sub s)) = next_addr s + 1"
    and "heap (snd (Register now w cid iss sub s)) =
     (heap s)(next_addr s := \<lparr> CredentialID = cid, IssuerDID = iss, SubjectDID = sub,
        Status = StatusActive, IssuedAt = now, RevokedAt = 0, Reason = [] \<rparr>)"
proof -
  from assms obtain kvs where kvs: "entries s = Map kvs"
    by (cases "entries s") auto
  show "lookup (entries (snd (Register now w cid iss sub s)))
           = (lookup (entries s))(cid \<mapsto> Ptr (next_addr s))"
    by (rule ext) (simp add: Register_def Let_def kvs update_conv')
  show "entries (snd (Register now w cid iss sub s)) \<noteq> NilMap"
    by (simp add: Register_def Let_def kvs)
  show "next_addr (snd (Register now w cid iss sub s)) = next_addr s + 1"
    by (simp add: Register_def Let_def kvs)
  show "heap (snd (Register now w cid iss sub s)) =
     (heap s)(next_addr s := \<lparr> CredentialID = cid, IssuerDID = iss, SubjectDID = sub,
        Status = StatusActive, IssuedAt = now, RevokedAt = 0, Reason = [] \<rparr>)"
    by (simp add: Register_def Let_def kvs)
qed

lemma registry_inv_empty: "entries s = Map [] \<Longrightarrow> registry_inv s"
  by (simp add: registry_inv_def)

lemma registry_invD:
  assumes "registry_inv s"
  shows "entries s \<noteq> NilMap"
    and "lookup (entries s) k = Some p \<Longrightarrow> \<exists>a. p = Ptr a \<and> a < next_addr s
           \<and> CredentialID (heap s a) = k"
    and "lookup (entries s) k = Some p \<Longrightarrow> lookup (entries s) k' = Some p \<Longrightarrow> k = k'"
  using assms unfolding registry_inv_def by blast+

lemma registry_inv_Register:
  assumes "registry_inv s"
  shows "registry_inv (snd (Register now w cid iss sub s))"
proof -
  note nn = registry_invD(1) [OF assms]
  have lt: "\<And>k a. lookup (entries s) k = Some (Ptr a) \<Longrightarrow> a < next_addr s"
    and cr: "\<And>k a. lookup (entries s) k = Some (Ptr a) \<Longrightarrow> CredentialID (heap s a) = k"
    and pt: "\<And>k p. lookup (entries s) k = Some p \<Longrightarrow> \<exists>a. p = Ptr a"
    using registry_invD(2) [OF assms] by blast+
  have inj: "\<And>k k' p. lookup (entries s) k = Some p \<Longrightarrow> lookup (entries s) k' = Some p
                \<Longrightarrow> k = k'"
    using registry_invD(3) [OF assms] by blast
  let ?s' = "snd (Register now w cid iss sub s)"
  note m = Register_fields(1) [OF nn, of now w cid iss sub]
  note f = Register_fields(3,4) [OF nn, of now w cid iss sub]
  show ?thesis
    unfolding registry_inv_def
  proof (intro conjI allI impI)
    show "entries ?s' \<noteq> NilMap"
      by (rule Register_fields(2) [OF nn])
  next
    fix k p
    assume h: "lookup (entries ?s') k = Some p"
    show "\<exists>a. p = Ptr a \<and> a < next_addr ?s' \<and> CredentialID (heap ?s' a) = k"
    proof (cases "k = cid")
      case True
      with h show ?thesis unfolding m by (auto simp: f)
    next
      case False
      with h have l: "lookup (entries s) k = Some p" unfolding m by simp
      then obtain a where a: "p = Ptr a" using pt by blast
      with l lt [of k a] cr [of k a] show ?thesis by (simp add: f)
    qed
  next
    fix k k' p
    assume h: "lookup (entries ?s') k = Some p \<and> lookup (entries ?s') k' = Some p"
    show "k = k'"
    proof (cases "k = cid"; cases "k' = cid")
      assume "k = cid" "k' = cid"
      then show ?thesis by simp
    next
      assume c: "k = cid" "k' \<noteq> cid"
      with h have "p = Ptr (next_addr s)" "lookup (entries s) k' = Some p"
        unfolding m by simp_all
      with lt [of k' "next_addr s"] show ?thesis by simp
    next
      assume c: "k \<noteq> cid" "k' = cid"
      with h have "p = Ptr (next_addr s)" "lookup (entries s) k = Some p"
        unfolding m by simp_all
      with lt [of k "next_addr s"] show ?thesis by simp
    next
      assume c: "k \<noteq> cid" "k' \<noteq> cid"
      with h have "lookup (entries s) k = Some p" "lookup (entries s) k' = Some p"
        unfolding m by simp_all
      then show ?thesis by (rule inj)
    qed
  qed
qed

lemma registry_inv_Revoke:
  assumes "registry_inv s"
  shows "registry_inv (snd (Revoke now w cid reason s))"
proof (cases "snd (Revoke now w cid reason s) = s")
  case True
  with assms show ?thesis by simp
next
  case False
  then obtain a where a: "lookup (entries s) cid = Some (Ptr a)"
    and s': "snd (Revoke now w cid reason s) =
          s\<lparr> heap := (heap s)(a := (heap s a)
                  \<lparr> Status := StatusRevoked, RevokedAt := now, Reason := reason \<rparr>) \<rparr>"
    unfolding Revoke_state by (auto split: option.splits ptr.splits if_splits)
  show ?thesis
    using assms unfolding s' registry_inv_def
    by (auto split: if_splits)
qed

lemma registry_inv_step: "registry_inv s \<Longrightarrow> registry_inv (step c s)"
proof -
  assume inv: "registry_inv s"
  obtain now w op where c: "c = (now, w, op)" by (cases c)
  show ?thesis
    using inv unfolding c
    by (cases op) (simp_all add: registry_inv_Register registry_inv_Revoke)
qed

lemma registry_inv_run: "registry_inv s \<Longrightarrow> registry_inv (run cs s)"
  by (induction cs arbitrary: s) (simp_all add: registry_inv_step)

lemma registry_inv_CredentialID:
  "registry_inv s \<Longrightarrow> entry_of s cid = Some e \<Longrightarrow> CredentialID e = cid"
  by (auto simp: registry_inv_def entry_of_def split: option.splits ptr.splits)

lemma entry_of_Some_iff:
  "entry_of s cid = Some e \<longleftrightarrow> (\<exists>a. lookup (entries s) cid = Some (Ptr a) \<and> heap s a = e)"
  by (auto simp: entry_of_def split: option.splits ptr.splits)

text \<open>
  In a state reached from an empty registry no call panics: the map is not \<open>nil\<close> and
  holds no nil pointer.
\<close>

lemma registry_inv_no_panic:
  assumes "registry_inv s"
  shows "\<not> panics c s"
proof -
  obtain now w op where c: "c = (now, w, op)" by (cases c)
  have nn: "entries s \<noteq> NilMap"
    by (rule registry_invD(1) [OF assms])
  have pt: "\<And>k p. lookup (entries s) k = Some p \<Longrightarrow> p \<noteq> NilPtr"
    using registry_invD(2) [OF assms] by blast
  have np: "NilPtr \<notin> snd ` set (pairs (entries s))"
  proof
    assume "NilPtr \<in> snd ` set (pairs (entries s))"
    then obtain k where "(k, NilPtr) \<in> set (pairs (entries s))"
      by force
    then have "lookup (entries s) k = Some NilPtr"
      by (simp add: in_pairs_iff)
    with pt show False by blast
  qed
  show ?thesis
  proof (cases op)
    case (OpRegister cid iss sub)
    from nn show ?thesis
      unfolding c OpRegister
      by (cases "entries s") (simp_all add: Register_def Let_def)
  next
    case (OpRevoke cid reason)
    show ?thesis
      unfolding c OpRevoke using pt [of cid NilPtr]
      by (auto simp: Revoke_Panics_iff)
  next
    case (OpCheckStatus cid)
    show ?thesis unfolding c OpCheckStatus by simp
  next
    case (OpIsRevoked cid)
    show ?thesis
      unfolding c OpIsRevoked using pt [of cid NilPtr]
      by (auto simp: IsRevoked_def CheckStatus_def split: option.splits ptr.splits)
  next
    case (OpListByIssuer iss)
    show ?thesis unfolding c OpListByIssuer using np by (simp add: ListByIssuer_def)
  next
    case (OpListBySubject sub)
    show ?thesis unfolding c OpListBySubject using np by (simp add: ListBySubject_def)
  qed
qed

text \<open>
  A call that is not a \<open>Register\<close> of the id leaves a revoked entry revoked. The
  pointers of the map are distinct, so revoking another credential writes elsewhere.
\<close>

lemma status_of_step:
  assumes inv: "registry_inv s"
    and nr: "\<not> registers cid op"
    and rev: "map_option Status (entry_of s cid) = Some StatusRevoked"
  shows "map_option Status (entry_of (step (now, w, op) s) cid) = Some StatusRevoked"
proof -
  from rev obtain a where a: "lookup (entries s) cid = Some (Ptr a)"
    and st: "Status (heap s a) = StatusRevoked"
    by (auto simp: entry_of_Some_iff)
  note nn = registry_invD(1) [OF inv]
  show ?thesis
  proof (cases op)
    case (OpRegister c iss sub)
    with nr have "c \<noteq> cid" by simp
    moreover have "a \<noteq> next_addr s"
      using registry_invD(2) [OF inv a] by auto
    ultimately show ?thesis
      using a st unfolding OpRegister
      by (simp add: entry_of_def Register_fields [OF nn])
  next
    case (OpRevoke c reason)
    show ?thesis
    proof (cases "snd (Revoke now w c reason s) = s")
      case True
      then show ?thesis
        using rev unfolding OpRevoke by simp
    next
      case False
      then obtain b where b: "lookup (entries s) c = Some (Ptr b)"
        and s': "snd (Revoke now w c reason s) =
          s\<lparr> heap := (heap s)(b := (heap s b)
                  \<lparr> Status := StatusRevoked, RevokedAt := now, Reason := reason \<rparr>) \<rparr>"
        unfolding Revoke_state by (auto split: option.splits ptr.splits if_splits)
      show ?thesis
        unfolding OpRevoke step.simps s' using a st
        by (simp add: entry_of_def)
    qed
  qed (use rev in simp_all)
qed

lemma status_of_run:
  assumes "registry_inv s"
    and "\<forall>c \<in> set cs. \<not> registers cid (snd (snd c))"
    and "map_option Status (entry_of s cid) = Some StatusRevoked"
  shows "map_option Status (entry_of (run cs s) cid) = Some StatusRevoked"
  using assms
proof (induction cs arbitrary: s)
  case Nil
  then show ?case by simp
next
  case (Cons c cs)
  obtain now w op where c: "c = (now, w, op)" by (cases c)
  have "map_option Status (entry_of (step c s) cid) = Some StatusRevoked"
    unfolding c using Cons.prems c by (intro status_of_step) simp_all
  moreover have "registry_inv (step c s)"
    using Cons.prems(1) by (rule registry_inv_step)
  ultimately show ?case
    using Cons.IH [of "step c s"] Cons.prems(2) by simp
qed

text \<open>No call removes a key.\<close>

lemma key_kept_step:
  assumes "registry_inv s" and "lookup (entries s) cid \<noteq> None"
  shows "lookup (entries (step c s)) cid \<noteq> None"
proof -
  obtain now w op where c: "c = (now, w, op)" by (cases c)
  note nn = registry_invD(1) [OF assms(1)]
  show ?thesis
    using assms(2) unfolding c
    by (cases op)
      (auto simp: Register_fields [OF nn] Revoke_state split: option.splits ptr.splits)
qed

lemma key_kept_run:
  "registry_inv s \<Longrightarrow> lookup (entries s) cid \<noteq> None
   \<Longrightarrow> lookup (entries (run cs s)) cid \<noteq> None"
proof (induction cs arbitrary: s)
  case Nil
  then show ?case by simp
next
  case (Cons c cs)
  from Cons.prems have "lookup (entries (step c s)) cid \<noteq> None"
    by (rule key_kept_step)
  moreover have "registry_inv (step c s)"
    using Cons.prems(1) by (rule registry_inv_step)
  ultimately have "lookup (entries (run cs (step c s))) cid \<noteq> None"
    by (intro Cons.IH)
  then show ?case by simp
qed

text \<open>
  Claim C2, as the code has it. Take any sequence of calls from an empty registry (in
  memory or with a file), and any sequence after it. If the entry under a credential id is revoked after the first
  and the second holds no \<open>Register\<close> of that id, the entry is revoked after the second:
  \<open>Revoke\<close>, \<open>CheckStatus\<close>, \<open>IsRevoked\<close>, \<open>ListByIssuer\<close> and
  \<open>ListBySubject\<close> never make it active again. The entry under an id carries that id as
  its credential id, at every moment from its registration on. But a \<open>Register\<close> of the
  id, whatever the entry under it was, puts a new, active entry there.
\<close>

theorem revoked_stays_revoked_unless_registered_again:
  assumes "entries s0 = Map []" and "s1 = run calls1 s0" and "s2 = run calls2 s1"
  shows "(map_option Status (entry_of s1 cid) = Some StatusRevoked
          \<and> (\<forall>c \<in> set calls2. \<not> registers cid (snd (snd c)))
          \<longrightarrow> map_option Status (entry_of s2 cid) = Some StatusRevoked)
       \<and> (\<forall>e. entry_of s1 cid = Some e
          \<longrightarrow> CredentialID e = cid
              \<and> (\<exists>e'. entry_of s2 cid = Some e' \<and> CredentialID e' = cid))
       \<and> (\<forall>now write_ok issuerDID subjectDID.
            map_option Status
              (entry_of (step (now, write_ok, OpRegister cid issuerDID subjectDID) s1) cid)
            = Some StatusActive)"
proof -
  have inv1: "registry_inv s1"
    unfolding assms(2) using registry_inv_empty [OF assms(1)] by (rule registry_inv_run)
  have inv2: "registry_inv s2"
    unfolding assms(3) using inv1 by (rule registry_inv_run)
  have a: "map_option Status (entry_of s1 cid) = Some StatusRevoked
          \<and> (\<forall>c \<in> set calls2. \<not> registers cid (snd (snd c)))
          \<longrightarrow> map_option Status (entry_of s2 cid) = Some StatusRevoked"
    unfolding assms(3) using status_of_run [OF inv1, of calls2 cid] by blast
  have b: "\<forall>e. entry_of s1 cid = Some e
          \<longrightarrow> CredentialID e = cid
              \<and> (\<exists>e'. entry_of s2 cid = Some e' \<and> CredentialID e' = cid)"
  proof (intro allI impI)
    fix e assume e: "entry_of s1 cid = Some e"
    then have "lookup (entries s1) cid \<noteq> None"
      by (auto simp: entry_of_Some_iff)
    with inv1 have "lookup (entries s2) cid \<noteq> None"
      unfolding assms(3) by (rule key_kept_run)
    then obtain p where "lookup (entries s2) cid = Some p"
      by blast
    with registry_invD(2) [OF inv2] obtain a' where "lookup (entries s2) cid = Some (Ptr a')"
      by blast
    then obtain e' where e': "entry_of s2 cid = Some e'"
      by (auto simp: entry_of_Some_iff)
    with inv1 inv2 e show "CredentialID e = cid
              \<and> (\<exists>e'. entry_of s2 cid = Some e' \<and> CredentialID e' = cid)"
      by (auto dest: registry_inv_CredentialID)
  qed
  have c: "\<forall>now write_ok issuerDID subjectDID.
            map_option Status
              (entry_of (step (now, write_ok, OpRegister cid issuerDID subjectDID) s1) cid)
            = Some StatusActive"
    by (simp add: entry_of_def Register_fields [OF registry_invD(1) [OF inv1]])
  from a b c show ?thesis by blast
qed

text \<open>
  C2 on the example: after registration and revocation, a run of every kind of call but a
  \<open>Register\<close> of the same id (a second \<open>Revoke\<close> and the registration of another
  credential among them) leaves the entry revoked, with its credential id.
\<close>

theorem revoked_stays_revoked_unless_registered_again_witness:
  "entries NewRegistry = Map []
 \<and> map_option Status (entry_of (run example_calls NewRegistry) example_id) = Some StatusRevoked
 \<and> map_option Status
      (entry_of (run example_later_calls (run example_calls NewRegistry)) example_id)
     = Some StatusRevoked
 \<and> map_option CredentialID
      (entry_of (run example_later_calls (run example_calls NewRegistry)) example_id)
     = Some example_id"
proof -
  let ?s1 = "run example_calls NewRegistry"
  let ?s2 = "run example_later_calls ?s1"
  have s1: "?s1 = revoked"
    by (simp add: example_calls_def revoked_def registered_def)
  have rev: "map_option Status (entry_of ?s1 example_id) = Some StatusRevoked"
    unfolding s1 by (simp add: entry_of_def revoked_simps)
  have none: "\<forall>c \<in> set example_later_calls. \<not> registers example_id (snd (snd c))"
    by (simp add: example_later_calls_def example_id_def)
  have empty: "entries NewRegistry = Map []"
    by (simp add: NewRegistry_def)
  note inst = revoked_stays_revoked_unless_registered_again
      [of NewRegistry _ example_calls _ example_later_calls example_id, OF empty refl refl]
  have a: "map_option Status (entry_of ?s2 example_id) = Some StatusRevoked"
    using inst rev none by blast
  obtain e where e: "entry_of ?s1 example_id = Some e"
    using rev by auto
  then obtain e' where "entry_of ?s2 example_id = Some e'" "CredentialID e' = example_id"
    using inst by blast
  then have b: "map_option CredentialID (entry_of ?s2 example_id) = Some example_id"
    by simp
  from empty rev a b show ?thesis by simp
qed

text \<open>
  C2 as the specification states it, that no later operation makes a revoked entry active
  again, fails: \<open>Register\<close> has no check for an id the map already holds.
\<close>

theorem Register_after_Revoke_counterexample:
  "map_option Status (entry_of (run example_calls NewRegistry) example_id) = Some StatusRevoked
 \<and> map_option Status
      (entry_of
         (run [(300, True, OpRegister example_id ''did:key:zIssuer'' ''did:key:zSubject'')]
            (run example_calls NewRegistry))
         example_id)
     = Some StatusActive"
proof -
  have s1: "run example_calls NewRegistry = revoked"
    by (simp add: example_calls_def revoked_def registered_def)
  have nn: "entries revoked \<noteq> NilMap"
    by (simp add: revoked_simps)
  show ?thesis
    unfolding s1
    by (simp add: entry_of_def revoked_simps Register_fields [OF nn])
qed

section \<open>Strings, times and numbers in tokens\<close>

lemma coerce_literals:
  "coerce_utf8 ''VerifiableCredential'' = ''VerifiableCredential''"
  "coerce_utf8 ''RevocationRegistry2024'' = ''RevocationRegistry2024''"
  "coerce_utf8 ''VerifiablePresentation'' = ''VerifiablePresentation''"
  "coerce_utf8 ''https://www.w3.org/2018/credentials/v1'' = ''https://www.w3.org/2018/credentials/v1''"
  by (rule coerce_utf8_ascii, simp)+

lemma coerce_CredentialType: "coerce_utf8 (CredentialType subject) = CredentialType subject"
proof (cases subject)
  case (Identity x)
  show ?thesis unfolding Identity CredentialType.simps CredentialTypeIdentity_def
    by (rule coerce_utf8_ascii) simp
next
  case (Education x)
  show ?thesis unfolding Education CredentialType.simps CredentialTypeEducation_def
    by (rule coerce_utf8_ascii) simp
next
  case (Employment x)
  show ?thesis unfolding Employment CredentialType.simps CredentialTypeEmployment_def
    by (rule coerce_utf8_ascii) simp
next
  case (Membership x)
  show ?thesis unfolding Membership CredentialType.simps CredentialTypeMembership_def
    by (rule coerce_utf8_ascii) simp
qed

text \<open>Cutting a time to whole seconds does not move it into or out of the years 0 to 9999.\<close>

lemma floor_to_multiple:
  fixes s t a b :: int
  assumes "0 < s"
  shows "a * s \<le> t div s * s \<longleftrightarrow> a * s \<le> t"
    and "t div s * s < b * s \<longleftrightarrow> t < b * s"
proof -
  have t: "t = t div s * s + t mod s"
    by simp
  have m: "0 \<le> t mod s" "t mod s < s"
    using assms by simp_all
  have le: "t div s * s \<le> t" and lt: "t < t div s * s + s"
    using t m by linarith+
  show "a * s \<le> t div s * s \<longleftrightarrow> a * s \<le> t"
  proof
    assume "a * s \<le> t div s * s"
    with le show "a * s \<le> t" by linarith
  next
    assume "a * s \<le> t"
    then have "a * s div s \<le> t div s"
      using assms by (rule zdiv_mono1)
    then have "a \<le> t div s"
      using assms by simp
    then show "a * s \<le> t div s * s"
      using assms by simp
  qed
  show "t div s * s < b * s \<longleftrightarrow> t < b * s"
  proof
    assume "t div s * s < b * s"
    then have "t div s < b"
      using assms by simp
    then have "t div s + 1 \<le> b"
      by simp
    then have "(t div s + 1) * s \<le> b * s"
      using assms by simp
    with lt show "t < b * s"
      by (simp add: algebra_simps)
  next
    assume "t < b * s"
    with le show "t div s * s < b * s" by linarith
  qed
qed

lemma year_0_to_9999_seconds:
  "year_0_to_9999 (t div Second * Second) \<longleftrightarrow> year_0_to_9999 t"
proof -
  have s: "0 < Second"
    by (simp add: Second_def)
  have lo: "- (366 * 24 * Hour) = (- (366 * 24 * 3600)) * Second"
    and hi: "3652059 * 24 * Hour = (3652059 * 24 * 3600) * Second"
    by (simp_all add: Hour_def Minute_def)
  show ?thesis
    unfolding year_0_to_9999_def lo hi
    by (simp only: floor_to_multiple [OF s])
qed

text \<open>
  Every integer of 64 bits has a \<open>float64\<close> that is nearest to it: the numbers that
  \<open>json.Marshal\<close> writes for a subject are decoded without an error.
\<close>

lemma bit_length_le: "n \<noteq> 0 \<Longrightarrow> 2 ^ (bit_length n - 1) \<le> n"
proof (induction n rule: bit_length.induct)
  case (1 n)
  show ?case
  proof (cases "n div 2 = 0")
    case True
    with "1.prems" have "n = Suc 0" by presburger
    then show ?thesis
      by (simp add: bit_length.simps [of "Suc 0"] bit_length.simps [of 0])
  next
    case False
    with "1.IH" "1.prems" have "2 ^ (bit_length (n div 2) - 1) \<le> n div 2"
      by simp
    moreover have "bit_length (n div 2) \<noteq> 0"
      using False by (simp add: bit_length.simps [of "n div 2"])
    moreover have "bit_length n = Suc (bit_length (n div 2))"
      using "1.prems" by (simp add: bit_length.simps [of n])
    ultimately have "2 ^ (bit_length n - 1) \<le> 2 * (n div 2)"
      by (cases "bit_length (n div 2)") simp_all
    then show ?thesis by linarith
  qed
qed

lemma float64_of_int_bounded:
  assumes "\<bar>n\<bar> \<le> 2 ^ 63"
  shows "float64_of_int n \<noteq> None"
proof -
  define m where "m = nat \<bar>n\<bar>"
  define e where "e = bit_length m - 53"
  define q where "q = m div 2 ^ e"
  define r where "r = m mod 2 ^ e"
  define q' where "q' = (if 2 * r > 2 ^ e \<or> (2 * r = 2 ^ e \<and> odd q) then q + 1 else q)"
  have m: "m \<le> 2 ^ 63"
    using assms unfolding m_def by (simp add: nat_le_iff)
  have v: "q' * 2 ^ e \<le> 2 * m"
  proof (cases "e = 0")
    case True
    then have "r = 0" "q = m" by (simp_all add: r_def q_def)
    then have "q' = m" using True by (simp add: q'_def)
    then show ?thesis using True by simp
  next
    case False
    then have m0: "m \<noteq> 0"
      unfolding e_def by (cases "m = 0") (simp_all add: bit_length.simps [of 0])
    have "e \<le> bit_length m - 1"
      unfolding e_def by simp
    then have "(2::nat) ^ e \<le> 2 ^ (bit_length m - 1)"
      by simp
    moreover have "2 ^ (bit_length m - 1) \<le> m"
      using m0 by (rule bit_length_le)
    ultimately have e: "2 ^ e \<le> m" by linarith
    have "q * 2 ^ e \<le> m"
      unfolding q_def by simp
    moreover have "q' \<le> q + 1"
      by (simp add: q'_def)
    then have "q' * 2 ^ e \<le> (q + 1) * 2 ^ e"
      by (rule mult_le_mono1)
    ultimately show ?thesis
      using e by (simp add: algebra_simps)
  qed
  have "(2::nat) * 2 ^ 63 < 2 ^ 1024"
    by simp
  with v m have "q' * 2 ^ e < 2 ^ 1024"
    by linarith
  then show ?thesis
    unfolding float64_of_int_def Let_def m_def [symmetric] e_def [symmetric]
      q_def [symmetric] r_def [symmetric] q'_def [symmetric]
    by simp
qed

lemma float64_of_int_sint: "float64_of_int (sint (w :: 64 word)) \<noteq> None"
proof -
  have "- (2 ^ 63) \<le> sint w" "sint w < 2 ^ 63"
    using sint_ge [of w] sint_lt [of w] by simp_all
  then have "\<bar>sint w\<bar> \<le> 2 ^ 63" by linarith
  then show ?thesis by (rule float64_of_int_bounded)
qed

lemma unmarshal_map_append:
  "unmarshal_map kvs \<noteq> None \<Longrightarrow> unmarshal_map kvs' \<noteq> None
   \<Longrightarrow> unmarshal_map (kvs @ kvs') \<noteq> None"
  by (induction kvs) (auto split: option.splits)

lemma unmarshal_map_field: "unmarshal_map (json_field name v) \<noteq> None"
  by (simp add: json_field_def marshal_string_def)

lemma unmarshal_map_field_omitempty: "unmarshal_map (json_field_omitempty name v) \<noteq> None"
  by (simp add: json_field_omitempty_def marshal_string_def)

lemma unmarshal_slice_strings: "unmarshal_slice (map marshal_string ss) \<noteq> None"
  by (induction ss) (auto simp: marshal_string_def split: option.splits)

lemma unmarshal_interface_subject: "unmarshal_interface (marshal_subject subject) \<noteq> None"
proof (cases subject)
  case (Identity s)
  show ?thesis
    unfolding Identity marshal_subject.simps unmarshal_interface.simps
    by (simp only: map_option_eq_Some option.map_disc_iff)
      (intro unmarshal_map_append unmarshal_map_field unmarshal_map_field_omitempty)
next
  case (Education s)
  have "unmarshal_map (if edu_CreditsEarned s = 0 then []
         else [(''creditsEarned'', JNumber (sint (edu_CreditsEarned s)))]) \<noteq> None"
    using float64_of_int_sint [of "edu_CreditsEarned s"] by auto
  then show ?thesis
    unfolding Education marshal_subject.simps unmarshal_interface.simps
    by (simp only: map_option_eq_Some option.map_disc_iff)
      (intro unmarshal_map_append unmarshal_map_field unmarshal_map_field_omitempty)
next
  case (Employment s)
  have "unmarshal_map [(''currentEmployee'', JBool (emp_CurrentEmployee s))] \<noteq> None"
    by simp
  then show ?thesis
    unfolding Employment marshal_subject.simps unmarshal_interface.simps
    by (simp only: map_option_eq_Some option.map_disc_iff)
      (intro unmarshal_map_append unmarshal_map_field unmarshal_map_field_omitempty)
next
  case (Membership s)
  have a: "unmarshal_map [(''activeMember'', JBool (mem_ActiveMember s))] \<noteq> None"
    by simp
  have b: "unmarshal_map (if mem_Roles s = [] then []
             else [(''roles'', marshal_strings (mem_Roles s))]) \<noteq> None"
    using unmarshal_slice_strings [of "mem_Roles s"]
    by (auto simp: marshal_strings_def split: option.splits)
  from a b show ?thesis
    unfolding Membership marshal_subject.simps unmarshal_interface.simps
    by (simp only: map_option_eq_Some option.map_disc_iff)
      (intro unmarshal_map_append unmarshal_map_field unmarshal_map_field_omitempty)
qed

section \<open>Key pairs\<close>

lemma key_pair_length: "key_pair public_of_seed pub priv \<Longrightarrow> length pub = 32"
  by (simp add: key_pair_def)

lemma key_pair_Public: "key_pair public_of_seed pub priv \<Longrightarrow> pub = ed25519_Public priv"
  by (simp add: key_pair_def ed25519_Public_def)

lemma key_pair_secret_key:
  "key_pair public_of_seed pub priv
   \<Longrightarrow> NewV4AsymmetricSecretKeyFromBytes public_of_seed priv = Inr priv"
  by (auto simp: key_pair_def NewV4AsymmetricSecretKeyFromBytes_def)

text \<open>A private key whose second half is not the public key of its seed is refused.\<close>

lemma not_key_pair_secret_key:
  "length priv = 64 \<Longrightarrow> drop 32 priv \<noteq> public_of_seed (take 32 priv)
   \<Longrightarrow> NewV4AsymmetricSecretKeyFromBytes public_of_seed priv = Inl ErrKeyInvalid"
  by (simp add: NewV4AsymmetricSecretKeyFromBytes_def)

lemma example_key_pair:
  "key_pair rfc8032_public_of_seed example_public_key example_private_key"
  by (simp add: key_pair_def example_private_key_def example_public_key_def
      rfc8032_public_of_seed_def rfc8032_seed_1_def rfc8032_public_1_def)

lemma other_public_key: "length other_public_key = 32" "other_public_key \<noteq> example_public_key"
  by (simp_all add: other_public_key_def example_public_key_def rfc8032_public_1_def
      rfc8032_public_2_def)

section \<open>Credentials: what VerifyVC returns for an issued token\<close>

lemma IssueVCWithID_payload:
  assumes "key_pair public_of_seed pub priv"
  shows "IssueVCWithID public_of_seed issuerDID subjectDID (Ed25519PrivateKey priv) subject
           credentialID now
         = Inr (V4Sign priv
             ([(''iss'', JString (coerce_utf8 issuerDID)),
               (''sub'', JString (coerce_utf8 subjectDID)),
               (''iat'', JTime (now div Second * Second)),
               (''exp'', JTime ((now + 365 * 24 * Hour) div Second * Second))]
              @ (if credentialID = [] then []
                 else [(''jti'', JString (coerce_utf8 credentialID))])
              @ [(''vc'', marshal_vc
                   \<lparr> vc_ID = credentialID,
                     vc_Type = [''VerifiableCredential'', CredentialType subject],
                     vc_CredentialSubject = subject,
                     vc_CredentialStatus =
                       (if credentialID = [] then None
                        else Some \<lparr> cs_ID = credentialID,
                                     cs_Type = ''RevocationRegistry2024'' \<rparr>) \<rparr>)]))"
  by (simp add: IssueVCWithID_def key_pair_secret_key [OF assms] Let_def
      NewToken_def SetIssuer_def SetSubject_def SetIssuedAt_def SetExpiration_def
      SetString_def SetTime_def Set_def marshal_string_def)

lemma unmarshal_marshal_vc:
  "unmarshal_vc (marshal_vc
      \<lparr> vc_ID = i, vc_Type = ts, vc_CredentialSubject = subject, vc_CredentialStatus = st \<rparr>) =
     Some \<lparr> vc_ID = coerce_utf8 i,
            vc_Type = map coerce_utf8 ts,
            vc_CredentialSubject = the (unmarshal_interface (marshal_subject subject)),
            vc_CredentialStatus =
              map_option (\<lambda>s. \<lparr> cs_ID = coerce_utf8 (cs_ID s),
                                  cs_Type = coerce_utf8 (cs_Type s) \<rparr>) st \<rparr>"
proof -
  obtain v where v: "unmarshal_interface (marshal_subject subject) = Some v"
    using unmarshal_interface_subject [of subject] by blast
  show ?thesis
  proof (cases st)
    case None
    then show ?thesis
      by (simp add: marshal_vc_def json_field_omitempty_def json_member_def marshal_string_def
          unmarshal_strings_marshal coerce_utf8_Nil v)
  next
    case (Some a)
    then show ?thesis
      by (simp add: marshal_vc_def json_field_omitempty_def json_field_def json_member_def
          marshal_status_def marshal_string_def unmarshal_strings_marshal coerce_utf8_Nil v)
  qed
qed

lemma ParseV4Public_V4Sign:
  "ParseV4Public NewParser pub (V4Sign priv t) now =
     (if pub \<noteq> ed25519_Public priv then Inl ErrBadSignature
      else (case GetExpiration t of
              Inl err \<Rightarrow> Inl err
            | Inr exp \<Rightarrow> if After now exp then Inl ErrTokenExpired else Inr t))"
  by (simp add: ParseV4Public_def V4Sign_def NewParser_def split: sum.splits)

lemma VerifyVC_IssueVCWithID:
  assumes "key_pair public_of_seed pub priv"
    and "IssueVCWithID public_of_seed issuerDID subjectDID (Ed25519PrivateKey priv) subject
           credentialID now = Inr tok"
  shows "VerifyVC tok pub now' =
           (if \<not> year_0_to_9999 (now + 365 * 24 * Hour) then Inl (ErrClaimInvalid ''exp'')
            else if After now' ((now + 365 * 24 * Hour) div Second * Second)
            then Inl ErrTokenExpired
            else if \<not> year_0_to_9999 now then Inl (ErrClaimInvalid ''iat'')
            else Inr \<lparr> vc_Issuer = coerce_utf8 issuerDID,
                       vc_Subject = coerce_utf8 subjectDID,
                       vc_JTI = coerce_utf8 credentialID,
                       vc_IssuedAt = now div Second * Second,
                       vc_ExpiresAt = (now + 365 * 24 * Hour) div Second * Second,
                       vc_VC = \<lparr> vc_ID = coerce_utf8 credentialID,
                                 vc_Type = [''VerifiableCredential'', CredentialType subject],
                                 vc_CredentialSubject =
                                   the (unmarshal_interface (marshal_subject subject)),
                                 vc_CredentialStatus =
                                   (if credentialID = [] then None
                                    else Some \<lparr> cs_ID = coerce_utf8 credentialID,
                                                 cs_Type = ''RevocationRegistry2024'' \<rparr>) \<rparr> \<rparr>)"
proof -
  note len = key_pair_length [OF assms(1)]
  note pub = key_pair_Public [OF assms(1)]
  have tok: "tok = V4Sign priv
             ([(''iss'', JString (coerce_utf8 issuerDID)),
               (''sub'', JString (coerce_utf8 subjectDID)),
               (''iat'', JTime (now div Second * Second)),
               (''exp'', JTime ((now + 365 * 24 * Hour) div Second * Second))]
              @ (if credentialID = [] then []
                 else [(''jti'', JString (coerce_utf8 credentialID))])
              @ [(''vc'', marshal_vc
                   \<lparr> vc_ID = credentialID,
                     vc_Type = [''VerifiableCredential'', CredentialType subject],
                     vc_CredentialSubject = subject,
                     vc_CredentialStatus =
                       (if credentialID = [] then None
                        else Some \<lparr> cs_ID = credentialID,
                                     cs_Type = ''RevocationRegistry2024'' \<rparr>) \<rparr>)])"
    using assms(2) unfolding IssueVCWithID_payload [OF assms(1)] by simp
  show ?thesis
    unfolding tok VerifyVC_def ParseV4Public_V4Sign
    using len pub
    by (simp add: NewV4AsymmetricPublicKeyFromBytes_def GetExpiration_def GetIssuedAt_def
        GetIssuer_def GetSubject_def GetTime_def GetString_def Get_def Let_def
        unmarshal_marshal_vc coerce_utf8_Nil coerce_literals coerce_CredentialType
        year_0_to_9999_seconds)
qed

section \<open>Credentials: expiry\<close>

lemma IssueVCWithID_succeeds:
  "key_pair public_of_seed pub priv \<Longrightarrow>
   IssueVCWithID public_of_seed issuerDID subjectDID (Ed25519PrivateKey priv) subject
     credentialID now
   = Inr (projr (IssueVCWithID public_of_seed issuerDID subjectDID (Ed25519PrivateKey priv)
                   subject credentialID now))"
  by (simp add: IssueVCWithID_payload)

lemma example_token_issued:
  "IssueVCWithID rfc8032_public_of_seed example_did ''did:key:zSubject''
     (Ed25519PrivateKey example_private_key) example_subject example_id example_now
   = Inr example_token"
  unfolding example_token_def
  by (rule IssueVCWithID_succeeds) (rule example_key_pair)

lemma example_token_bad_strings_issued:
  "IssueVCWithID rfc8032_public_of_seed [CHR 0xFF] [CHR 0xFF]
     (Ed25519PrivateKey example_private_key) example_subject [CHR 0xFF] example_now
   = Inr example_token_bad_strings"
  unfolding example_token_bad_strings_def
  by (rule IssueVCWithID_succeeds) (rule example_key_pair)

lemma valid_example_strings:
  "valid_utf8 example_did" "valid_utf8 ''did:key:zSubject''" "valid_utf8 example_id"
  "valid_utf8 ''did:key:z6MkVerifier''" "valid_utf8 ''test-nonce-12345''"
  "valid_utf8 ''v4.public.credential-1''" "valid_utf8 ''v4.public.credential-2''"
  by (rule valid_utf8_ascii, simp add: example_did_def example_id_def)+

lemma example_years:
  "year_0_to_9999 example_now"
  "year_0_to_9999 (example_now + 365 * 24 * Hour)"
  "year_0_to_9999 (example_now + 15 * Minute)"
  by (simp_all add: year_0_to_9999_def example_now_def Hour_def Minute_def Second_def)

lemma IssueVCWithID_expiration:
  assumes "key_pair public_of_seed pub priv"
    and "IssueVCWithID public_of_seed issuerDID subjectDID (Ed25519PrivateKey priv) subject
           credentialID now = Inr tok"
  shows "tok = V4Sign priv (payload tok)"
    and "year_0_to_9999 (now + 365 * 24 * Hour)
         \<Longrightarrow> GetExpiration (payload tok) = Inr ((now + 365 * 24 * Hour) div Second * Second)"
  using assms(2) unfolding IssueVCWithID_payload [OF assms(1)]
  by (auto simp: V4Sign_def GetExpiration_def GetTime_def Get_def year_0_to_9999_seconds)

text \<open>
  Claim C1, as the code has it. For a key pair and a clock that is, with the 365 days
  added, within the years that RFC 3339 text can hold, \<open>IssueVCWithID\<close> returns a
  token, whose expiration claim is the time of issuance plus 365 days, cut to whole
  seconds. Under the public key of the issuer, \<open>VerifyVC\<close> at a time after the
  expiration claim fails: the parser made by \<open>paseto.NewParser()\<close> refuses the token,
  with its preloaded rule, before \<open>VerifyVC\<close> reads any claim. At any other time the
  parser returns the claims and \<open>VerifyVC\<close> succeeds. \<open>VerifyVC\<close> makes no
  comparison of its own: at two times at which the parser answers the same, \<open>VerifyVC\<close>
  answers the same.
\<close>

theorem VerifyVC_rejects_expired:
  assumes "key_pair public_of_seed pub priv"
    and "year_0_to_9999 now" and "year_0_to_9999 (now + 365 * 24 * Hour)"
  shows "\<exists>tok. IssueVCWithID public_of_seed issuerDID subjectDID (Ed25519PrivateKey priv)
                 subject credentialID now = Inr tok
       \<and> GetExpiration (payload tok) = Inr ((now + 365 * 24 * Hour) div Second * Second)
       \<and> (\<forall>now'. After now' ((now + 365 * 24 * Hour) div Second * Second)
            \<longrightarrow> ParseV4Public NewParser pub tok now' = Inl ErrTokenExpired
              \<and> VerifyVC tok pub now' = Inl ErrTokenExpired)
       \<and> (\<forall>now'. \<not> After now' ((now + 365 * 24 * Hour) div Second * Second)
            \<longrightarrow> ParseV4Public NewParser pub tok now' = Inr (payload tok)
              \<and> (\<exists>claims. VerifyVC tok pub now' = Inr claims
                    \<and> vc_ExpiresAt claims = (now + 365 * 24 * Hour) div Second * Second))
       \<and> (\<forall>t t'. ParseV4Public NewParser pub tok t = ParseV4Public NewParser pub tok t'
            \<longrightarrow> VerifyVC tok pub t = VerifyVC tok pub t')"
proof -
  define tok where "tok = projr (IssueVCWithID public_of_seed issuerDID subjectDID
      (Ed25519PrivateKey priv) subject credentialID now)"
  have issued: "IssueVCWithID public_of_seed issuerDID subjectDID (Ed25519PrivateKey priv)
                 subject credentialID now = Inr tok"
    unfolding tok_def using assms(1) by (rule IssueVCWithID_succeeds)
  have tok: "tok = V4Sign priv (payload tok)"
    using assms(1) issued by (rule IssueVCWithID_expiration)
  have exp: "GetExpiration (payload tok) = Inr ((now + 365 * 24 * Hour) div Second * Second)"
    using assms(1) issued assms(3) by (rule IssueVCWithID_expiration)
  have parse: "ParseV4Public NewParser pub tok now' =
          (if After now' ((now + 365 * 24 * Hour) div Second * Second)
           then Inl ErrTokenExpired else Inr (payload tok))" for now'
    by (subst tok, subst ParseV4Public_V4Sign) (simp add: key_pair_Public [OF assms(1)] exp)
  have own: "\<forall>t t'. ParseV4Public NewParser pub tok t = ParseV4Public NewParser pub tok t'
            \<longrightarrow> VerifyVC tok pub t = VerifyVC tok pub t'"
    by (simp add: VerifyVC_def NewV4AsymmetricPublicKeyFromBytes_def)
  have after: "\<forall>now'. After now' ((now + 365 * 24 * Hour) div Second * Second)
            \<longrightarrow> ParseV4Public NewParser pub tok now' = Inl ErrTokenExpired
              \<and> VerifyVC tok pub now' = Inl ErrTokenExpired"
    using parse VerifyVC_IssueVCWithID [OF assms(1) issued] assms(2,3) by simp
  have before: "\<forall>now'. \<not> After now' ((now + 365 * 24 * Hour) div Second * Second)
            \<longrightarrow> ParseV4Public NewParser pub tok now' = Inr (payload tok)
              \<and> (\<exists>claims. VerifyVC tok pub now' = Inr claims
                    \<and> vc_ExpiresAt claims = (now + 365 * 24 * Hour) div Second * Second)"
    using parse VerifyVC_IssueVCWithID [OF assms(1) issued] assms(2,3) by simp
  from issued exp after before own show ?thesis
    by blast
qed

text \<open>
  C1 on the example token, issued under the key pair of RFC 8032: one nanosecond after its
  expiration and at its expiration.
\<close>

theorem VerifyVC_rejects_expired_witness:
  "key_pair rfc8032_public_of_seed example_public_key example_private_key
 \<and> IssueVCWithID rfc8032_public_of_seed example_did ''did:key:zSubject''
     (Ed25519PrivateKey example_private_key) example_subject example_id example_now
   = Inr example_token
 \<and> GetExpiration (payload example_token) = Inr (63931536000 * Second)
 \<and> After (63931536000 * Second + 1) (63931536000 * Second)
 \<and> VerifyVC example_token example_public_key (63931536000 * Second + 1) = Inl ErrTokenExpired
 \<and> \<not> After (63931536000 * Second) (63931536000 * Second)
 \<and> map_sum id vc_ExpiresAt (VerifyVC example_token example_public_key (63931536000 * Second))
     = Inr (63931536000 * Second)"
proof -
  have e: "(example_now + 365 * 24 * Hour) div Second * Second = 63931536000 * Second"
    by (simp add: example_now_def Hour_def Minute_def Second_def)
  obtain tok where
    i: "IssueVCWithID rfc8032_public_of_seed example_did ''did:key:zSubject''
          (Ed25519PrivateKey example_private_key) example_subject example_id example_now
        = Inr tok"
    and g: "GetExpiration (payload tok) = Inr (63931536000 * Second)"
    and x: "\<forall>now'. After now' (63931536000 * Second)
              \<longrightarrow> ParseV4Public NewParser example_public_key tok now' = Inl ErrTokenExpired
                \<and> VerifyVC tok example_public_key now' = Inl ErrTokenExpired"
    and y: "\<forall>now'. \<not> After now' (63931536000 * Second)
            \<longrightarrow> ParseV4Public NewParser example_public_key tok now' = Inr (payload tok)
              \<and> (\<exists>claims. VerifyVC tok example_public_key now' = Inr claims
                    \<and> vc_ExpiresAt claims = 63931536000 * Second)"
    using VerifyVC_rejects_expired [OF example_key_pair example_years(1,2),
        of example_did "''did:key:zSubject''" example_subject example_id, unfolded e]
    by blast
  from i have tok: "tok = example_token"
    by (simp add: example_token_issued)
  have a: "After (63931536000 * Second + 1) (63931536000 * Second)"
    and b: "\<not> After (63931536000 * Second) (63931536000 * Second)"
    by (simp_all add: After_def)
  have "VerifyVC example_token example_public_key (63931536000 * Second + 1)
          = Inl ErrTokenExpired"
    using x a unfolding tok by blast
  moreover have "map_sum id vc_ExpiresAt
      (VerifyVC example_token example_public_key (63931536000 * Second))
      = Inr (63931536000 * Second)"
    using y b unfolding tok by auto
  moreover have "GetExpiration (payload example_token) = Inr (63931536000 * Second)"
    using g unfolding tok .
  ultimately show ?thesis
    using a b example_token_issued example_key_pair by simp
qed

text \<open>
  C1 as the specification states it, that verification succeeds even after the
  expiration, fails: the example token is refused 366 days after it was issued, under the
  key of its issuer.
\<close>

theorem VerifyVC_expired_counterexample:
  "key_pair rfc8032_public_of_seed example_public_key example_private_key
 \<and> NewV4AsymmetricSecretKeyFromBytes rfc8032_public_of_seed example_private_key
     = Inr example_private_key
 \<and> IssueVCWithID rfc8032_public_of_seed example_did ''did:key:zSubject''
     (Ed25519PrivateKey example_private_key) example_subject example_id example_now
   = Inr example_token
 \<and> example_public_key = ed25519_Public example_private_key
 \<and> GetExpiration (payload example_token) = Inr (63931536000 * Second)
 \<and> After (example_now + 366 * 24 * Hour) (63931536000 * Second)
 \<and> VerifyVC example_token example_public_key (example_now + 366 * 24 * Hour)
     = Inl ErrTokenExpired"
proof -
  have e: "(example_now + 365 * 24 * Hour) div Second * Second = 63931536000 * Second"
    by (simp add: example_now_def Hour_def Minute_def Second_def)
  have a: "After (example_now + 366 * 24 * Hour) (63931536000 * Second)"
    by (simp add: After_def example_now_def Hour_def Minute_def Second_def)
  have v: "VerifyVC example_token example_public_key (example_now + 366 * 24 * Hour)
           = Inl ErrTokenExpired"
    using VerifyVC_IssueVCWithID [OF example_key_pair example_token_issued,
        of "example_now + 366 * 24 * Hour"] a example_years
    unfolding e by simp
  have g: "GetExpiration (payload example_token) = Inr (63931536000 * Second)"
    using IssueVCWithID_expiration(2) [OF example_key_pair example_token_issued
        example_years(2)]
    unfolding e .
  from a v g example_token_issued example_key_pair key_pair_Public [OF example_key_pair]
    key_pair_secret_key [OF example_key_pair]
  show ?thesis by (intro conjI)
qed

section \<open>Credentials: the round trip\<close>

lemma VerifyVC_other_key:
  assumes "key_pair public_of_seed pub priv"
    and "IssueVCWithID public_of_seed issuerDID subjectDID (Ed25519PrivateKey priv) subject
           credentialID now = Inr tok"
    and "length otherPub = 32" and "otherPub \<noteq> pub"
  shows "VerifyVC tok otherPub now' = Inl ErrBadSignature"
proof -
  have tok: "tok = V4Sign priv (payload tok)"
    using assms(1,2) by (rule IssueVCWithID_expiration)
  show ?thesis
    unfolding VerifyVC_def
    by (subst tok, subst ParseV4Public_V4Sign)
      (simp add: assms(3,4) key_pair_Public [OF assms(1), symmetric]
        NewV4AsymmetricPublicKeyFromBytes_def)
qed

lemma VerifyVC_credential_id:
  assumes "key_pair public_of_seed pub priv"
    and "IssueVCWithID public_of_seed issuerDID subjectDID (Ed25519PrivateKey priv) subject
           credentialID now = Inr tok"
    and "year_0_to_9999 now" and "year_0_to_9999 (now + 365 * 24 * Hour)"
    and "\<not> After now' ((now + 365 * 24 * Hour) div Second * Second)"
  shows "\<exists>claims. VerifyVC tok pub now' = Inr claims
         \<and> vc_Issuer claims = coerce_utf8 issuerDID
         \<and> vc_Subject claims = coerce_utf8 subjectDID
         \<and> vc_Type (vc_VC claims) = [''VerifiableCredential'', CredentialType subject]
         \<and> vc_JTI claims = coerce_utf8 credentialID
         \<and> vc_ID (vc_VC claims) = coerce_utf8 credentialID
         \<and> GetCredentialID claims = coerce_utf8 credentialID"
proof -
  define claims where "claims =
     \<lparr> vc_Issuer = coerce_utf8 issuerDID,
       vc_Subject = coerce_utf8 subjectDID,
       vc_JTI = coerce_utf8 credentialID,
       vc_IssuedAt = now div Second * Second,
       vc_ExpiresAt = (now + 365 * 24 * Hour) div Second * Second,
       vc_VC = \<lparr> vc_ID = coerce_utf8 credentialID,
                 vc_Type = [''VerifiableCredential'', CredentialType subject],
                 vc_CredentialSubject = the (unmarshal_interface (marshal_subject subject)),
                 vc_CredentialStatus =
                   (if credentialID = [] then None
                    else Some \<lparr> cs_ID = coerce_utf8 credentialID,
                                 cs_Type = ''RevocationRegistry2024'' \<rparr>) \<rparr> \<rparr>"
  have v: "VerifyVC tok pub now' = Inr claims"
    using VerifyVC_IssueVCWithID [OF assms(1,2), of now'] assms(3,4,5)
    by (simp add: claims_def)
  have f: "vc_Issuer claims = coerce_utf8 issuerDID"
    "vc_Subject claims = coerce_utf8 subjectDID"
    "vc_Type (vc_VC claims) = [''VerifiableCredential'', CredentialType subject]"
    "vc_JTI claims = coerce_utf8 credentialID"
    "vc_ID (vc_VC claims) = coerce_utf8 credentialID"
    by (simp_all add: claims_def)
  have cid: "GetCredentialID claims = coerce_utf8 credentialID"
    by (simp add: GetCredentialID_def f)
  from v f cid show ?thesis by blast
qed

text \<open>
  Claim C5, as the code has it. For every subject of the four kinds, every key pair and
  all strings, \<open>IssueVCWithID\<close> returns a token (the clock being, with the 365 days
  added, within the years that RFC 3339 text can hold), and \<open>VerifyVC\<close> of the token
  under the issuer's public key, at a time that is not after the expiration, succeeds. The
  claims carry the issuer, the subject and the credential id as they came through JSON,
  that is, with every byte that is not part of well-formed UTF-8 replaced; for well-formed
  input they equal the input. The type list is \<open>VerifiableCredential\<close> followed by the
  tag of the subject. \<open>GetCredentialID\<close> gives the credential id back, also when it is
  empty. Under every other 32-byte public key, at any time, \<open>VerifyVC\<close> fails on the
  signature, signatures being taken as unforgeable.
\<close>

theorem IssueVCWithID_VerifyVC_round_trip:
  assumes "key_pair public_of_seed pub priv"
    and "year_0_to_9999 now" and "year_0_to_9999 (now + 365 * 24 * Hour)"
    and "\<not> After now' ((now + 365 * 24 * Hour) div Second * Second)"
  shows "\<exists>tok claims.
           IssueVCWithID public_of_seed issuerDID subjectDID (Ed25519PrivateKey priv) subject
             credentialID now = Inr tok
         \<and> VerifyVC tok pub now' = Inr claims
         \<and> vc_Issuer claims = coerce_utf8 issuerDID
         \<and> vc_Subject claims = coerce_utf8 subjectDID
         \<and> vc_Type (vc_VC claims) = [''VerifiableCredential'', CredentialType subject]
         \<and> CredentialType subject \<in> {''IdentityCredential'', ''EducationCredential'',
                                      ''EmploymentCredential'', ''MembershipCredential''}
         \<and> vc_JTI claims = coerce_utf8 credentialID
         \<and> vc_ID (vc_VC claims) = coerce_utf8 credentialID
         \<and> GetCredentialID claims = coerce_utf8 credentialID
         \<and> (valid_utf8 issuerDID \<longrightarrow> vc_Issuer claims = issuerDID)
         \<and> (valid_utf8 subjectDID \<longrightarrow> vc_Subject claims = subjectDID)
         \<and> (valid_utf8 credentialID \<longrightarrow> GetCredentialID claims = credentialID)
         \<and> (\<forall>otherPub now''. length otherPub = 32 \<and> otherPub \<noteq> pub
               \<longrightarrow> VerifyVC tok otherPub now'' = Inl ErrBadSignature)"
proof -
  define tok where "tok = projr (IssueVCWithID public_of_seed issuerDID subjectDID
      (Ed25519PrivateKey priv) subject credentialID now)"
  have issued: "IssueVCWithID public_of_seed issuerDID subjectDID (Ed25519PrivateKey priv)
                 subject credentialID now = Inr tok"
    unfolding tok_def using assms(1) by (rule IssueVCWithID_succeeds)
  obtain claims where v: "VerifyVC tok pub now' = Inr claims"
    and f: "vc_Issuer claims = coerce_utf8 issuerDID"
      "vc_Subject claims = coerce_utf8 subjectDID"
      "vc_Type (vc_VC claims) = [''VerifiableCredential'', CredentialType subject]"
      "vc_JTI claims = coerce_utf8 credentialID"
      "vc_ID (vc_VC claims) = coerce_utf8 credentialID"
    and cid: "GetCredentialID claims = coerce_utf8 credentialID"
    using VerifyVC_credential_id [OF assms(1) issued assms(2,3,4)] by blast
  have tag: "CredentialType subject \<in> {''IdentityCredential'', ''EducationCredential'',
                                      ''EmploymentCredential'', ''MembershipCredential''}"
    by (cases subject)
      (simp_all add: CredentialTypeIdentity_def CredentialTypeEducation_def
        CredentialTypeEmployment_def CredentialTypeMembership_def)
  have other: "\<forall>otherPub now''. length otherPub = 32 \<and> otherPub \<noteq> pub
               \<longrightarrow> VerifyVC tok otherPub now'' = Inl ErrBadSignature"
    using VerifyVC_other_key [OF assms(1) issued] by blast
  have valid: "valid_utf8 issuerDID \<longrightarrow> vc_Issuer claims = issuerDID"
    "valid_utf8 subjectDID \<longrightarrow> vc_Subject claims = subjectDID"
    "valid_utf8 credentialID \<longrightarrow> GetCredentialID claims = credentialID"
    by (simp_all add: f cid coerce_utf8_valid)
  from issued v f cid tag other valid show ?thesis by blast
qed

text \<open>
  C5 on the example token, issued under the first key pair of RFC 8032: verified an hour
  after it was issued, and under the public key of the second pair.
\<close>

theorem IssueVCWithID_VerifyVC_round_trip_witness:
  "key_pair rfc8032_public_of_seed example_public_key example_private_key
 \<and> IssueVCWithID rfc8032_public_of_seed example_did ''did:key:zSubject''
     (Ed25519PrivateKey example_private_key) example_subject example_id example_now
   = Inr example_token
 \<and> map_sum id vc_Issuer (VerifyVC example_token example_public_key (example_now + Hour))
     = Inr example_did
 \<and> map_sum id vc_Subject (VerifyVC example_token example_public_key (example_now + Hour))
     = Inr ''did:key:zSubject''
 \<and> map_sum id (\<lambda>c. vc_Type (vc_VC c))
      (VerifyVC example_token example_public_key (example_now + Hour))
     = Inr [''VerifiableCredential'', ''IdentityCredential'']
 \<and> map_sum id GetCredentialID (VerifyVC example_token example_public_key (example_now + Hour))
     = Inr example_id
 \<and> VerifyVC example_token other_public_key (example_now + Hour) = Inl ErrBadSignature"
proof -
  have t: "\<not> After (example_now + Hour) ((example_now + 365 * 24 * Hour) div Second * Second)"
    by (simp add: After_def example_now_def Hour_def Minute_def Second_def)
  obtain tok claims where
    iss: "IssueVCWithID rfc8032_public_of_seed example_did ''did:key:zSubject''
          (Ed25519PrivateKey example_private_key) example_subject example_id example_now
        = Inr tok"
    and c: "VerifyVC tok example_public_key (example_now + Hour) = Inr claims"
    and i: "valid_utf8 example_did \<longrightarrow> vc_Issuer claims = example_did"
    and s: "valid_utf8 ''did:key:zSubject'' \<longrightarrow> vc_Subject claims = ''did:key:zSubject''"
    and ty: "vc_Type (vc_VC claims) = [''VerifiableCredential'', CredentialType example_subject]"
    and ci: "valid_utf8 example_id \<longrightarrow> GetCredentialID claims = example_id"
    and o: "\<forall>otherPub now''. length otherPub = 32 \<and> otherPub \<noteq> example_public_key
               \<longrightarrow> VerifyVC tok otherPub now'' = Inl ErrBadSignature"
    using IssueVCWithID_VerifyVC_round_trip [OF example_key_pair example_years(1,2) t,
        of example_did "''did:key:zSubject''" example_subject example_id]
    by blast
  from iss have tok: "tok = example_token"
    by (simp add: example_token_issued)
  have "VerifyVC example_token other_public_key (example_now + Hour) = Inl ErrBadSignature"
    using o other_public_key unfolding tok by blast
  then show ?thesis
    using c i s ty ci valid_example_strings example_token_issued example_key_pair
    unfolding tok
    by (simp add: example_subject_def CredentialTypeIdentity_def)
qed

text \<open>
  C5 as the specification states it, for every string, fails for an issuer, a subject
  and a credential id that are not well-formed UTF-8: the claims carry the replacement
  character in their place.
\<close>

theorem VerifyVC_strings_counterexample:
  "key_pair rfc8032_public_of_seed example_public_key example_private_key
 \<and> IssueVCWithID rfc8032_public_of_seed [CHR 0xFF] [CHR 0xFF]
     (Ed25519PrivateKey example_private_key) example_subject [CHR 0xFF] example_now
   = Inr example_token_bad_strings
 \<and> map_sum id vc_Issuer (VerifyVC example_token_bad_strings example_public_key example_now)
     = Inr [CHR 0xEF, CHR 0xBF, CHR 0xBD]
 \<and> map_sum id vc_Subject (VerifyVC example_token_bad_strings example_public_key example_now)
     = Inr [CHR 0xEF, CHR 0xBF, CHR 0xBD]
 \<and> map_sum id vc_JTI (VerifyVC example_token_bad_strings example_public_key example_now)
     = Inr [CHR 0xEF, CHR 0xBF, CHR 0xBD]
 \<and> map_sum id (\<lambda>c. vc_ID (vc_VC c))
      (VerifyVC example_token_bad_strings example_public_key example_now)
     = Inr [CHR 0xEF, CHR 0xBF, CHR 0xBD]
 \<and> map_sum id GetCredentialID
      (VerifyVC example_token_bad_strings example_public_key example_now)
     = Inr [CHR 0xEF, CHR 0xBF, CHR 0xBD]"
proof -
  have t: "\<not> After example_now ((example_now + 365 * 24 * Hour) div Second * Second)"
    by (simp add: After_def example_now_def Hour_def Minute_def Second_def)
  obtain claims where
    c: "VerifyVC example_token_bad_strings example_public_key example_now = Inr claims"
    and isu: "vc_Issuer claims = coerce_utf8 [CHR 0xFF]"
    and su: "vc_Subject claims = coerce_utf8 [CHR 0xFF]"
    and j: "vc_JTI claims = coerce_utf8 [CHR 0xFF]"
    and i: "vc_ID (vc_VC claims) = coerce_utf8 [CHR 0xFF]"
    and g: "GetCredentialID claims = coerce_utf8 [CHR 0xFF]"
    using VerifyVC_credential_id [OF example_key_pair example_token_bad_strings_issued
        example_years(1,2) t]
    by blast
  from c isu su j i g example_token_bad_strings_issued example_key_pair show ?thesis
    by (simp add: coerce_utf8_invalid_example)
qed

section \<open>Presentations: what VerifyPresentation returns for a created token\<close>

lemma unmarshal_marshal_vp:
  "unmarshal_vp (marshal_vp
      \<lparr> vp_Context = c, vp_Type = t, vp_ID = i, vp_Holder = h,
        vp_VerifiableCredential = vcs \<rparr>) =
     Some \<lparr> vp_Context = map coerce_utf8 c,
            vp_Type = map coerce_utf8 t,
            vp_ID = coerce_utf8 i,
            vp_Holder = coerce_utf8 h,
            vp_VerifiableCredential = map coerce_utf8 vcs \<rparr>"
  by (simp add: marshal_vp_def json_field_omitempty_def json_field_def json_member_def
      marshal_string_def unmarshal_strings_marshal coerce_utf8_Nil)

lemma CreatePresentation_payload:
  assumes "key_pair public_of_seed pub priv" and "credentials \<noteq> []"
  shows "CreatePresentation public_of_seed holderDID priv credentials audience nonce
           (Some idBytes) now
         = Inr (V4Sign priv
             [(''iss'', JString (coerce_utf8 holderDID)),
              (''sub'', JString (coerce_utf8 holderDID)),
              (''aud'', JString (coerce_utf8 audience)),
              (''iat'', JTime (now div Second * Second)),
              (''exp'', JTime ((now + 15 * Minute) div Second * Second)),
              (''nonce'', JString (coerce_utf8 nonce)),
              (''vp'', marshal_vp
                 \<lparr> vp_Context = [''https://www.w3.org/2018/credentials/v1''],
                   vp_Type = [''VerifiablePresentation''],
                   vp_ID = ''urn:uuid:'' @ hex_EncodeToString (take 4 idBytes) @ ''-''
                     @ hex_EncodeToString (take 2 (drop 4 idBytes)) @ ''-''
                     @ hex_EncodeToString (take 2 (drop 6 idBytes)) @ ''-''
                     @ hex_EncodeToString (take 2 (drop 8 idBytes)) @ ''-''
                     @ hex_EncodeToString (drop 10 idBytes),
                   vp_Holder = holderDID,
                   vp_VerifiableCredential = credentials \<rparr>)])"
  using assms(2)
  by (simp add: CreatePresentation_def key_pair_secret_key [OF assms(1)] Let_def
      NewToken_def SetIssuer_def SetSubject_def SetAudience_def SetIssuedAt_def
      SetExpiration_def SetString_def SetTime_def Set_def marshal_string_def)

lemma CreatePresentation_succeeds:
  assumes "key_pair public_of_seed pub priv" and "credentials \<noteq> []"
  shows "CreatePresentation public_of_seed holderDID priv credentials audience nonce
           (Some idBytes) now
         = Inr (projr (CreatePresentation public_of_seed holderDID priv credentials audience
                         nonce (Some idBytes) now))"
  unfolding CreatePresentation_payload [OF assms] sum.sel ..

lemma VerifyPresentation_CreatePresentation:
  assumes "key_pair public_of_seed pub priv" and "credentials \<noteq> []"
    and "CreatePresentation public_of_seed holderDID priv credentials audience nonce
           (Some idBytes) now = Inr tok"
  shows "\<exists>vpid. VerifyPresentation tok pub expectedAudience expectedNonce now1 now2 =
           (if \<not> year_0_to_9999 (now + 15 * Minute) then Inl (ErrClaimInvalid ''exp'')
            else if After now1 ((now + 15 * Minute) div Second * Second)
              then Inl ErrTokenExpired
            else if \<not> year_0_to_9999 now then Inl (ErrClaimInvalid ''iat'')
            else if expectedAudience \<noteq> [] \<and> coerce_utf8 audience \<noteq> expectedAudience
              then Inl ErrAudienceMismatch
            else if expectedNonce \<noteq> [] \<and> coerce_utf8 nonce \<noteq> expectedNonce
              then Inl ErrNonceMismatch
            else if After now2 ((now + 15 * Minute) div Second * Second)
              then Inl ErrPresentationExpired
            else Inr \<lparr> vp_Issuer = coerce_utf8 holderDID,
                       vp_Subject = coerce_utf8 holderDID,
                       vp_Audience = coerce_utf8 audience,
                       vp_Nonce = coerce_utf8 nonce,
                       vp_IssuedAt = now div Second * Second,
                       vp_ExpiresAt = (now + 15 * Minute) div Second * Second,
                       vp_VP = \<lparr> vp_Context = [''https://www.w3.org/2018/credentials/v1''],
                                 vp_Type = [''VerifiablePresentation''],
                                 vp_ID = vpid,
                                 vp_Holder = coerce_utf8 holderDID,
                                 vp_VerifiableCredential = map coerce_utf8 credentials \<rparr> \<rparr>)"
proof -
  note len = key_pair_length [OF assms(1)]
  note pub = key_pair_Public [OF assms(1)]
  note tok = assms(3) [unfolded CreatePresentation_payload [OF assms(1,2)], simplified,
      symmetric]
  show ?thesis
    unfolding tok VerifyPresentation_def ParseV4Public_V4Sign
    using len pub
    by (simp add: NewV4AsymmetricPublicKeyFromBytes_def GetExpiration_def GetIssuedAt_def
        GetIssuer_def GetSubject_def GetAudience_def GetTime_def GetString_def Get_def
        unmarshal_marshal_vp coerce_literals year_0_to_9999_seconds)
qed

section \<open>Presentations: the round trip\<close>

lemma map_coerce_utf8_valid: "\<forall>c \<in> set cs. valid_utf8 c \<Longrightarrow> map coerce_utf8 cs = cs"
  by (induction cs) (simp_all add: coerce_utf8_valid)

text \<open>
  Claim C6, as the code has it. For a key pair, a list of credential tokens that is not
  empty, and an audience, a nonce and credential tokens that are well-formed UTF-8,
  \<open>CreatePresentation\<close> returns a presentation (the random source delivering its
  bytes, and the clock being within the years that RFC 3339 text can hold). Verify it under
  the holder's public key while it has not expired. With the audience and nonce it was made
  for, verification succeeds and the claims hold the credential tokens, in their order. A
  non-empty expected audience that is not the audience fails with
  \<open>ErrAudienceMismatch\<close>, whatever the expected nonce. With the audience right or left
  empty, a non-empty expected nonce that is not the nonce fails with
  \<open>ErrNonceMismatch\<close>. An empty expected audience or nonce skips that check.
\<close>

theorem CreatePresentation_VerifyPresentation_round_trip:
  assumes "key_pair public_of_seed pub priv"
    and "credentials \<noteq> []"
    and "valid_utf8 audience" and "valid_utf8 nonce"
    and "\<forall>c \<in> set credentials. valid_utf8 c"
    and "year_0_to_9999 now" and "year_0_to_9999 (now + 15 * Minute)"
    and "\<not> After now1 ((now + 15 * Minute) div Second * Second)"
    and "\<not> After now2 ((now + 15 * Minute) div Second * Second)"
  shows "\<exists>tok. CreatePresentation public_of_seed holderDID priv credentials audience nonce
                 (Some idBytes) now = Inr tok
       \<and> (\<exists>claims. VerifyPresentation tok pub audience nonce now1 now2 = Inr claims
            \<and> vp_VerifiableCredential (vp_VP claims) = credentials
            \<and> vp_Audience claims = audience
            \<and> vp_Nonce claims = nonce)
       \<and> (\<forall>expectedAudience expectedNonce.
            expectedAudience \<noteq> [] \<and> expectedAudience \<noteq> audience
            \<longrightarrow> VerifyPresentation tok pub expectedAudience expectedNonce now1 now2
                = Inl ErrAudienceMismatch)
       \<and> (\<forall>expectedAudience expectedNonce.
            (expectedAudience = [] \<or> expectedAudience = audience)
            \<and> expectedNonce \<noteq> [] \<and> expectedNonce \<noteq> nonce
            \<longrightarrow> VerifyPresentation tok pub expectedAudience expectedNonce now1 now2
                = Inl ErrNonceMismatch)
       \<and> (\<forall>expectedAudience expectedNonce.
            (expectedAudience = [] \<or> expectedAudience = audience)
            \<and> (expectedNonce = [] \<or> expectedNonce = nonce)
            \<longrightarrow> (\<exists>claims. VerifyPresentation tok pub expectedAudience expectedNonce now1 now2
                            = Inr claims
                    \<and> vp_VerifiableCredential (vp_VP claims) = credentials
                    \<and> vp_Audience claims = audience
                    \<and> vp_Nonce claims = nonce))"
proof -
  define tok where "tok = projr (CreatePresentation public_of_seed holderDID priv credentials
      audience nonce (Some idBytes) now)"
  have created: "CreatePresentation public_of_seed holderDID priv credentials audience nonce
                 (Some idBytes) now = Inr tok"
    unfolding tok_def using assms(1,2) by (rule CreatePresentation_succeeds)
  have a: "coerce_utf8 audience = audience" and n: "coerce_utf8 nonce = nonce"
    and c: "map coerce_utf8 credentials = credentials"
    using assms(3,4,5) by (simp_all add: coerce_utf8_valid map_coerce_utf8_valid)
  note result = VerifyPresentation_CreatePresentation [OF assms(1,2) created, unfolded a n c]
  have ok: "\<exists>claims. VerifyPresentation tok pub expectedAudience expectedNonce now1 now2
                            = Inr claims
                    \<and> vp_VerifiableCredential (vp_VP claims) = credentials
                    \<and> vp_Audience claims = audience
                    \<and> vp_Nonce claims = nonce"
    if h: "expectedAudience = [] \<or> expectedAudience = audience"
      "expectedNonce = [] \<or> expectedNonce = nonce"
    for expectedAudience expectedNonce
  proof -
    obtain vpid where
      "VerifyPresentation tok pub expectedAudience expectedNonce now1 now2 =
         Inr \<lparr> vp_Issuer = coerce_utf8 holderDID,
               vp_Subject = coerce_utf8 holderDID,
               vp_Audience = audience,
               vp_Nonce = nonce,
               vp_IssuedAt = now div Second * Second,
               vp_ExpiresAt = (now + 15 * Minute) div Second * Second,
               vp_VP = \<lparr> vp_Context = [''https://www.w3.org/2018/credentials/v1''],
                         vp_Type = [''VerifiablePresentation''],
                         vp_ID = vpid,
                         vp_Holder = coerce_utf8 holderDID,
                         vp_VerifiableCredential = credentials \<rparr> \<rparr>"
      using result [of expectedAudience expectedNonce now1 now2] h assms(6,7,8,9)
      by fastforce
    then show ?thesis by simp
  qed
  have aud: "VerifyPresentation tok pub expectedAudience expectedNonce now1 now2
                = Inl ErrAudienceMismatch"
    if h: "expectedAudience \<noteq> [] \<and> expectedAudience \<noteq> audience"
    for expectedAudience expectedNonce
    using result [of expectedAudience expectedNonce now1 now2] h assms(6,7,8)
    by fastforce
  have non: "VerifyPresentation tok pub expectedAudience expectedNonce now1 now2
                = Inl ErrNonceMismatch"
    if h: "(expectedAudience = [] \<or> expectedAudience = audience)
            \<and> expectedNonce \<noteq> [] \<and> expectedNonce \<noteq> nonce"
    for expectedAudience expectedNonce
    using result [of expectedAudience expectedNonce now1 now2] h assms(6,7,8)
    by fastforce
  have first: "\<exists>claims. VerifyPresentation tok pub audience nonce now1 now2 = Inr claims
            \<and> vp_VerifiableCredential (vp_VP claims) = credentials
            \<and> vp_Audience claims = audience
            \<and> vp_Nonce claims = nonce"
    by (rule ok) simp_all
  have rest: "(\<exists>claims. VerifyPresentation tok pub audience nonce now1 now2 = Inr claims
            \<and> vp_VerifiableCredential (vp_VP claims) = credentials
            \<and> vp_Audience claims = audience
            \<and> vp_Nonce claims = nonce)
       \<and> (\<forall>expectedAudience expectedNonce.
            expectedAudience \<noteq> [] \<and> expectedAudience \<noteq> audience
            \<longrightarrow> VerifyPresentation tok pub expectedAudience expectedNonce now1 now2
                = Inl ErrAudienceMismatch)
       \<and> (\<forall>expectedAudience expectedNonce.
            (expectedAudience = [] \<or> expectedAudience = audience)
            \<and> expectedNonce \<noteq> [] \<and> expectedNonce \<noteq> nonce
            \<longrightarrow> VerifyPresentation tok pub expectedAudience expectedNonce now1 now2
                = Inl ErrNonceMismatch)
       \<and> (\<forall>expectedAudience expectedNonce.
            (expectedAudience = [] \<or> expectedAudience = audience)
            \<and> (expectedNonce = [] \<or> expectedNonce = nonce)
            \<longrightarrow> (\<exists>claims. VerifyPresentation tok pub expectedAudience expectedNonce now1 now2
                            = Inr claims
                    \<and> vp_VerifiableCredential (vp_VP claims) = credentials
                    \<and> vp_Audience claims = audience
                    \<and> vp_Nonce claims = nonce))"
  proof (intro conjI allI impI)
    show "\<exists>claims. VerifyPresentation tok pub audience nonce now1 now2 = Inr claims
            \<and> vp_VerifiableCredential (vp_VP claims) = credentials
            \<and> vp_Audience claims = audience
            \<and> vp_Nonce claims = nonce"
      by (rule first)
  next
    fix expectedAudience expectedNonce
    assume "expectedAudience \<noteq> [] \<and> expectedAudience \<noteq> audience"
    then show "VerifyPresentation tok pub expectedAudience expectedNonce now1 now2
                = Inl ErrAudienceMismatch"
      by (rule aud)
  next
    fix expectedAudience expectedNonce
    assume "(expectedAudience = [] \<or> expectedAudience = audience)
            \<and> expectedNonce \<noteq> [] \<and> expectedNonce \<noteq> nonce"
    then show "VerifyPresentation tok pub expectedAudience expectedNonce now1 now2
                = Inl ErrNonceMismatch"
      by (rule non)
  next
    fix expectedAudience expectedNonce
    assume "(expectedAudience = [] \<or> expectedAudience = audience)
            \<and> (expectedNonce = [] \<or> expectedNonce = nonce)"
    then show "\<exists>claims. VerifyPresentation tok pub expectedAudience expectedNonce now1 now2
                            = Inr claims
                    \<and> vp_VerifiableCredential (vp_VP claims) = credentials
                    \<and> vp_Audience claims = audience
                    \<and> vp_Nonce claims = nonce"
      using ok by blast
  qed
  show ?thesis
    by (rule exI [of _ tok]) (rule conjI [OF created rest])
qed

lemma example_presentation_created:
  "CreatePresentation rfc8032_public_of_seed example_did example_private_key
     [''v4.public.credential-1'', ''v4.public.credential-2'']
     ''did:key:z6MkVerifier'' ''test-nonce-12345'' (Some example_random) example_now
   = Inr example_presentation"
  unfolding example_presentation_def
  by (rule CreatePresentation_succeeds [OF example_key_pair]) simp

lemma example_presentation_bad_strings_created:
  "CreatePresentation rfc8032_public_of_seed example_did example_private_key
     [[CHR 0xFF]] [CHR 0xFF] [CHR 0xFF] (Some example_random) example_now
   = Inr example_presentation_bad_strings"
  unfolding example_presentation_bad_strings_def
  by (rule CreatePresentation_succeeds [OF example_key_pair]) simp

lemma example_presentation_times:
  "\<not> After (example_now + Minute) ((example_now + 15 * Minute) div Second * Second)"
  "\<not> After (example_now + 2 * Minute) ((example_now + 15 * Minute) div Second * Second)"
  "\<not> After example_now ((example_now + 15 * Minute) div Second * Second)"
  by (simp_all add: After_def example_now_def Minute_def Second_def)

text \<open>
  C6 on the example presentation of two credentials, made under the first key pair of RFC
  8032: the right audience and nonce, another audience, another nonce, and no expectation
  at all.
\<close>

theorem CreatePresentation_VerifyPresentation_round_trip_witness:
  "key_pair rfc8032_public_of_seed example_public_key example_private_key
 \<and> CreatePresentation rfc8032_public_of_seed example_did example_private_key
     [''v4.public.credential-1'', ''v4.public.credential-2'']
     ''did:key:z6MkVerifier'' ''test-nonce-12345'' (Some example_random) example_now
   = Inr example_presentation
 \<and> map_sum id (\<lambda>c. vp_VerifiableCredential (vp_VP c))
      (VerifyPresentation example_presentation example_public_key ''did:key:z6MkVerifier''
         ''test-nonce-12345'' (example_now + Minute) (example_now + 2 * Minute))
     = Inr [''v4.public.credential-1'', ''v4.public.credential-2'']
 \<and> VerifyPresentation example_presentation example_public_key ''did:key:z6MkOther''
      ''test-nonce-12345'' (example_now + Minute) (example_now + 2 * Minute)
     = Inl ErrAudienceMismatch
 \<and> VerifyPresentation example_presentation example_public_key ''did:key:z6MkVerifier''
      ''another-nonce'' (example_now + Minute) (example_now + 2 * Minute)
     = Inl ErrNonceMismatch
 \<and> map_sum id vp_Audience
      (VerifyPresentation example_presentation example_public_key [] []
         (example_now + Minute) (example_now + 2 * Minute))
     = Inr ''did:key:z6MkVerifier''"
proof -
  have valid: "\<forall>c \<in> set [''v4.public.credential-1'', ''v4.public.credential-2'']. valid_utf8 c"
    using valid_example_strings by simp
  have ne: "[''v4.public.credential-1'', ''v4.public.credential-2''] \<noteq> []"
    by simp
  obtain tok where
    cr: "CreatePresentation rfc8032_public_of_seed example_did example_private_key
           [''v4.public.credential-1'', ''v4.public.credential-2'']
           ''did:key:z6MkVerifier'' ''test-nonce-12345'' (Some example_random) example_now
         = Inr tok"
    and inst: "(\<exists>claims. VerifyPresentation tok example_public_key ''did:key:z6MkVerifier''
                 ''test-nonce-12345'' (example_now + Minute) (example_now + 2 * Minute)
                 = Inr claims
            \<and> vp_VerifiableCredential (vp_VP claims)
                = [''v4.public.credential-1'', ''v4.public.credential-2'']
            \<and> vp_Audience claims = ''did:key:z6MkVerifier''
            \<and> vp_Nonce claims = ''test-nonce-12345'')
       \<and> (\<forall>expectedAudience expectedNonce.
            expectedAudience \<noteq> [] \<and> expectedAudience \<noteq> ''did:key:z6MkVerifier''
            \<longrightarrow> VerifyPresentation tok example_public_key expectedAudience expectedNonce
                  (example_now + Minute) (example_now + 2 * Minute)
                = Inl ErrAudienceMismatch)
       \<and> (\<forall>expectedAudience expectedNonce.
            (expectedAudience = [] \<or> expectedAudience = ''did:key:z6MkVerifier'')
            \<and> expectedNonce \<noteq> [] \<and> expectedNonce \<noteq> ''test-nonce-12345''
            \<longrightarrow> VerifyPresentation tok example_public_key expectedAudience expectedNonce
                  (example_now + Minute) (example_now + 2 * Minute)
                = Inl ErrNonceMismatch)
       \<and> (\<forall>expectedAudience expectedNonce.
            (expectedAudience = [] \<or> expectedAudience = ''did:key:z6MkVerifier'')
            \<and> (expectedNonce = [] \<or> expectedNonce = ''test-nonce-12345'')
            \<longrightarrow> (\<exists>claims. VerifyPresentation tok example_public_key expectedAudience
                            expectedNonce (example_now + Minute) (example_now + 2 * Minute)
                            = Inr claims
                    \<and> vp_VerifiableCredential (vp_VP claims)
                        = [''v4.public.credential-1'', ''v4.public.credential-2'']
                    \<and> vp_Audience claims = ''did:key:z6MkVerifier''
                    \<and> vp_Nonce claims = ''test-nonce-12345''))"
    using CreatePresentation_VerifyPresentation_round_trip
      [OF example_key_pair ne valid_example_strings(4) valid_example_strings(5) valid
        example_years(1) example_years(3) example_presentation_times(1)
        example_presentation_times(2), of example_did example_random]
    by (elim exE) (rule that, erule conjunct1, erule conjunct2)
  from cr have tok: "tok = example_presentation"
    by (simp add: example_presentation_created)
  note i1 = inst [unfolded tok, THEN conjunct1]
  note i2 = inst [unfolded tok, THEN conjunct2, THEN conjunct1, rule_format]
  note i3 = inst [unfolded tok, THEN conjunct2, THEN conjunct2, THEN conjunct1, rule_format]
  note i4 = inst [unfolded tok, THEN conjunct2, THEN conjunct2, THEN conjunct2, rule_format]
  from i1 obtain claims where
    "VerifyPresentation example_presentation example_public_key ''did:key:z6MkVerifier''
       ''test-nonce-12345'' (example_now + Minute) (example_now + 2 * Minute) = Inr claims"
    "vp_VerifiableCredential (vp_VP claims)
       = [''v4.public.credential-1'', ''v4.public.credential-2'']"
    by blast
  then have a: "map_sum id (\<lambda>c. vp_VerifiableCredential (vp_VP c))
      (VerifyPresentation example_presentation example_public_key ''did:key:z6MkVerifier''
         ''test-nonce-12345'' (example_now + Minute) (example_now + 2 * Minute))
     = Inr [''v4.public.credential-1'', ''v4.public.credential-2'']"
    by simp
  have b: "VerifyPresentation example_presentation example_public_key ''did:key:z6MkOther''
      ''test-nonce-12345'' (example_now + Minute) (example_now + 2 * Minute)
     = Inl ErrAudienceMismatch"
    by (rule i2) simp
  have c: "VerifyPresentation example_presentation example_public_key ''did:key:z6MkVerifier''
      ''another-nonce'' (example_now + Minute) (example_now + 2 * Minute)
     = Inl ErrNonceMismatch"
    by (rule i3) simp
  have "\<exists>claims. VerifyPresentation example_presentation example_public_key [] []
           (example_now + Minute) (example_now + 2 * Minute) = Inr claims
         \<and> vp_VerifiableCredential (vp_VP claims)
             = [''v4.public.credential-1'', ''v4.public.credential-2'']
         \<and> vp_Audience claims = ''did:key:z6MkVerifier''
         \<and> vp_Nonce claims = ''test-nonce-12345''"
    by (rule i4) simp
  then obtain claims' where
    "VerifyPresentation example_presentation example_public_key [] []
           (example_now + Minute) (example_now + 2 * Minute) = Inr claims'"
    "vp_Audience claims' = ''did:key:z6MkVerifier''"
    by blast
  then have d: "map_sum id vp_Audience
      (VerifyPresentation example_presentation example_public_key [] []
         (example_now + Minute) (example_now + 2 * Minute))
     = Inr ''did:key:z6MkVerifier''"
    by simp
  from example_key_pair example_presentation_created a b c d show ?thesis
    by (intro conjI)
qed

lemma VerifyPresentation_bad_strings:
  "\<exists>vpid. VerifyPresentation example_presentation_bad_strings example_public_key
           expectedAudience expectedNonce example_now example_now =
           (if expectedAudience \<noteq> [] \<and> [CHR 0xEF, CHR 0xBF, CHR 0xBD] \<noteq> expectedAudience
              then Inl ErrAudienceMismatch
            else if expectedNonce \<noteq> [] \<and> [CHR 0xEF, CHR 0xBF, CHR 0xBD] \<noteq> expectedNonce
              then Inl ErrNonceMismatch
            else Inr \<lparr> vp_Issuer = coerce_utf8 example_did,
                       vp_Subject = coerce_utf8 example_did,
                       vp_Audience = [CHR 0xEF, CHR 0xBF, CHR 0xBD],
                       vp_Nonce = [CHR 0xEF, CHR 0xBF, CHR 0xBD],
                       vp_IssuedAt = example_now div Second * Second,
                       vp_ExpiresAt = (example_now + 15 * Minute) div Second * Second,
                       vp_VP = \<lparr> vp_Context = [''https://www.w3.org/2018/credentials/v1''],
                                 vp_Type = [''VerifiablePresentation''],
                                 vp_ID = vpid,
                                 vp_Holder = coerce_utf8 example_did,
                                 vp_VerifiableCredential =
                                   [[CHR 0xEF, CHR 0xBF, CHR 0xBD]] \<rparr> \<rparr>)"
proof -
  have ne: "[[CHR 0xFF]] \<noteq> ([] :: string list)"
    by simp
  show ?thesis
    using VerifyPresentation_CreatePresentation [OF example_key_pair ne
        example_presentation_bad_strings_created,
        of expectedAudience expectedNonce example_now example_now]
      example_years(1) example_years(3) example_presentation_times(3)
    unfolding coerce_utf8_invalid_example list.map
    by (simp only: if_False if_True not_True_eq_False not_False_eq_True simp_thms)
qed

text \<open>
  C6 as the specification states it fails in two ways. For every audience, nonce and list
  of credential tokens: when these are not well-formed UTF-8, verifying the presentation
  with the very audience it was made for is an audience mismatch, verifying it with the very
  nonce is a nonce mismatch, and the claims hold another credential token than the one
  given. And a wrong nonce does not fail with \<open>ErrNonceMismatch\<close> whatever else is
  expected: with a wrong audience as well, the example presentation fails with
  \<open>ErrAudienceMismatch\<close>, the audience being checked first.
\<close>

theorem VerifyPresentation_mismatch_counterexample:
  "key_pair rfc8032_public_of_seed example_public_key example_private_key
 \<and> CreatePresentation rfc8032_public_of_seed example_did example_private_key
     [[CHR 0xFF]] [CHR 0xFF] [CHR 0xFF] (Some example_random) example_now
   = Inr example_presentation_bad_strings
 \<and> VerifyPresentation example_presentation_bad_strings example_public_key
      [CHR 0xFF] [CHR 0xFF] example_now example_now
     = Inl ErrAudienceMismatch
 \<and> VerifyPresentation example_presentation_bad_strings example_public_key
      [] [CHR 0xFF] example_now example_now
     = Inl ErrNonceMismatch
 \<and> map_sum id (\<lambda>c. vp_VerifiableCredential (vp_VP c))
      (VerifyPresentation example_presentation_bad_strings example_public_key
         [] [] example_now example_now)
     = Inr [[CHR 0xEF, CHR 0xBF, CHR 0xBD]]
 \<and> CreatePresentation rfc8032_public_of_seed example_did example_private_key
     [''v4.public.credential-1'', ''v4.public.credential-2'']
     ''did:key:z6MkVerifier'' ''test-nonce-12345'' (Some example_random) example_now
   = Inr example_presentation
 \<and> VerifyPresentation example_presentation example_public_key ''did:key:z6MkOther''
      ''another-nonce'' (example_now + Minute) (example_now + 2 * Minute)
     = Inl ErrAudienceMismatch"
proof -
  have a: "VerifyPresentation example_presentation_bad_strings example_public_key
      [CHR 0xFF] [CHR 0xFF] example_now example_now
     = Inl ErrAudienceMismatch"
    using VerifyPresentation_bad_strings [of "[CHR 0xFF]" "[CHR 0xFF]"] by auto
  have b: "VerifyPresentation example_presentation_bad_strings example_public_key
      [] [CHR 0xFF] example_now example_now
     = Inl ErrNonceMismatch"
    using VerifyPresentation_bad_strings [of "[]" "[CHR 0xFF]"] by auto
  have c: "map_sum id (\<lambda>c. vp_VerifiableCredential (vp_VP c))
      (VerifyPresentation example_presentation_bad_strings example_public_key
         [] [] example_now example_now)
     = Inr [[CHR 0xEF, CHR 0xBF, CHR 0xBD]]"
    using VerifyPresentation_bad_strings [of "[]" "[]"] by auto
  have ne: "[''v4.public.credential-1'', ''v4.public.credential-2''] \<noteq> []"
    by simp
  have v: "coerce_utf8 ''did:key:z6MkVerifier'' = ''did:key:z6MkVerifier''"
    by (rule coerce_utf8_ascii) simp
  have d: "VerifyPresentation example_presentation example_public_key ''did:key:z6MkOther''
      ''another-nonce'' (example_now + Minute) (example_now + 2 * Minute)
     = Inl ErrAudienceMismatch"
    using VerifyPresentation_CreatePresentation [OF example_key_pair ne
        example_presentation_created,
        of "''did:key:z6MkOther''" "''another-nonce''" "example_now + Minute"
          "example_now + 2 * Minute"]
      example_years(1) example_years(3) example_presentation_times(1)
    unfolding v by auto
  from example_key_pair example_presentation_bad_strings_created a b c
    example_presentation_created d
  show ?thesis
    by (intro conjI)
qed

end
